theory Spec2Isabelle
  imports Main
begin

section \<open>Outcomes of operations\<close>

text \<open>
  An operation of \<^verbatim>\<open>vector.h\<close> either returns, or leaves by an exception, or hits
  undefined behaviour (a failed \<^verbatim>\<open>assert\<close>, releasing a region twice, reading,
  assigning or destroying a slot that holds no object, constructing into a slot that holds
  one or lies outside every region). The three are the constructors of \<open>outcome\<close>;
  an exception carries the state it leaves behind, undefined behaviour carries nothing.
\<close>

datatype exn = BadAlloc | ElemError

datatype ('r, 's) outcome = Ok 'r 's | Throw exn 's | Fault

definition obind :: "('r, 's) outcome \<Rightarrow> ('r \<Rightarrow> 's \<Rightarrow> ('q, 's) outcome) \<Rightarrow> ('q, 's) outcome" where
  "obind m f = (case m of Ok r s \<Rightarrow> f r s | Throw e s \<Rightarrow> Throw e s | Fault \<Rightarrow> Fault)"

definition try_catch :: "('r, 's) outcome \<Rightarrow> (exn \<Rightarrow> 's \<Rightarrow> ('r, 's) outcome) \<Rightarrow> ('r, 's) outcome" where
  "try_catch m h = (case m of Ok r s \<Rightarrow> Ok r s | Throw e s \<Rightarrow> h e s | Fault \<Rightarrow> Fault)"

section \<open>The element type \<open>T\<close>\<close>

text \<open>
  The template parameter \<open>T\<close> is a parameter of the model: its default constructor
  (\<open>None\<close> when it throws), which values make a copy or a move throw, what a move leaves
  in its source, and the two traits \<^verbatim>\<open>Reserve\<close> and \<^verbatim>\<open>ReAllocate\<close> ask for.
  A copy that returns yields an equal value; a move that returns yields the source's value
  and leaves \<open>moved_from\<close> of it in the source.
\<close>

record 'a elem_ops =
  default_value :: "'a option"
  copy_throws :: "'a \<Rightarrow> bool"
  move_throws :: "'a \<Rightarrow> bool"
  moved_from :: "'a \<Rightarrow> 'a"
  nothrow_move_constructible :: bool
  copy_constructible :: bool

section \<open>Memory, \<open>RawMemory\<close> and \<open>Vector\<close> objects\<close>

text \<open>
  A pointer \<^verbatim>\<open>T*\<close> is a region (\<open>None\<close> for \<^verbatim>\<open>nullptr\<close>) and an element offset.
  The data members \<^verbatim>\<open>buffer_\<close>, \<^verbatim>\<open>capacity_\<close>, \<^verbatim>\<open>data_\<close> and \<^verbatim>\<open>size_\<close> are the
  fields \<open>m_buffer\<close>, \<open>m_capacity\<close>, \<open>m_data\<close> and \<open>m_size\<close> (a name cannot end
  in an underscore here).
\<close>

type_synonym ptr = "nat option \<times> nat"

definition ptr_add :: "ptr \<Rightarrow> nat \<Rightarrow> ptr" where
  "ptr_add p n = (fst p, snd p + n)"

record RawMemory =
  m_buffer :: "nat option"
  m_capacity :: nat

record Vector =
  m_data :: RawMemory
  m_size :: nat

text \<open>
  The state: the \<open>Vector\<close> objects by identity, the regions \<^verbatim>\<open>operator new\<close> has
  handed out and not yet taken back (with their number of slots), the object living in
  each slot (\<open>None\<close>: raw memory), the next fresh region, the largest region
  \<^verbatim>\<open>operator new\<close> grants (counted in slots of \<open>T\<close>), a count of the objects whose
  storage was released while they were still alive (never destroyed: leaked), and
  \<^verbatim>\<open>sizeof(T)\<close> for the element type of the program, in bytes.
\<close>

record 'a state =
  vectors :: "nat \<Rightarrow> Vector"
  region_size :: "nat \<Rightarrow> nat option"
  slot :: "nat \<times> nat \<Rightarrow> 'a option"
  next_addr :: nat
  mem_limit :: nat
  leaked :: nat
  elem_size :: nat

text \<open>
  \<^verbatim>\<open>size_t\<close> is taken to have 64 bits. The two products the source computes from a
  number the caller chooses, \<^verbatim>\<open>n * sizeof(T)\<close> in \<^verbatim>\<open>Allocate\<close> and \<^verbatim>\<open>size_ * 2\<close> in
  \<^verbatim>\<open>Emplace\<close>, wrap around as they do there. The other arithmetic on sizes
  (\<^verbatim>\<open>++size_\<close>, \<^verbatim>\<open>--size_\<close>, \<^verbatim>\<open>size_ - pos_num\<close>, offsets into a buffer) stays below
  the capacity of a buffer and is done on natural numbers.
\<close>

definition size_t_range :: nat where
  "size_t_range = 2 ^ 64"

definition size_t_mul :: "nat \<Rightarrow> nat \<Rightarrow> nat" where
  "size_t_mul a b = (a * b) mod size_t_range"

definition in_storage :: "'a state \<Rightarrow> ptr \<Rightarrow> bool" where
  "in_storage s p =
     (case fst p of None \<Rightarrow> False
      | Some a \<Rightarrow> (case region_size s a of None \<Rightarrow> False | Some n \<Rightarrow> snd p < n))"

definition load :: "'a state \<Rightarrow> ptr \<Rightarrow> 'a option" where
  "load s p = (if in_storage s p then slot s (the (fst p), snd p) else None)"

definition store :: "ptr \<Rightarrow> 'a option \<Rightarrow> 'a state \<Rightarrow> 'a state" where
  "store p x s = s\<lparr>slot := (slot s)((the (fst p), snd p) := x)\<rparr>"

subsection \<open>Operations of \<open>T\<close> on slots\<close>

definition construct_at :: "ptr \<Rightarrow> 'a \<Rightarrow> 'a state \<Rightarrow> (unit, 'a state) outcome" where
  "construct_at p x s =
     (if in_storage s p \<and> load s p = None then Ok () (store p (Some x) s) else Fault)"

definition destroy_at :: "ptr \<Rightarrow> 'a state \<Rightarrow> (unit, 'a state) outcome" where
  "destroy_at p s = (if load s p \<noteq> None then Ok () (store p None s) else Fault)"

definition value_construct :: "'a elem_ops \<Rightarrow> ptr \<Rightarrow> 'a state \<Rightarrow> (unit, 'a state) outcome" where
  "value_construct ops p s =
     (case default_value ops of None \<Rightarrow> Throw ElemError s | Some d \<Rightarrow> construct_at p d s)"

definition copy_construct :: "'a elem_ops \<Rightarrow> ptr \<Rightarrow> ptr \<Rightarrow> 'a state \<Rightarrow> (unit, 'a state) outcome" where
  "copy_construct ops dst src s =
     (case load s src of None \<Rightarrow> Fault
      | Some x \<Rightarrow> if copy_throws ops x then Throw ElemError s else construct_at dst x s)"

definition move_construct :: "'a elem_ops \<Rightarrow> ptr \<Rightarrow> ptr \<Rightarrow> 'a state \<Rightarrow> (unit, 'a state) outcome" where
  "move_construct ops dst src s =
     (case load s src of None \<Rightarrow> Fault
      | Some x \<Rightarrow>
          if move_throws ops x then Throw ElemError s
          else obind (construct_at dst x s)
                 (\<lambda>_ s1. Ok () (store src (Some (moved_from ops x)) s1)))"

definition copy_assign :: "'a elem_ops \<Rightarrow> ptr \<Rightarrow> ptr \<Rightarrow> 'a state \<Rightarrow> (unit, 'a state) outcome" where
  "copy_assign ops dst src s =
     (case load s src of None \<Rightarrow> Fault
      | Some x \<Rightarrow>
          if load s dst = None then Fault
          else if copy_throws ops x then Throw ElemError s
          else Ok () (store dst (Some x) s))"

definition move_assign :: "'a elem_ops \<Rightarrow> ptr \<Rightarrow> ptr \<Rightarrow> 'a state \<Rightarrow> (unit, 'a state) outcome" where
  "move_assign ops dst src s =
     (case load s src of None \<Rightarrow> Fault
      | Some x \<Rightarrow>
          if load s dst = None then Fault
          else if move_throws ops x then Throw ElemError s
          else Ok () (store src (Some (moved_from ops x)) (store dst (Some x) s)))"

subsection \<open>The algorithms of \<^verbatim>\<open><memory>\<close> and \<^verbatim>\<open><algorithm>\<close> the source calls\<close>

text \<open>
  The \<^verbatim>\<open>uninitialized_*\<close> algorithms destroy what they have constructed when a
  construction throws, and rethrow.
\<close>

fun destroy_n :: "ptr \<Rightarrow> nat \<Rightarrow> 'a state \<Rightarrow> (unit, 'a state) outcome" where
  "destroy_n p 0 s = Ok () s"
| "destroy_n p (Suc n) s = obind (destroy_at p s) (\<lambda>_ s1. destroy_n (ptr_add p 1) n s1)"

fun uninitialized_value_construct_n ::
  "'a elem_ops \<Rightarrow> ptr \<Rightarrow> nat \<Rightarrow> 'a state \<Rightarrow> (unit, 'a state) outcome" where
  "uninitialized_value_construct_n ops p 0 s = Ok () s"
| "uninitialized_value_construct_n ops p (Suc n) s =
     obind (value_construct ops p s)
       (\<lambda>_ s1. try_catch (uninitialized_value_construct_n ops (ptr_add p 1) n s1)
                  (\<lambda>e s2. obind (destroy_at p s2) (\<lambda>_ s3. Throw e s3)))"

fun uninitialized_copy_n ::
  "'a elem_ops \<Rightarrow> ptr \<Rightarrow> nat \<Rightarrow> ptr \<Rightarrow> 'a state \<Rightarrow> (unit, 'a state) outcome" where
  "uninitialized_copy_n ops src 0 dst s = Ok () s"
| "uninitialized_copy_n ops src (Suc n) dst s =
     obind (copy_construct ops dst src s)
       (\<lambda>_ s1. try_catch (uninitialized_copy_n ops (ptr_add src 1) n (ptr_add dst 1) s1)
                  (\<lambda>e s2. obind (destroy_at dst s2) (\<lambda>_ s3. Throw e s3)))"

fun uninitialized_move_n ::
  "'a elem_ops \<Rightarrow> ptr \<Rightarrow> nat \<Rightarrow> ptr \<Rightarrow> 'a state \<Rightarrow> (unit, 'a state) outcome" where
  "uninitialized_move_n ops src 0 dst s = Ok () s"
| "uninitialized_move_n ops src (Suc n) dst s =
     obind (move_construct ops dst src s)
       (\<lambda>_ s1. try_catch (uninitialized_move_n ops (ptr_add src 1) n (ptr_add dst 1) s1)
                  (\<lambda>e s2. obind (destroy_at dst s2) (\<lambda>_ s3. Throw e s3)))"

text \<open>\<^verbatim>\<open>std::copy\<close> and \<^verbatim>\<open>std::move\<close> assign front to back, \<^verbatim>\<open>std::move_backward\<close>
  back to front; here on a first pointer and a count.\<close>

fun copy_n_assign :: "'a elem_ops \<Rightarrow> ptr \<Rightarrow> nat \<Rightarrow> ptr \<Rightarrow> 'a state \<Rightarrow> (unit, 'a state) outcome" where
  "copy_n_assign ops src 0 dst s = Ok () s"
| "copy_n_assign ops src (Suc n) dst s =
     obind (copy_assign ops dst src s)
       (\<lambda>_ s1. copy_n_assign ops (ptr_add src 1) n (ptr_add dst 1) s1)"

fun move_n_assign :: "'a elem_ops \<Rightarrow> ptr \<Rightarrow> nat \<Rightarrow> ptr \<Rightarrow> 'a state \<Rightarrow> (unit, 'a state) outcome" where
  "move_n_assign ops src 0 dst s = Ok () s"
| "move_n_assign ops src (Suc n) dst s =
     obind (move_assign ops dst src s)
       (\<lambda>_ s1. move_n_assign ops (ptr_add src 1) n (ptr_add dst 1) s1)"

fun move_backward_n :: "'a elem_ops \<Rightarrow> ptr \<Rightarrow> nat \<Rightarrow> ptr \<Rightarrow> 'a state \<Rightarrow> (unit, 'a state) outcome" where
  "move_backward_n ops first 0 d_last s = Ok () s"
| "move_backward_n ops first (Suc n) d_last s =
     (if snd d_last = 0 then Fault
      else obind (move_assign ops (fst d_last, snd d_last - 1) (ptr_add first n) s)
             (\<lambda>_ s1. move_backward_n ops first n (fst d_last, snd d_last - 1) s1))"

definition std_copy :: "'a elem_ops \<Rightarrow> ptr \<Rightarrow> ptr \<Rightarrow> ptr \<Rightarrow> 'a state \<Rightarrow> (unit, 'a state) outcome" where
  "std_copy ops first lst d_first s =
     (if fst first = fst lst \<and> snd first \<le> snd lst
      then copy_n_assign ops first (snd lst - snd first) d_first s else Fault)"

definition std_move :: "'a elem_ops \<Rightarrow> ptr \<Rightarrow> ptr \<Rightarrow> ptr \<Rightarrow> 'a state \<Rightarrow> (unit, 'a state) outcome" where
  "std_move ops first lst d_first s =
     (if fst first = fst lst \<and> snd first \<le> snd lst
      then move_n_assign ops first (snd lst - snd first) d_first s else Fault)"

definition std_move_backward ::
  "'a elem_ops \<Rightarrow> ptr \<Rightarrow> ptr \<Rightarrow> ptr \<Rightarrow> 'a state \<Rightarrow> (unit, 'a state) outcome" where
  "std_move_backward ops first lst d_last s =
     (if fst first = fst lst \<and> snd first \<le> snd lst
      then move_backward_n ops first (snd lst - snd first) d_last s else Fault)"

section \<open>\<open>RawMemory\<close>\<close>

text \<open>
  \<^verbatim>\<open>operator new(bytes)\<close>: a fresh region of raw memory with room for
  \<open>bytes div sizeof(T)\<close> slots, or \<^verbatim>\<open>bad_alloc\<close> when the region would be larger than
  \<open>mem_limit\<close>. A request of 0 bytes is served with a region that has no slot.
  \<^verbatim>\<open>Allocate(n)\<close>: \<^verbatim>\<open>nullptr\<close> for \<open>n = 0\<close>, else \<^verbatim>\<open>operator new(n * sizeof(T))\<close>,
  the product taken in \<^verbatim>\<open>size_t\<close>: there is no check that it fits, so for a large \<open>n\<close>
  the region has fewer than \<open>n\<close> slots.
  \<^verbatim>\<open>Deallocate(buf)\<close>: \<^verbatim>\<open>operator delete\<close>, which ignores \<^verbatim>\<open>nullptr\<close>; releasing a
  region that is not live is undefined.
\<close>

definition operator_new :: "nat \<Rightarrow> 'a state \<Rightarrow> (nat option, 'a state) outcome" where
  "operator_new bytes s =
     (if mem_limit s < bytes div elem_size s then Throw BadAlloc s
      else Ok (Some (next_addr s))
             (s\<lparr>region_size := (region_size s)(next_addr s := Some (bytes div elem_size s)),
                slot := (\<lambda>q. if fst q = next_addr s then None else slot s q),
                next_addr := Suc (next_addr s)\<rparr>))"

definition Allocate :: "nat \<Rightarrow> 'a state \<Rightarrow> (nat option, 'a state) outcome" where
  "Allocate n s =
     (if n \<noteq> 0 then operator_new (size_t_mul n (elem_size s)) s else Ok None s)"

definition Deallocate :: "nat option \<Rightarrow> 'a state \<Rightarrow> (unit, 'a state) outcome" where
  "Deallocate buf s =
     (case buf of None \<Rightarrow> Ok () s
      | Some a \<Rightarrow>
          (case region_size s a of None \<Rightarrow> Fault
           | Some n \<Rightarrow>
               Ok () (s\<lparr>region_size := (region_size s)(a := None),
                        leaked := leaked s + length (filter (\<lambda>i. slot s (a, i) \<noteq> None) [0..<n])\<rparr>)))"

definition RawMemory_default :: RawMemory where
  "RawMemory_default = \<lparr>m_buffer = None, m_capacity = 0\<rparr>"

definition RawMemory_ctor :: "nat \<Rightarrow> 'a state \<Rightarrow> (RawMemory, 'a state) outcome" where
  "RawMemory_ctor capacity s =
     obind (Allocate capacity s) (\<lambda>buf s1. Ok \<lparr>m_buffer = buf, m_capacity = capacity\<rparr> s1)"

definition RawMemory_dtor :: "RawMemory \<Rightarrow> 'a state \<Rightarrow> (unit, 'a state) outcome" where
  "RawMemory_dtor this s = Deallocate (m_buffer this) s"

definition RawMemory_Swap :: "RawMemory \<Rightarrow> RawMemory \<Rightarrow> RawMemory \<times> RawMemory" where
  "RawMemory_Swap this other =
     (let (b1, b2) = (m_buffer other, m_buffer this);
          this1 = this\<lparr>m_buffer := b1\<rparr>; other1 = other\<lparr>m_buffer := b2\<rparr>;
          (c1, c2) = (m_capacity other1, m_capacity this1)
      in (this1\<lparr>m_capacity := c1\<rparr>, other1\<lparr>m_capacity := c2\<rparr>))"

text \<open>The move constructor: returns the new object and the source as it is left.\<close>

definition RawMemory_move_ctor :: "RawMemory \<Rightarrow> RawMemory \<times> RawMemory" where
  "RawMemory_move_ctor other =
     (let this = \<lparr>m_buffer = None, m_capacity = 0\<rparr> in RawMemory_Swap this other)"

text \<open>
  Move assignment; \<open>same\<close> says whether \<^verbatim>\<open>this == &rhs\<close>. Returns both objects as
  they are left.
\<close>

definition RawMemory_move_assign ::
  "bool \<Rightarrow> RawMemory \<Rightarrow> RawMemory \<Rightarrow> 'a state \<Rightarrow> (RawMemory \<times> RawMemory, 'a state) outcome" where
  "RawMemory_move_assign same this rhs s =
     (if \<not> same then
        obind (Deallocate (m_buffer this) s)
          (\<lambda>_ s1. Ok (RawMemory_Swap (this\<lparr>m_capacity := 0\<rparr>) rhs) s1)
      else Ok (this, rhs) s)"

text \<open>\<^verbatim>\<open>operator+\<close> and \<^verbatim>\<open>operator[]\<close>: \<open>None\<close> when the \<^verbatim>\<open>assert\<close> fails.\<close>

definition RawMemory_plus :: "RawMemory \<Rightarrow> nat \<Rightarrow> ptr option" where
  "RawMemory_plus this offset =
     (if offset \<le> m_capacity this then Some (m_buffer this, offset) else None)"

definition RawMemory_index :: "RawMemory \<Rightarrow> nat \<Rightarrow> ptr option" where
  "RawMemory_index this index =
     (if index < m_capacity this then Some (m_buffer this, index) else None)"

definition GetAddress :: "RawMemory \<Rightarrow> ptr" where
  "GetAddress this = (m_buffer this, 0)"

section \<open>\<open>Vector\<close>\<close>

text \<open>
  A method takes the identity \<open>this\<close> of its object, so that the source's tests
  \<^verbatim>\<open>this != &rhs\<close> are tests on identities. Pointers of one region compare by offset;
  comparing pointers of two regions fails the \<^verbatim>\<open>assert\<close> it stands in.
\<close>

definition ptr_sub :: "ptr \<Rightarrow> nat \<Rightarrow> ptr" where
  "ptr_sub p n = (fst p, snd p - n)"

definition ptr_le :: "ptr \<Rightarrow> ptr \<Rightarrow> bool" where
  "ptr_le p q = (fst p = fst q \<and> snd p \<le> snd q)"

definition ptr_less :: "ptr \<Rightarrow> ptr \<Rightarrow> bool" where
  "ptr_less p q = (fst p = fst q \<and> snd p < snd q)"

definition ptr_diff :: "ptr \<Rightarrow> ptr \<Rightarrow> nat" where
  "ptr_diff p q = snd p - snd q"

definition set_vector :: "nat \<Rightarrow> Vector \<Rightarrow> 'a state \<Rightarrow> 'a state" where
  "set_vector this v s = s\<lparr>vectors := (vectors s)(this := v)\<rparr>"

definition Size :: "'a state \<Rightarrow> nat \<Rightarrow> nat" where
  "Size s this = m_size (vectors s this)"

definition Capacity :: "'a state \<Rightarrow> nat \<Rightarrow> nat" where
  "Capacity s this = m_capacity (m_data (vectors s this))"

definition Vector_begin :: "'a state \<Rightarrow> nat \<Rightarrow> ptr" where
  "Vector_begin s this = GetAddress (m_data (vectors s this))"

definition Vector_end :: "'a state \<Rightarrow> nat \<Rightarrow> ptr" where
  "Vector_end s this = ptr_add (GetAddress (m_data (vectors s this))) (m_size (vectors s this))"

definition Vector_default_ctor :: "nat \<Rightarrow> 'a state \<Rightarrow> 'a state" where
  "Vector_default_ctor this s = set_vector this \<lparr>m_data = RawMemory_default, m_size = 0\<rparr> s"

text \<open>A constructor that throws destroys the member \<^verbatim>\<open>data_\<close> it had initialised.\<close>

definition Vector_sized_ctor :: "'a elem_ops \<Rightarrow> nat \<Rightarrow> nat \<Rightarrow> 'a state \<Rightarrow> (unit, 'a state) outcome" where
  "Vector_sized_ctor ops this n s =
     obind (RawMemory_ctor n s)
       (\<lambda>d s1.
          let s2 = set_vector this \<lparr>m_data = d, m_size = n\<rparr> s1 in
          try_catch
            (uninitialized_value_construct_n ops (GetAddress (m_data (vectors s2 this)))
               (m_size (vectors s2 this)) s2)
            (\<lambda>e s3. obind (RawMemory_dtor (m_data (vectors s3 this)) s3) (\<lambda>_ s4. Throw e s4)))"

definition Vector_copy_ctor :: "'a elem_ops \<Rightarrow> nat \<Rightarrow> nat \<Rightarrow> 'a state \<Rightarrow> (unit, 'a state) outcome" where
  "Vector_copy_ctor ops this other s =
     obind (RawMemory_ctor (m_size (vectors s other)) s)
       (\<lambda>d s1.
          let s2 = set_vector this \<lparr>m_data = d, m_size = m_size (vectors s1 other)\<rparr> s1 in
          try_catch
            (uninitialized_copy_n ops (GetAddress (m_data (vectors s2 other)))
               (m_size (vectors s2 this)) (GetAddress (m_data (vectors s2 this))) s2)
            (\<lambda>e s3. obind (RawMemory_dtor (m_data (vectors s3 this)) s3) (\<lambda>_ s4. Throw e s4)))"

definition Vector_Swap :: "nat \<Rightarrow> nat \<Rightarrow> 'a state \<Rightarrow> 'a state" where
  "Vector_Swap this other s =
     (let (d1, d2) = RawMemory_Swap (m_data (vectors s this)) (m_data (vectors s other));
          s1 = set_vector other ((vectors s other)\<lparr>m_data := d2\<rparr>)
                 (set_vector this ((vectors s this)\<lparr>m_data := d1\<rparr>) s);
          (n1, n2) = (m_size (vectors s1 other), m_size (vectors s1 this))
      in set_vector other ((vectors s1 other)\<lparr>m_size := n2\<rparr>)
           (set_vector this ((vectors s1 this)\<lparr>m_size := n1\<rparr>) s1))"

definition Vector_move_ctor :: "nat \<Rightarrow> nat \<Rightarrow> 'a state \<Rightarrow> 'a state" where
  "Vector_move_ctor this other s = Vector_Swap this other (Vector_default_ctor this s)"

definition Vector_dtor :: "nat \<Rightarrow> 'a state \<Rightarrow> (unit, 'a state) outcome" where
  "Vector_dtor this s =
     obind (destroy_n (GetAddress (m_data (vectors s this))) (m_size (vectors s this)) s)
       (\<lambda>_ s1. RawMemory_dtor (m_data (vectors s1 this)) s1)"

text \<open>
  Copy assignment; \<open>tmp\<close> is where the local \<^verbatim>\<open>rhs_copy\<close> lives.
\<close>

definition Vector_copy_assign ::
  "'a elem_ops \<Rightarrow> nat \<Rightarrow> nat \<Rightarrow> nat \<Rightarrow> 'a state \<Rightarrow> (unit, 'a state) outcome" where
  "Vector_copy_assign ops tmp this rhs s =
     (if this \<noteq> rhs then
        (if Capacity s this < m_size (vectors s rhs) then
           obind (Vector_copy_ctor ops tmp rhs s)
             (\<lambda>_ s1. Vector_dtor tmp (Vector_Swap this tmp s1))
         else
           obind
             (if m_size (vectors s rhs) < m_size (vectors s this) then
                obind (std_copy ops (Vector_begin s rhs)
                         (ptr_add (Vector_begin s rhs) (m_size (vectors s rhs)))
                         (Vector_begin s this) s)
                  (\<lambda>_ s1. destroy_n (ptr_add (Vector_begin s1 this) (m_size (vectors s1 rhs)))
                             (m_size (vectors s1 this) - m_size (vectors s1 rhs)) s1)
              else
                obind (std_copy ops (Vector_begin s rhs)
                         (ptr_add (Vector_begin s rhs) (m_size (vectors s this)))
                         (Vector_begin s this) s)
                  (\<lambda>_ s1. uninitialized_copy_n ops
                             (ptr_add (Vector_begin s1 rhs) (m_size (vectors s1 this)))
                             (m_size (vectors s1 rhs) - m_size (vectors s1 this))
                             (ptr_add (Vector_begin s1 this) (m_size (vectors s1 this))) s1))
             (\<lambda>_ s2. Ok () (set_vector this
                               ((vectors s2 this)\<lparr>m_size := m_size (vectors s2 rhs)\<rparr>) s2)))
      else Ok () s)"

definition Vector_move_assign :: "nat \<Rightarrow> nat \<Rightarrow> 'a state \<Rightarrow> 'a state" where
  "Vector_move_assign this rhs s = (if this \<noteq> rhs then Vector_Swap this rhs s else s)"

definition Vector_index :: "'a state \<Rightarrow> nat \<Rightarrow> nat \<Rightarrow> ptr option" where
  "Vector_index s this index =
     (if index < m_size (vectors s this) then RawMemory_index (m_data (vectors s this)) index
      else None)"

text \<open>
  \<^verbatim>\<open>Reserve\<close>: the local \<^verbatim>\<open>new_data\<close> is destroyed when the relocation throws (it
  still owns the new region) and at the end (it then owns the old one).
\<close>

definition Reserve :: "'a elem_ops \<Rightarrow> nat \<Rightarrow> nat \<Rightarrow> 'a state \<Rightarrow> (unit, 'a state) outcome" where
  "Reserve ops this new_capacity s =
     (if new_capacity \<le> Capacity s this then Ok () s
      else
        obind (RawMemory_ctor new_capacity s)
          (\<lambda>new_data s1.
             obind
               (try_catch
                  (if nothrow_move_constructible ops \<or> \<not> copy_constructible ops
                   then uninitialized_move_n ops (GetAddress (m_data (vectors s1 this)))
                          (m_size (vectors s1 this)) (GetAddress new_data) s1
                   else uninitialized_copy_n ops (GetAddress (m_data (vectors s1 this)))
                          (m_size (vectors s1 this)) (GetAddress new_data) s1)
                  (\<lambda>e s2. obind (RawMemory_dtor new_data s2) (\<lambda>_ s3. Throw e s3)))
               (\<lambda>_ s4.
                  obind (destroy_n (GetAddress (m_data (vectors s4 this)))
                           (m_size (vectors s4 this)) s4)
                    (\<lambda>_ s5.
                       let (d, new_data1) = RawMemory_Swap (m_data (vectors s5 this)) new_data
                       in RawMemory_dtor new_data1
                            (set_vector this ((vectors s5 this)\<lparr>m_data := d\<rparr>) s5)))))"

definition Resize :: "'a elem_ops \<Rightarrow> nat \<Rightarrow> nat \<Rightarrow> 'a state \<Rightarrow> (unit, 'a state) outcome" where
  "Resize ops this new_size s =
     obind
       (if new_size \<le> m_size (vectors s this) then
          destroy_n (ptr_add (GetAddress (m_data (vectors s this))) new_size)
            (m_size (vectors s this) - new_size) s
        else
          obind (Reserve ops this new_size s)
            (\<lambda>_ s1. uninitialized_value_construct_n ops
                       (ptr_add (GetAddress (m_data (vectors s1 this))) (m_size (vectors s1 this)))
                       (new_size - m_size (vectors s1 this)) s1))
       (\<lambda>_ s2. Ok () (set_vector this ((vectors s2 this)\<lparr>m_size := new_size\<rparr>) s2))"

definition PopBack :: "nat \<Rightarrow> 'a state \<Rightarrow> (unit, 'a state) outcome" where
  "PopBack this s =
     (if 0 < m_size (vectors s this) then
        (let s1 = set_vector this ((vectors s this)\<lparr>m_size := m_size (vectors s this) - 1\<rparr>) s
         in destroy_at (ptr_add (GetAddress (m_data (vectors s1 this))) (m_size (vectors s1 this))) s1)
      else Ok () s)"

text \<open>
  \<^verbatim>\<open>new (p) T(std::forward<Args>(args)...)\<close>: the arguments are the value the constructor
  builds, or \<open>None\<close> when it throws.
\<close>

definition placement_new :: "ptr \<Rightarrow> 'a option \<Rightarrow> 'a state \<Rightarrow> (ptr, 'a state) outcome" where
  "placement_new p args s =
     (case args of None \<Rightarrow> Throw ElemError s
      | Some x \<Rightarrow> obind (construct_at p x s) (\<lambda>_ s1. Ok p s1))"

definition ReAllocate ::
  "'a elem_ops \<Rightarrow> nat \<Rightarrow> nat \<Rightarrow> RawMemory \<Rightarrow> 'a state \<Rightarrow> (unit, 'a state) outcome" where
  "ReAllocate ops this pos_num new_data s =
     (if nothrow_move_constructible ops \<or> \<not> copy_constructible ops then
        obind (uninitialized_move_n ops (Vector_begin s this) pos_num (GetAddress new_data) s)
          (\<lambda>_ s1. uninitialized_move_n ops (ptr_add (Vector_begin s1 this) pos_num)
                     (m_size (vectors s1 this) - pos_num)
                     (ptr_add (ptr_add (GetAddress new_data) pos_num) 1) s1)
      else
        try_catch
          (obind (uninitialized_copy_n ops (Vector_begin s this) pos_num (GetAddress new_data) s)
             (\<lambda>_ s1. uninitialized_copy_n ops (ptr_add (Vector_begin s1 this) pos_num)
                        (m_size (vectors s1 this) - pos_num)
                        (ptr_add (ptr_add (GetAddress new_data) pos_num) 1) s1))
          (\<lambda>e s2. obind (destroy_at (ptr_add (GetAddress new_data) pos_num) s2)
                     (\<lambda>_ s3. Throw e s3)))"

text \<open>
  \<^verbatim>\<open>Emplace(pos, args...)\<close>. The arguments are references: the new element is built from
  them by \<^verbatim>\<open>new (p) T(std::forward<Args>(args)...)\<close> at the moment that expression runs,
  in the full branch before anything is relocated, in the branch for a free slot after the
  elements were shifted and the slot at \<open>pos\<close> destroyed. \<open>ctor p s\<close> is that expression,
  run at the address \<open>p\<close> in the state \<open>s\<close>.
\<close>

definition Emplace_with ::
  "'a elem_ops \<Rightarrow> nat \<Rightarrow> ptr \<Rightarrow> (ptr \<Rightarrow> 'a state \<Rightarrow> (ptr, 'a state) outcome) \<Rightarrow>
   'a state \<Rightarrow> (ptr, 'a state) outcome" where
  "Emplace_with ops this pos ctor s =
     (if \<not> (ptr_le (Vector_begin s this) pos \<and> ptr_le pos (Vector_end s this)) then Fault
      else
        let new_capacity = (if m_size (vectors s this) = 0 then 1
                            else size_t_mul (m_size (vectors s this)) 2);
            pos_num = ptr_diff pos (Vector_begin s this)
        in
        obind
          (if m_size (vectors s this) = Capacity s this then
             obind (RawMemory_ctor new_capacity s)
               (\<lambda>new_data s1.
                  obind
                    (try_catch
                       (case RawMemory_plus new_data pos_num of None \<Rightarrow> Fault
                        | Some p \<Rightarrow>
                            obind (ctor p s1)
                              (\<lambda>val s2.
                                 obind (ReAllocate ops this pos_num new_data s2)
                                   (\<lambda>_ s3.
                                      obind (destroy_n (Vector_begin s3 this)
                                               (m_size (vectors s3 this)) s3)
                                        (\<lambda>_ s4. Ok val s4))))
                       (\<lambda>e s5. obind (RawMemory_dtor new_data s5) (\<lambda>_ s6. Throw e s6)))
                    (\<lambda>val s4.
                       let (d, new_data1) = RawMemory_Swap (m_data (vectors s4 this)) new_data
                       in obind (RawMemory_dtor new_data1
                                   (set_vector this ((vectors s4 this)\<lparr>m_data := d\<rparr>) s4))
                            (\<lambda>_ s7. Ok val s7)))
           else
             obind
               (if m_size (vectors s this) \<noteq> 0 then
                  (case RawMemory_plus (m_data (vectors s this)) (m_size (vectors s this)) of
                     None \<Rightarrow> Fault
                   | Some p \<Rightarrow>
                       obind (move_construct ops p (ptr_sub (Vector_end s this) 1) s)
                         (\<lambda>_ s1.
                            obind
                              (try_catch
                                 (std_move_backward ops (ptr_add (Vector_begin s1 this) pos_num)
                                    (Vector_end s1 this) (ptr_add (Vector_end s1 this) 1) s1)
                                 (\<lambda>e s2. obind (destroy_at (Vector_end s2 this) s2)
                                            (\<lambda>_ s3. Throw e s3)))
                              (\<lambda>_ s4. destroy_at (ptr_add (Vector_begin s4 this) pos_num) s4)))
                else Ok () s)
               (\<lambda>_ s5.
                  (case RawMemory_plus (m_data (vectors s5 this)) pos_num of None \<Rightarrow> Fault
                   | Some p \<Rightarrow> ctor p s5)))
          (\<lambda>val s8.
             Ok val (set_vector this
                       ((vectors s8 this)\<lparr>m_size := Suc (m_size (vectors s8 this))\<rparr>) s8)))"

text \<open>
  \<^verbatim>\<open>Emplace\<close> with arguments that are not objects in the storage of a vector (temporaries,
  local objects): what the constructor builds from them does not depend on the moment it
  runs, so the arguments are the value it builds, or \<open>None\<close> when it throws.
\<close>

definition Emplace ::
  "'a elem_ops \<Rightarrow> nat \<Rightarrow> ptr \<Rightarrow> 'a option \<Rightarrow> 'a state \<Rightarrow> (ptr, 'a state) outcome" where
  "Emplace ops this pos args s = Emplace_with ops this pos (\<lambda>p. placement_new p args) s"

definition EmplaceBack :: "'a elem_ops \<Rightarrow> nat \<Rightarrow> 'a option \<Rightarrow> 'a state \<Rightarrow> (ptr, 'a state) outcome" where
  "EmplaceBack ops this args s = Emplace ops this (Vector_end s this) args s"

text \<open>
  \<^verbatim>\<open>PushBack\<close> and \<^verbatim>\<open>Insert\<close> of an lvalue copy-construct the new element, of an rvalue
  move-construct it. Their argument here is an object outside the storage of the vectors,
  with the value \<open>x\<close>.
\<close>

definition PushBack :: "'a elem_ops \<Rightarrow> nat \<Rightarrow> 'a \<Rightarrow> 'a state \<Rightarrow> (unit, 'a state) outcome" where
  "PushBack ops this x s =
     obind (EmplaceBack ops this (if copy_throws ops x then None else Some x) s)
       (\<lambda>_ s1. Ok () s1)"

definition PushBack_rvalue :: "'a elem_ops \<Rightarrow> nat \<Rightarrow> 'a \<Rightarrow> 'a state \<Rightarrow> (unit, 'a state) outcome" where
  "PushBack_rvalue ops this x s =
     obind (EmplaceBack ops this (if move_throws ops x then None else Some x) s)
       (\<lambda>_ s1. Ok () s1)"

definition Insert :: "'a elem_ops \<Rightarrow> nat \<Rightarrow> ptr \<Rightarrow> 'a \<Rightarrow> 'a state \<Rightarrow> (ptr, 'a state) outcome" where
  "Insert ops this pos x s = Emplace ops this pos (if copy_throws ops x then None else Some x) s"

definition Insert_rvalue :: "'a elem_ops \<Rightarrow> nat \<Rightarrow> ptr \<Rightarrow> 'a \<Rightarrow> 'a state \<Rightarrow> (ptr, 'a state) outcome" where
  "Insert_rvalue ops this pos x s = Emplace ops this pos (if move_throws ops x then None else Some x) s"

text \<open>
  \<^verbatim>\<open>Insert(pos, value)\<close> where \<^verbatim>\<open>value\<close> refers to an object in a slot, such as an element
  of the vector itself: the copy constructor reads that slot when it runs.
\<close>

definition Insert_element ::
  "'a elem_ops \<Rightarrow> nat \<Rightarrow> ptr \<Rightarrow> ptr \<Rightarrow> 'a state \<Rightarrow> (ptr, 'a state) outcome" where
  "Insert_element ops this pos src s =
     Emplace_with ops this pos
       (\<lambda>p s1. obind (copy_construct ops p src s1) (\<lambda>_ s2. Ok p s2)) s"

definition Erase :: "'a elem_ops \<Rightarrow> nat \<Rightarrow> ptr \<Rightarrow> 'a state \<Rightarrow> (ptr, 'a state) outcome" where
  "Erase ops this pos s =
     (if \<not> (ptr_le (Vector_begin s this) pos \<and> ptr_less pos (Vector_end s this)) then Fault
      else
        let pos_num = ptr_diff pos (Vector_begin s this) in
        obind (std_move ops (ptr_add (ptr_add (Vector_begin s this) pos_num) 1) (Vector_end s this)
                 (ptr_add (Vector_begin s this) pos_num) s)
          (\<lambda>_ s1. obind (PopBack this s1)
                     (\<lambda>_ s2. Ok (ptr_add (Vector_begin s2 this) pos_num) s2)))"

section \<open>What a state holds\<close>

text \<open>
  The elements of a vector, front to back, and the class invariant of the specification:
  \<open>size \<le> capacity\<close>, every slot below \<open>size\<close> holds an object, every slot from \<open>size\<close>
  to \<open>capacity\<close> is raw memory; a vector of capacity 0 has no region. The buffer is a
  region of exactly \<open>capacity\<close> slots that \<^verbatim>\<open>operator new\<close> handed out, so its byte
  count \<open>capacity * sizeof(T)\<close> is a value of \<^verbatim>\<open>size_t\<close> (\<open>fits_size_t\<close>, which also
  says that \<^verbatim>\<open>sizeof(T)\<close> is not 0).
\<close>

definition fits_size_t :: "'a state \<Rightarrow> nat \<Rightarrow> bool" where
  "fits_size_t s n = (0 < elem_size s \<and> n * elem_size s < size_t_range)"

definition elems :: "'a state \<Rightarrow> nat \<Rightarrow> 'a list" where
  "elems s this =
     map (\<lambda>i. the (load s (ptr_add (Vector_begin s this) i))) [0..<m_size (vectors s this)]"

definition vector_inv :: "'a state \<Rightarrow> nat \<Rightarrow> bool" where
  "vector_inv s this =
     (fits_size_t s (m_capacity (m_data (vectors s this))) \<and>
      (case m_buffer (m_data (vectors s this)) of
        None \<Rightarrow> m_capacity (m_data (vectors s this)) = 0 \<and> m_size (vectors s this) = 0
      | Some a \<Rightarrow>
          region_size s a = Some (m_capacity (m_data (vectors s this))) \<and>
          m_size (vectors s this) \<le> m_capacity (m_data (vectors s this)) \<and>
          list_all (\<lambda>i. slot s (a, i) \<noteq> None) [0..<m_size (vectors s this)] \<and>
          list_all (\<lambda>i. slot s (a, i) = None)
            [m_size (vectors s this)..<m_capacity (m_data (vectors s this))]))"

text \<open>
  The empty state: no object alive, no region handed out. Its element type has 32 bytes,
  as \<^verbatim>\<open>std::string\<close> has in common implementations; the runs from this state request a
  handful of slots.
\<close>

definition init_state :: "nat \<Rightarrow> 'a state" where
  "init_state limit =
     \<lparr>vectors = (\<lambda>_. \<lparr>m_data = RawMemory_default, m_size = 0\<rparr>), region_size = (\<lambda>_. None),
      slot = (\<lambda>_. None), next_addr = 0, mem_limit = limit, leaked = 0, elem_size = 32\<rparr>"

text \<open>\<open>only_slots s s'\<close>: from \<open>s\<close> to \<open>s'\<close> nothing but the contents of slots has changed.\<close>

definition only_slots :: "'a state \<Rightarrow> 'a state \<Rightarrow> bool" where
  "only_slots s s' = (s' = s\<lparr>slot := slot s'\<rparr>)"

text \<open>
  A state with two vectors of \<^verbatim>\<open>int\<close> (4 bytes): vector 0 holds 8, 9 in a buffer of
  capacity 2 (region 0), vector 1 holds 5 in a buffer of capacity 3 (region 1).
\<close>

definition example_state :: "int state" where
  "example_state =
     \<lparr>vectors = (\<lambda>_. \<lparr>m_data = RawMemory_default, m_size = 0\<rparr>)
        (0 := \<lparr>m_data = \<lparr>m_buffer = Some 0, m_capacity = 2\<rparr>, m_size = 2\<rparr>,
         1 := \<lparr>m_data = \<lparr>m_buffer = Some 1, m_capacity = 3\<rparr>, m_size = 1\<rparr>),
      region_size = (\<lambda>_. None)(0 := Some 2, 1 := Some 3),
      slot = (\<lambda>_. None)((0, 0) := Some 8, (0, 1) := Some 9, (1, 0) := Some 5),
      next_addr = 2, mem_limit = 100, leaked = 0, elem_size = 4\<rparr>"

section \<open>Element types used as examples\<close>

text \<open>
  \<open>string_ops\<close>: a string type in the manner of \<^verbatim>\<open>std::string\<close>; no operation throws,
  the move constructor is \<^verbatim>\<open>noexcept\<close>, and a move leaves the empty string in its source.
  \<open>picky_ops\<close>: a copyable type without a \<^verbatim>\<open>noexcept\<close> move whose copy (and move, which
  is the same copy) throws for the value \<open>''bad''\<close>. \<open>int_ops\<close>: \<^verbatim>\<open>int\<close>, where a move is
  a copy and nothing throws.
\<close>

definition string_ops :: "string elem_ops" where
  "string_ops =
     \<lparr>default_value = Some [], copy_throws = (\<lambda>_. False), move_throws = (\<lambda>_. False),
      moved_from = (\<lambda>_. []), nothrow_move_constructible = True, copy_constructible = True\<rparr>"

definition picky_ops :: "string elem_ops" where
  "picky_ops =
     \<lparr>default_value = Some [], copy_throws = (\<lambda>x. x = ''bad''),
      move_throws = (\<lambda>x. x = ''bad''), moved_from = (\<lambda>x. x),
      nothrow_move_constructible = False, copy_constructible = True\<rparr>"

definition int_ops :: "int elem_ops" where
  "int_ops =
     \<lparr>default_value = Some 0, copy_throws = (\<lambda>_. False), move_throws = (\<lambda>_. False),
      moved_from = (\<lambda>x. x), nothrow_move_constructible = True, copy_constructible = True\<rparr>"

section \<open>Basic facts\<close>

lemma load_Some [simp]:
  "load s (Some a, i) =
     (case region_size s a of None \<Rightarrow> None | Some n \<Rightarrow> if i < n then slot s (a, i) else None)"
  by (simp add: load_def in_storage_def split: option.splits)

lemma load_None [simp]: "load s (None, i) = None"
  by (simp add: load_def in_storage_def)

lemma in_storage_Some [simp]:
  "in_storage s (Some a, i) = (case region_size s a of None \<Rightarrow> False | Some n \<Rightarrow> i < n)"
  by (simp add: in_storage_def split: option.splits)

lemma store_Some [simp]: "store (Some a, i) x s = s\<lparr>slot := (slot s)((a, i) := x)\<rparr>"
  by (simp add: store_def)

lemma obind_simps [simp]:
  "obind (Ok r s) f = f r s" "obind (Throw e s) f = Throw e s" "obind Fault f = Fault"
  by (simp_all add: obind_def)

lemma try_catch_simps [simp]:
  "try_catch (Ok r s) h = Ok r s" "try_catch (Throw e s) h = h e s" "try_catch Fault h = Fault"
  by (simp_all add: try_catch_def)

lemma ptr_add_simp [simp]: "ptr_add (b, i) n = (b, i + n)"
  by (simp add: ptr_add_def)

lemma slot_update_eq: "f = g \<Longrightarrow> s\<lparr>slot := f\<rparr> = s\<lparr>slot := g\<rparr>"
  by simp

lemma slot_update_id: "f = slot s \<Longrightarrow> s\<lparr>slot := f\<rparr> = s"
  by simp

lemma slot_update_id': "f = slot s \<Longrightarrow> s = s\<lparr>slot := f\<rparr>"
  by simp

section \<open>\<open>size_t\<close> arithmetic and requests that do not wrap\<close>

lemma size_t_range_pos [simp]: "0 < size_t_range"
  by (simp add: size_t_range_def)

lemma size_t_mul_small: "a * b < size_t_range \<Longrightarrow> size_t_mul a b = a * b"
  by (simp add: size_t_mul_def)

lemma lt_size_t_range: "n \<le> 255 \<Longrightarrow> n < size_t_range"
  by (simp add: size_t_range_def)

lemma fits_size_t_update [simp]:
  "fits_size_t (s\<lparr>vectors := v\<rparr>) n = fits_size_t s n"
  "fits_size_t (s\<lparr>region_size := r\<rparr>) n = fits_size_t s n"
  "fits_size_t (s\<lparr>slot := f\<rparr>) n = fits_size_t s n"
  "fits_size_t (s\<lparr>next_addr := a\<rparr>) n = fits_size_t s n"
  "fits_size_t (s\<lparr>mem_limit := l\<rparr>) n = fits_size_t s n"
  "fits_size_t (s\<lparr>leaked := k\<rparr>) n = fits_size_t s n"
  by (simp_all add: fits_size_t_def)

lemma fits_size_t_cong: "elem_size s' = elem_size s \<Longrightarrow> fits_size_t s' n = fits_size_t s n"
  by (simp add: fits_size_t_def)

lemma fits_size_t_mono: "fits_size_t s n \<Longrightarrow> m \<le> n \<Longrightarrow> fits_size_t s m"
  unfolding fits_size_t_def
  by (metis le_less_trans mult_le_mono1)

lemma fits_size_t_0: "fits_size_t s n \<Longrightarrow> fits_size_t s 0"
  by (simp add: fits_size_t_def)

lemma fits_size_t_less:
  assumes "fits_size_t s n" and "m \<le> n"
  shows "m < size_t_range"
proof -
  obtain k where k: "elem_size s = Suc k"
    using assms(1) by (cases "elem_size s") (auto simp: fits_size_t_def)
  have "n * elem_size s < size_t_range"
    using assms(1) by (simp add: fits_size_t_def)
  then show ?thesis
    using assms(2) by (simp add: k)
qed

lemma size_t_mul_fits: "fits_size_t s n \<Longrightarrow> size_t_mul n (elem_size s) div elem_size s = n"
  by (simp add: fits_size_t_def size_t_mul_def)

text \<open>
  A request that does not wrap is served with a region of exactly \<open>n\<close> slots, or refused
  when \<open>n\<close> exceeds \<open>mem_limit\<close>.
\<close>

lemma Allocate_no_wrap:
  "n \<noteq> 0 \<Longrightarrow> fits_size_t s n \<Longrightarrow>
   Allocate n s =
     (if mem_limit s < n then Throw BadAlloc s
      else Ok (Some (next_addr s))
             (s\<lparr>region_size := (region_size s)(next_addr s := Some n),
                slot := (\<lambda>q. if fst q = next_addr s then None else slot s q),
                next_addr := Suc (next_addr s)\<rparr>))"
  by (simp add: Allocate_def operator_new_def size_t_mul_fits)

text \<open>
  Every region \<^verbatim>\<open>Allocate\<close> hands out has a byte count in the range of \<^verbatim>\<open>size_t\<close>,
  whether the request wrapped or not: this is the part of the invariant that
  \<open>fits_size_t\<close> states for the buffer of a vector.
\<close>

lemma Allocate_region_fits:
  assumes "Allocate n s = Ok (Some a) s'" and "0 < elem_size s"
  shows "\<exists>k. region_size s' a = Some k \<and> fits_size_t s' k"
proof -
  define b where "b = size_t_mul n (elem_size s)"
  have "b < size_t_range"
    by (simp add: b_def size_t_mul_def)
  moreover have "b div elem_size s * elem_size s \<le> b"
    by simp
  ultimately have "b div elem_size s * elem_size s < size_t_range"
    by (rule le_less_trans[rotated])
  then have "fits_size_t s (b div elem_size s)"
    using assms(2) by (simp add: fits_size_t_def)
  then show ?thesis
    using assms(1)
    by (auto simp: Allocate_def operator_new_def b_def split: if_splits)
qed

section \<open>Running the model on concrete inputs\<close>

lemmas run_defs = obind_def try_catch_def ptr_add_def ptr_sub_def ptr_le_def ptr_less_def
  ptr_diff_def in_storage_def load_def store_def construct_at_def destroy_at_def
  value_construct_def copy_construct_def move_construct_def copy_assign_def move_assign_def
  std_copy_def std_move_def std_move_backward_def Allocate_no_wrap Deallocate_def
  RawMemory_default_def RawMemory_ctor_def RawMemory_dtor_def RawMemory_Swap_def
  RawMemory_move_ctor_def RawMemory_move_assign_def RawMemory_plus_def RawMemory_index_def
  GetAddress_def set_vector_def Size_def Capacity_def Vector_begin_def Vector_end_def
  Vector_default_ctor_def Vector_sized_ctor_def Vector_copy_ctor_def Vector_Swap_def
  Vector_move_ctor_def Vector_dtor_def Vector_copy_assign_def Vector_move_assign_def
  Vector_index_def Reserve_def Resize_def PopBack_def placement_new_def ReAllocate_def
  Emplace_with_def Emplace_def EmplaceBack_def PushBack_def PushBack_rvalue_def Insert_def
  Insert_rvalue_def Insert_element_def
  Erase_def elems_def vector_inv_def init_state_def fits_size_t_def size_t_mul_small
  lt_size_t_range Let_def numeral_eq_Suc


section \<open>The loops in closed form\<close>

lemma destroy_n_ok:
  "region_size s a = Some c \<Longrightarrow> off + n \<le> c \<Longrightarrow>
   (\<forall>i. off \<le> i \<and> i < off + n \<longrightarrow> slot s (a, i) \<noteq> None) \<Longrightarrow>
   destroy_n (Some a, off) n s =
     Ok () (s\<lparr>slot := (\<lambda>q. if fst q = a \<and> off \<le> snd q \<and> snd q < off + n then None else slot s q)\<rparr>)"
proof (induction n arbitrary: off s)
  case 0
  then show ?case by (auto simp: fun_eq_iff intro!: slot_update_id')
next
  case (Suc n)
  let ?s1 = "s\<lparr>slot := (slot s)((a, off) := None)\<rparr>"
  have d: "destroy_at (Some a, off) s = Ok () ?s1"
    using Suc.prems by (simp add: destroy_at_def)
  have "destroy_n (Some a, Suc off) n ?s1 =
     Ok () (?s1\<lparr>slot := (\<lambda>q. if fst q = a \<and> Suc off \<le> snd q \<and> snd q < Suc off + n then None else slot ?s1 q)\<rparr>)"
    using Suc.prems by (intro Suc.IH) auto
  then show ?case
    using d by (auto simp: fun_eq_iff intro!: slot_update_eq)
qed

lemma uninitialized_move_n_ok:
  "region_size s b = Some cb \<Longrightarrow> so + n \<le> cb \<Longrightarrow> region_size s a = Some ca \<Longrightarrow> dof + n \<le> ca \<Longrightarrow>
   a \<noteq> b \<Longrightarrow> (\<forall>i<n. slot s (b, so + i) \<noteq> None \<and> \<not> move_throws ops (the (slot s (b, so + i)))) \<Longrightarrow>
   (\<forall>i<n. slot s (a, dof + i) = None) \<Longrightarrow>
   uninitialized_move_n ops (Some b, so) n (Some a, dof) s =
     Ok () (s\<lparr>slot := (\<lambda>q. if fst q = a \<and> dof \<le> snd q \<and> snd q < dof + n
                             then slot s (b, snd q - dof + so)
                           else if fst q = b \<and> so \<le> snd q \<and> snd q < so + n
                             then map_option (moved_from ops) (slot s q)
                           else slot s q)\<rparr>)"
proof (induction n arbitrary: so dof s)
  case 0
  then show ?case by (auto simp: fun_eq_iff intro!: slot_update_id')
next
  case (Suc n)
  from Suc.prems obtain x where x: "slot s (b, so) = Some x" "\<not> move_throws ops x"
    by (metis add.right_neutral not_None_eq zero_less_Suc option.sel)
  have raw: "slot s (a, dof) = None"
    using Suc.prems by (metis add.right_neutral zero_less_Suc)
  define s1 where "s1 = s\<lparr>slot := (slot s)((a, dof) := Some x, (b, so) := Some (moved_from ops x))\<rparr>"
  define r1 where "r1 = s1\<lparr>slot := (\<lambda>q. if fst q = a \<and> Suc dof \<le> snd q \<and> snd q < Suc dof + n
                             then slot s1 (b, snd q - Suc dof + Suc so)
                           else if fst q = b \<and> Suc so \<le> snd q \<and> snd q < Suc so + n
                             then map_option (moved_from ops) (slot s1 q)
                           else slot s1 q)\<rparr>"
  have c: "move_construct ops (Some a, dof) (Some b, so) s = Ok () s1"
    using Suc.prems x raw by (simp add: move_construct_def construct_at_def s1_def)
  have ih: "uninitialized_move_n ops (Some b, Suc so) n (Some a, Suc dof) s1 = Ok () r1"
    unfolding r1_def using Suc.prems by (intro Suc.IH) (auto simp: s1_def)
  have ar: "\<And>k. Suc dof \<le> k \<Longrightarrow> Suc (k + so - Suc dof) = k + so - dof"
    by arith
  have r1: "r1 = s\<lparr>slot := (\<lambda>q. if fst q = a \<and> dof \<le> snd q \<and> snd q < dof + Suc n
                             then slot s (b, snd q - dof + so)
                           else if fst q = b \<and> so \<le> snd q \<and> snd q < so + Suc n
                             then map_option (moved_from ops) (slot s q)
                           else slot s q)\<rparr>"
    unfolding r1_def s1_def using x \<open>a \<noteq> b\<close>
    by (auto simp: fun_eq_iff ar le_Suc_eq intro!: slot_update_eq)
  have "uninitialized_move_n ops (Some b, so) (Suc n) (Some a, dof) s = Ok () r1"
    by (simp add: c ih)
  then show ?case
    by (simp only: r1)
qed

lemma copy_n_assign_ok:
  "region_size s b = Some cb \<Longrightarrow> so + n \<le> cb \<Longrightarrow> region_size s a = Some ca \<Longrightarrow> dof + n \<le> ca \<Longrightarrow>
   a \<noteq> b \<Longrightarrow> (\<forall>i<n. slot s (b, so + i) \<noteq> None \<and> \<not> copy_throws ops (the (slot s (b, so + i)))) \<Longrightarrow>
   (\<forall>i<n. slot s (a, dof + i) \<noteq> None) \<Longrightarrow>
   copy_n_assign ops (Some b, so) n (Some a, dof) s =
     Ok () (s\<lparr>slot := (\<lambda>q. if fst q = a \<and> dof \<le> snd q \<and> snd q < dof + n
                             then slot s (b, snd q - dof + so) else slot s q)\<rparr>)"
proof (induction n arbitrary: so dof s)
  case 0
  then show ?case by (auto simp: fun_eq_iff intro!: slot_update_id')
next
  case (Suc n)
  from Suc.prems obtain x where x: "slot s (b, so) = Some x" "\<not> copy_throws ops x"
    by (metis add.right_neutral not_None_eq zero_less_Suc option.sel)
  have live: "slot s (a, dof) \<noteq> None"
    using Suc.prems by (metis add.right_neutral zero_less_Suc)
  define s1 where "s1 = s\<lparr>slot := (slot s)((a, dof) := Some x)\<rparr>"
  define r1 where "r1 = s1\<lparr>slot := (\<lambda>q. if fst q = a \<and> Suc dof \<le> snd q \<and> snd q < Suc dof + n
                             then slot s1 (b, snd q - Suc dof + Suc so) else slot s1 q)\<rparr>"
  have c: "copy_assign ops (Some a, dof) (Some b, so) s = Ok () s1"
    using Suc.prems x live by (simp add: copy_assign_def s1_def)
  have ih: "copy_n_assign ops (Some b, Suc so) n (Some a, Suc dof) s1 = Ok () r1"
    unfolding r1_def using Suc.prems by (intro Suc.IH) (auto simp: s1_def)
  have ar: "\<And>k. Suc dof \<le> k \<Longrightarrow> Suc (k + so - Suc dof) = k + so - dof"
    by arith
  have r1: "r1 = s\<lparr>slot := (\<lambda>q. if fst q = a \<and> dof \<le> snd q \<and> snd q < dof + Suc n
                             then slot s (b, snd q - dof + so) else slot s q)\<rparr>"
    unfolding r1_def s1_def using x \<open>a \<noteq> b\<close>
    by (auto simp: fun_eq_iff ar le_Suc_eq intro!: slot_update_eq)
  have "copy_n_assign ops (Some b, so) (Suc n) (Some a, dof) s = Ok () r1"
    by (simp add: c ih)
  then show ?case
    by (simp only: r1)
qed

lemma uninitialized_copy_n_result:
  "region_size s b = Some cb \<Longrightarrow> so + n \<le> cb \<Longrightarrow> region_size s a = Some ca \<Longrightarrow> dof + n \<le> ca \<Longrightarrow>
   a \<noteq> b \<Longrightarrow> (\<forall>i<n. slot s (b, so + i) \<noteq> None) \<Longrightarrow> (\<forall>i<n. slot s (a, dof + i) = None) \<Longrightarrow>
   uninitialized_copy_n ops (Some b, so) n (Some a, dof) s =
     (if \<exists>i<n. copy_throws ops (the (slot s (b, so + i))) then Throw ElemError s
      else Ok () (s\<lparr>slot := (\<lambda>q. if fst q = a \<and> dof \<le> snd q \<and> snd q < dof + n
                                   then slot s (b, snd q - dof + so) else slot s q)\<rparr>))"
proof (induction n arbitrary: so dof s)
  case 0
  then show ?case by (auto simp: fun_eq_iff intro!: slot_update_id')
next
  case (Suc n)
  from Suc.prems obtain x where x: "slot s (b, so) = Some x"
    by (metis add.right_neutral not_None_eq zero_less_Suc)
  have raw: "slot s (a, dof) = None"
    using Suc.prems by (metis add.right_neutral zero_less_Suc)
  show ?case
  proof (cases "copy_throws ops x")
    case True
    then have "\<exists>i<Suc n. copy_throws ops (the (slot s (b, so + i)))"
      using x by (intro exI[of _ 0]) simp
    moreover have "uninitialized_copy_n ops (Some b, so) (Suc n) (Some a, dof) s = Throw ElemError s"
      using Suc.prems x True by (simp add: copy_construct_def)
    ultimately show ?thesis by simp
  next
    case False
    define s1 where "s1 = s\<lparr>slot := (slot s)((a, dof) := Some x)\<rparr>"
    define T where "T = (\<exists>i<n. copy_throws ops (the (slot s1 (b, Suc so + i))))"
    define r1 where "r1 = s1\<lparr>slot := (\<lambda>q. if fst q = a \<and> Suc dof \<le> snd q \<and> snd q < Suc dof + n
                                   then slot s1 (b, snd q - Suc dof + Suc so) else slot s1 q)\<rparr>"
    have c: "copy_construct ops (Some a, dof) (Some b, so) s = Ok () s1"
      using Suc.prems x False raw by (simp add: copy_construct_def construct_at_def s1_def)
    have ih: "uninitialized_copy_n ops (Some b, Suc so) n (Some a, Suc dof) s1 =
       (if T then Throw ElemError s1 else Ok () r1)"
      unfolding T_def r1_def using Suc.prems by (intro Suc.IH) (auto simp: s1_def)
    have ex: "(\<exists>i<Suc n. copy_throws ops (the (slot s (b, so + i)))) = T"
      unfolding T_def using x False \<open>a \<noteq> b\<close> by (auto simp: less_Suc_eq_0_disj s1_def)
    have undo: "destroy_at (Some a, dof) s1 = Ok () s"
      using raw Suc.prems by (auto simp: destroy_at_def s1_def fun_eq_iff intro!: slot_update_id)
    have ar: "\<And>k. Suc dof \<le> k \<Longrightarrow> Suc (k + so - Suc dof) = k + so - dof"
      by arith
    have r1: "r1 = s\<lparr>slot := (\<lambda>q. if fst q = a \<and> dof \<le> snd q \<and> snd q < dof + Suc n
                                   then slot s (b, snd q - dof + so) else slot s q)\<rparr>"
      unfolding r1_def s1_def using x \<open>a \<noteq> b\<close>
      by (auto simp: fun_eq_iff ar le_Suc_eq intro!: slot_update_eq)
    have "uninitialized_copy_n ops (Some b, so) (Suc n) (Some a, dof) s =
       (if T then Throw ElemError s else Ok () r1)"
      by (simp add: c ih undo)
    then show ?thesis
      by (simp only: ex r1)
  qed
qed

section \<open>The invariant and the elements\<close>

lemma only_slots_fields:
  "only_slots s s' \<Longrightarrow>
   vectors s' = vectors s \<and> region_size s' = region_size s \<and> next_addr s' = next_addr s \<and>
   mem_limit s' = mem_limit s \<and> leaked s' = leaked s \<and> elem_size s' = elem_size s"
  by (cases s, cases s', simp add: only_slots_def)


lemma only_slots_update [simp]: "only_slots s (s\<lparr>slot := f\<rparr>)"
  by (simp add: only_slots_def)

lemma vector_inv_Some:
  "m_buffer (m_data (vectors s this)) = Some a \<Longrightarrow>
   vector_inv s this =
     (fits_size_t s (m_capacity (m_data (vectors s this))) \<and>
      region_size s a = Some (m_capacity (m_data (vectors s this))) \<and>
      m_size (vectors s this) \<le> m_capacity (m_data (vectors s this)) \<and>
      (\<forall>i<m_size (vectors s this). slot s (a, i) \<noteq> None) \<and>
      (\<forall>i. m_size (vectors s this) \<le> i \<and> i < m_capacity (m_data (vectors s this)) \<longrightarrow>
           slot s (a, i) = None))"
  by (auto simp: vector_inv_def list_all_iff)

lemma vector_inv_None:
  "m_buffer (m_data (vectors s this)) = None \<Longrightarrow>
   vector_inv s this =
     (fits_size_t s (m_capacity (m_data (vectors s this))) \<and>
      m_capacity (m_data (vectors s this)) = 0 \<and> m_size (vectors s this) = 0)"
  by (simp add: vector_inv_def)

lemma elems_Some:
  "m_buffer (m_data (vectors s this)) = Some a \<Longrightarrow> region_size s a = Some c \<Longrightarrow>
   m_size (vectors s this) \<le> c \<Longrightarrow>
   elems s this = map (\<lambda>i. the (slot s (a, i))) [0..<m_size (vectors s this)]"
  by (simp add: elems_def Vector_begin_def GetAddress_def)

lemma elems_empty: "m_size (vectors s this) = 0 \<Longrightarrow> elems s this = []"
  by (simp add: elems_def)


lemma example_state_facts:
  "vector_inv example_state 0" "vector_inv example_state 1"
  "region_size example_state (next_addr example_state) = None"
  "elems example_state 0 = [8, 9]" "elems example_state 1 = [5]"
  "Capacity example_state 0 = 2" "Capacity example_state 1 = 3"
  "Size example_state 0 = 2" "Size example_state 1 = 1"
  "mem_limit example_state = 100" "elem_size example_state = 4"
  "vector_inv example_state (Suc 0)" "elems example_state (Suc 0) = [5]"
  "Capacity example_state (Suc 0) = 3" "Size example_state (Suc 0) = 1"
  by (simp_all add: example_state_def vector_inv_def elems_def Capacity_def Size_def
      Vector_begin_def GetAddress_def fits_size_t_def lt_size_t_range numeral_eq_Suc)

lemma Vector_Swap_result:
  "Vector_Swap this other s =
     set_vector other (vectors s this) (set_vector this (vectors s other) s)"
  by (cases "vectors s this"; cases "vectors s other"; cases "m_data (vectors s this)";
      cases "m_data (vectors s other)")
     (auto simp: Vector_Swap_def set_vector_def RawMemory_Swap_def Let_def fun_eq_iff)

lemma elems_cong:
  assumes "vectors s' this = vectors s other" "region_size s' = region_size s" "slot s' = slot s"
  shows "elems s' this = elems s other"
  by (simp only: elems_def load_def in_storage_def Vector_begin_def assms)

section \<open>\<open>RawMemory\<close>: moves\<close>

text \<open>
  The move constructor does what the specification says: the new object holds the source's
  region and capacity, the source is left with no region and capacity 0.
\<close>

lemma RawMemory_move_ctor_transfers:
  "RawMemory_move_ctor other = (other, \<lparr>m_buffer = None, m_capacity = 0\<rparr>)"
  by (simp add: RawMemory_move_ctor_def RawMemory_Swap_def)

text \<open>
  Claim C1. Move construction and move assignment of \<open>RawMemory\<close> should transfer region
  and capacity and leave the source at capacity 0 with a null region, so that destroying
  both objects never releases a region twice. Move assignment does not: it releases the
  destination's region, sets the destination's capacity to 0, and then swaps, so the source
  receives the pointer to the region just released (\<^verbatim>\<open>buffer_\<close> is not reset to
  \<^verbatim>\<open>nullptr\<close>, as the move constructor does). Here \<open>a\<close> and \<open>b\<close> are two buffers of
  capacity 1 (regions 0 and 1); after \<^verbatim>\<open>a = std::move(b)\<close> the source \<open>b\<close> has capacity 0
  but still points to region 0, which is no longer live, and destroying \<open>a\<close> and then \<open>b\<close>
  releases region 0 a second time.
\<close>

theorem RawMemory_move_assign_releases_twice:
  "(case RawMemory_ctor 1 (init_state 10 :: nat state) of
      Ok a s1 \<Rightarrow>
        (case RawMemory_ctor 1 s1 of
           Ok b s2 \<Rightarrow>
             m_buffer a = Some 0 \<and> m_buffer b = Some 1 \<and>
             (case RawMemory_move_assign False a b s2 of
                Ok (a', b') s3 \<Rightarrow>
                  m_buffer a' = Some 1 \<and> m_capacity a' = 1 \<and>
                  m_buffer b' = Some 0 \<and> m_capacity b' = 0 \<and> region_size s3 0 = None \<and>
                  (case RawMemory_dtor a' s3 of
                     Ok _ s4 \<Rightarrow> RawMemory_dtor b' s4 = Fault
                   | _ \<Rightarrow> False)
              | _ \<Rightarrow> False)
         | _ \<Rightarrow> False)
    | _ \<Rightarrow> False)"
  by (simp add: RawMemory_ctor_def Allocate_no_wrap fits_size_t_def lt_size_t_range
      init_state_def obind_def RawMemory_move_assign_def Deallocate_def RawMemory_Swap_def
      RawMemory_dtor_def)

section \<open>\<open>Emplace\<close> with a free slot\<close>

text \<open>
  Claim C2. On a vector with \<open>size < capacity\<close>, insert/emplace at \<open>pos\<close> should put the
  new value at index \<open>pos\<close>, keep the values and the order of all elements that were there
  (the last one included) and add 1 to the size. The branch for a free slot
  move-constructs the last element into the slot at \<open>size\<close> and then calls
  \<^verbatim>\<open>std::move_backward(begin() + pos_num, end(), end() + 1)\<close>, whose first step
  move-assigns the last element, by now moved from, onto that slot. For an element type
  whose move changes its source the value of the last element is lost. Here the vector
  holds the strings a, b, c in a buffer of capacity 4; inserting x at the front gives
  x, a, b and the empty string.
\<close>

theorem Insert_free_slot_loses_last:
  "(case obind (PushBack string_ops 0 ''a'' (init_state 100))
           (\<lambda>_ s1. obind (PushBack string_ops 0 ''b'' s1)
           (\<lambda>_ s2. PushBack string_ops 0 ''c'' s2)) of
      Ok _ s3 \<Rightarrow>
        elems s3 0 = [''a'', ''b'', ''c''] \<and> Size s3 0 = 3 \<and> Capacity s3 0 = 4 \<and>
        (case Insert string_ops 0 (Vector_begin s3 0) ''x'' s3 of
           Ok p s \<Rightarrow>
             p = Vector_begin s 0 \<and> Size s 0 = 4 \<and> Capacity s 0 = 4 \<and>
             elems s 0 = [''x'', ''a'', ''b'', []]
         | _ \<Rightarrow> False)
    | _ \<Rightarrow> False)"
  by (simp add: run_defs string_ops_def)

text \<open>
  Claim C4. Insert at \<open>pos\<close> followed by erase at \<open>pos\<close> should restore the original
  sequence. With a free slot the insertion has already lost the last element (the defect of
  claim C2), and the erasure cannot bring it back: from a, b, c in a buffer of capacity 4,
  inserting x at the front and erasing the front leaves a, b and the empty string.
\<close>

theorem Insert_then_Erase_loses_last:
  "(case obind (PushBack string_ops 0 ''a'' (init_state 100))
           (\<lambda>_ s1. obind (PushBack string_ops 0 ''b'' s1)
           (\<lambda>_ s2. PushBack string_ops 0 ''c'' s2)) of
      Ok _ s3 \<Rightarrow>
        elems s3 0 = [''a'', ''b'', ''c''] \<and> Size s3 0 = 3 \<and> Capacity s3 0 = 4 \<and>
        (case obind (Insert string_ops 0 (Vector_begin s3 0) ''x'' s3)
                (\<lambda>_ s4. Erase string_ops 0 (Vector_begin s4 0) s4) of
           Ok p s \<Rightarrow> Size s 0 = 3 \<and> elems s 0 = [''a'', ''b'', []]
         | _ \<Rightarrow> False)
    | _ \<Rightarrow> False)"
  by (simp add: run_defs string_ops_def)

text \<open>
  Claim C9. Emplace on a full vector allocates a buffer of capacity \<open>max(1, 2 \<times> size)\<close>, and
  \<open>N\<close> calls of push_back on an empty vector should give size \<open>N\<close> with the elements in
  insertion order. The capacities are as claimed (1, 2, 4), but the fourth push_back finds
  a free slot, and that branch of \<^verbatim>\<open>Emplace\<close> move-constructs the last element into the
  slot at \<open>size\<close>, destroys that copy again and constructs the new element there, leaving
  the old last element moved from (the defect of claim C2, at \<open>pos = size\<close>). Pushing the
  strings a, b, c, d gives a, b, the empty string, d.
\<close>

theorem PushBack_four_strings:
  "(case obind (PushBack string_ops 0 ''a'' (init_state 100))
           (\<lambda>_ s1. obind (PushBack string_ops 0 ''b'' s1)
           (\<lambda>_ s2. PushBack string_ops 0 ''c'' s2)) of
      Ok _ s3 \<Rightarrow>
        elems s3 0 = [''a'', ''b'', ''c''] \<and> Size s3 0 = 3 \<and> Capacity s3 0 = 4 \<and>
        (case PushBack string_ops 0 ''d'' s3 of
           Ok _ s \<Rightarrow> Size s 0 = 4 \<and> Capacity s 0 = 4 \<and> elems s 0 = [''a'', ''b'', [], ''d'']
         | _ \<Rightarrow> False)
    | _ \<Rightarrow> False)"
  by (simp add: run_defs string_ops_def)

section \<open>\<open>Emplace\<close> and exceptions\<close>

text \<open>
  Claim C3. When emplace on a full buffer relocates by copying and a copy fails, every slot
  already constructed in the new buffer should be destroyed, the old buffer should stay
  untouched and the error should propagate. \<^verbatim>\<open>ReAllocate\<close> copies in two calls of
  \<^verbatim>\<open>uninitialized_copy_n\<close>, and its handler destroys the new element only: when the
  second call throws, the elements the first call has copied stay constructed in the new
  buffer, which is then released. Here the vector holds a and bad in a buffer of capacity
  2, the copy of bad throws, and x is inserted at index 1: the error propagates and the old
  buffer is untouched, but the copy of a in the new buffer is never destroyed.
\<close>

theorem Emplace_full_copy_failure_leaks:
  "(case obind (EmplaceBack picky_ops 0 (Some ''a'') (init_state 100))
           (\<lambda>_ s1. EmplaceBack picky_ops 0 (Some ''bad'') s1) of
      Ok _ s2 \<Rightarrow>
        elems s2 0 = [''a'', ''bad''] \<and> Size s2 0 = 2 \<and> Capacity s2 0 = 2 \<and> leaked s2 = 0 \<and>
        (case Insert picky_ops 0 (ptr_add (Vector_begin s2 0) 1) ''x'' s2 of
           Throw e s \<Rightarrow>
             e = ElemError \<and> leaked s = 1 \<and> vectors s = vectors s2 \<and>
             region_size s = region_size s2 \<and> elems s 0 = [''a'', ''bad''] \<and> vector_inv s 0
         | _ \<Rightarrow> False)
    | _ \<Rightarrow> False)"
  by (simp add: run_defs picky_ops_def)

text \<open>
  Claim C8. After every public operation the invariant should hold: \<open>size \<le> capacity\<close>,
  every index below \<open>size\<close> holds a live element, every index from \<open>size\<close> to \<open>capacity\<close>
  is raw memory. In the branch of \<^verbatim>\<open>Emplace\<close> for a free slot the constructor of the new
  element runs after \<^verbatim>\<open>destroy_at(begin() + pos_num)\<close> and outside every handler: when it
  throws, the slot at \<open>pos\<close> stays destroyed, the element moved to the slot at \<open>size\<close> stays
  constructed, and \<open>size\<close> is unchanged. Here the vector holds a and b in a buffer of
  capacity 4, and the value bad, whose copy throws, is inserted at the front: afterwards
  index 0 holds no element although the size is 2, index 2 holds one, and destroying the
  vector destroys the dead slot.
\<close>

theorem Emplace_throwing_ctor_breaks_invariant:
  "(case obind (EmplaceBack picky_ops 0 (Some ''a'') (init_state 100))
           (\<lambda>_ s1. obind (EmplaceBack picky_ops 0 (Some ''b'') s1)
           (\<lambda>_ s2. Reserve picky_ops 0 4 s2)) of
      Ok _ s3 \<Rightarrow>
        vector_inv s3 0 \<and> elems s3 0 = [''a'', ''b''] \<and> Size s3 0 = 2 \<and> Capacity s3 0 = 4 \<and>
        (case Insert picky_ops 0 (Vector_begin s3 0) ''bad'' s3 of
           Throw e s \<Rightarrow>
             e = ElemError \<and> \<not> vector_inv s 0 \<and> Size s 0 = 2 \<and> Capacity s 0 = 4 \<and>
             load s (Vector_begin s 0) = None \<and>
             load s (ptr_add (Vector_begin s 0) 2) = Some ''b'' \<and>
             Vector_dtor 0 s = Fault
         | _ \<Rightarrow> False)
    | _ \<Rightarrow> False)"
  by (simp add: run_defs picky_ops_def)

section \<open>\<open>Reserve\<close>\<close>


lemma vector_inv_fits:
  "vector_inv s this \<Longrightarrow> 0 < elem_size s"
  "vector_inv s this \<Longrightarrow> fits_size_t s (Capacity s this)"
  by (simp_all add: vector_inv_def fits_size_t_def Capacity_def)





section \<open>Moving a \<open>Vector\<close>\<close>

text \<open>
  Claim C5 says that every move of a vector, move construction and move assignment, leaves
  the source at size 0 and capacity 0. Move assignment is a swap, so the source receives
  what the destination held: assigning vector 1 (one element) to vector 0 (two elements,
  capacity 2) leaves the source with size 2, capacity 2 and the elements 8, 9.
\<close>

theorem Vector_move_assign_source_not_empty:
  "Size example_state 0 = 2 \<and> Size example_state 1 = 1 \<and>
   Size (Vector_move_assign 0 1 example_state) 1 = 2 \<and>
   Capacity (Vector_move_assign 0 1 example_state) 1 = 2 \<and>
   elems (Vector_move_assign 0 1 example_state) 1 = [8, 9]"
  by (simp add: run_defs example_state_def)

text \<open>
  Claim C5 as amended. Move construction leaves the source at size 0 and capacity 0 (with no
  region) and the new vector with exactly the source's prior size, capacity and element
  values. Move assignment between two distinct vectors leaves the destination with exactly
  the source's prior size, capacity and element values, and leaves the source with the
  destination's prior size, capacity and element values.
\<close>

theorem Vector_move_spec:
  assumes "this \<noteq> other"
  shows "Size (Vector_move_ctor this other s) this = Size s other \<and>
         Capacity (Vector_move_ctor this other s) this = Capacity s other \<and>
         elems (Vector_move_ctor this other s) this = elems s other \<and>
         Size (Vector_move_ctor this other s) other = 0 \<and>
         Capacity (Vector_move_ctor this other s) other = 0 \<and>
         m_buffer (m_data (vectors (Vector_move_ctor this other s) other)) = None \<and>
         Size (Vector_move_assign this other s) this = Size s other \<and>
         Capacity (Vector_move_assign this other s) this = Capacity s other \<and>
         elems (Vector_move_assign this other s) this = elems s other \<and>
         Size (Vector_move_assign this other s) other = Size s this \<and>
         Capacity (Vector_move_assign this other s) other = Capacity s this \<and>
         elems (Vector_move_assign this other s) other = elems s this"
proof -
  have c: "Vector_move_ctor this other s =
      s\<lparr>vectors := (vectors s)(this := vectors s other,
                               other := \<lparr>m_data = RawMemory_default, m_size = 0\<rparr>)\<rparr>"
    using assms
    by (simp add: Vector_move_ctor_def Vector_Swap_result Vector_default_ctor_def set_vector_def)
  have a: "Vector_move_assign this other s =
      s\<lparr>vectors := (vectors s)(this := vectors s other, other := vectors s this)\<rparr>"
    using assms by (simp add: Vector_move_assign_def Vector_Swap_result set_vector_def)
  have "elems (Vector_move_ctor this other s) this = elems s other"
    using assms by (intro elems_cong) (simp_all add: c)
  moreover have "elems (Vector_move_assign this other s) this = elems s other"
    using assms by (intro elems_cong) (simp_all add: a)
  moreover have "elems (Vector_move_assign this other s) other = elems s this"
    using assms by (intro elems_cong) (simp_all add: a)
  moreover have "Size (Vector_move_ctor this other s) this = Size s other"
    "Capacity (Vector_move_ctor this other s) this = Capacity s other"
    "Size (Vector_move_ctor this other s) other = 0"
    "Capacity (Vector_move_ctor this other s) other = 0"
    "m_buffer (m_data (vectors (Vector_move_ctor this other s) other)) = None"
    using assms by (simp_all add: c Size_def Capacity_def RawMemory_default_def)
  moreover have "Size (Vector_move_assign this other s) this = Size s other"
    "Capacity (Vector_move_assign this other s) this = Capacity s other"
    "Size (Vector_move_assign this other s) other = Size s this"
    "Capacity (Vector_move_assign this other s) other = Capacity s this"
    using assms by (simp_all add: a Size_def Capacity_def)
  ultimately show ?thesis by simp
qed

theorem Vector_move_spec_witness:
  "(0::nat) \<noteq> 1 \<and>
   Size (Vector_move_ctor 0 1 example_state) 0 = 1 \<and>
   Capacity (Vector_move_ctor 0 1 example_state) 0 = 3 \<and>
   elems (Vector_move_ctor 0 1 example_state) 0 = [5] \<and>
   Size (Vector_move_ctor 0 1 example_state) 1 = 0 \<and>
   Capacity (Vector_move_ctor 0 1 example_state) 1 = 0 \<and>
   Size (Vector_move_assign 0 1 example_state) 0 = 1 \<and>
   Capacity (Vector_move_assign 0 1 example_state) 0 = 3 \<and>
   elems (Vector_move_assign 0 1 example_state) 0 = [5] \<and>
   Size (Vector_move_assign 0 1 example_state) 1 = 2 \<and>
   Capacity (Vector_move_assign 0 1 example_state) 1 = 2 \<and>
   elems (Vector_move_assign 0 1 example_state) 1 = [8, 9]"
  using Vector_move_spec[of 0 1 example_state]
  by (simp add: example_state_facts)

section \<open>\<open>Erase\<close> and \<open>PopBack\<close>\<close>

lemma only_slots_refl [simp]: "only_slots s s"
  by (simp add: only_slots_def)

lemma only_slots_trans:
  assumes "only_slots s s1" and "only_slots s1 s2"
  shows "only_slots s s2"
proof -
  have a: "s1 = s\<lparr>slot := slot s1\<rparr>" and b: "s2 = s1\<lparr>slot := slot s2\<rparr>"
    using assms by (simp_all add: only_slots_def)
  have "s1\<lparr>slot := slot s2\<rparr> = (s\<lparr>slot := slot s1\<rparr>)\<lparr>slot := slot s2\<rparr>"
    using a by (rule arg_cong)
  also have "\<dots> = s\<lparr>slot := slot s2\<rparr>"
    by simp
  finally show ?thesis
    using b by (simp add: only_slots_def)
qed

lemma move_n_assign_frame:
  assumes "region_size s a = Some c" "m \<le> c" "so + n \<le> m" "dof + n \<le> m"
    and "\<forall>i<m. slot s (a, i) \<noteq> None"
  shows "\<exists>s'. (move_n_assign ops (Some a, so) n (Some a, dof) s = Ok () s' \<or>
               move_n_assign ops (Some a, so) n (Some a, dof) s = Throw ElemError s') \<and>
              only_slots s s' \<and> (\<forall>q. (slot s' q = None) = (slot s q = None))"
  using assms
proof (induction n arbitrary: so dof s)
  case 0
  then show ?case by (intro exI[of _ s]) simp
next
  case (Suc n)
  have "so < m" "dof < m" using Suc.prems by auto
  then have "slot s (a, so) \<noteq> None" "slot s (a, dof) \<noteq> None"
    using Suc.prems by blast+
  then obtain x y where x: "slot s (a, so) = Some x" and y: "slot s (a, dof) = Some y"
    by auto
  have so: "so < c" "dof < c" using Suc.prems by auto
  show ?case
  proof (cases "move_throws ops x")
    case True
    then have "move_n_assign ops (Some a, so) (Suc n) (Some a, dof) s = Throw ElemError s"
      using Suc.prems x y so by (simp add: move_assign_def)
    then show ?thesis by (intro exI[of _ s]) simp
  next
    case False
    define s1 where "s1 = s\<lparr>slot := (slot s)((a, dof) := Some x, (a, so) := Some (moved_from ops x))\<rparr>"
    have st: "move_assign ops (Some a, dof) (Some a, so) s = Ok () s1"
      using Suc.prems x y so False by (simp add: move_assign_def s1_def)
    have os: "only_slots s s1" by (simp add: s1_def)
    have lv: "\<forall>q. (slot s1 q = None) = (slot s q = None)"
      using x y by (auto simp: s1_def)
    have "\<exists>s'. (move_n_assign ops (Some a, Suc so) n (Some a, Suc dof) s1 = Ok () s' \<or>
               move_n_assign ops (Some a, Suc so) n (Some a, Suc dof) s1 = Throw ElemError s') \<and>
              only_slots s1 s' \<and> (\<forall>q. (slot s' q = None) = (slot s1 q = None))"
      using Suc.prems lv by (intro Suc.IH) (auto simp: s1_def)
    then obtain s' where
      r: "move_n_assign ops (Some a, Suc so) n (Some a, Suc dof) s1 = Ok () s' \<or>
          move_n_assign ops (Some a, Suc so) n (Some a, Suc dof) s1 = Throw ElemError s'"
      and os': "only_slots s1 s'" and lv': "\<forall>q. (slot s' q = None) = (slot s1 q = None)"
      by blast
    have "move_n_assign ops (Some a, so) (Suc n) (Some a, dof) s = Ok () s' \<or>
          move_n_assign ops (Some a, so) (Suc n) (Some a, dof) s = Throw ElemError s'"
      using r by (auto simp: st)
    moreover have "only_slots s s'" using os os' by (rule only_slots_trans)
    moreover have "\<forall>q. (slot s' q = None) = (slot s q = None)" using lv lv' by simp
    ultimately show ?thesis by blast
  qed
qed

lemma PopBack_result:
  assumes inv: "vector_inv s this"
  shows "\<exists>s'. PopBack this s = Ok () s' \<and> m_data (vectors s' this) = m_data (vectors s this) \<and>
              region_size s' = region_size s \<and> next_addr s' = next_addr s \<and>
              Size s' this = Size s this - 1 \<and> vector_inv s' this"
proof (cases "m_size (vectors s this) = 0")
  case True
  then show ?thesis using inv by (intro exI[of _ s]) (simp add: PopBack_def Size_def)
next
  case False
  define N where "N = m_size (vectors s this)"
  have pos: "0 < N" using False by (simp add: N_def)
  obtain a where a: "m_buffer (m_data (vectors s this)) = Some a"
    using inv False by (cases "m_buffer (m_data (vectors s this))") (auto simp: vector_inv_None)
  have ia: "region_size s a = Some (m_capacity (m_data (vectors s this)))"
      "N \<le> m_capacity (m_data (vectors s this))" "\<forall>i<N. slot s (a, i) \<noteq> None"
      "\<forall>i. N \<le> i \<and> i < m_capacity (m_data (vectors s this)) \<longrightarrow> slot s (a, i) = None"
    using inv a by (simp_all add: vector_inv_Some[of s this a] N_def)
  define s' where "s' = (set_vector this ((vectors s this)\<lparr>m_size := N - 1\<rparr>) s)
                          \<lparr>slot := (slot s)((a, N - 1) := None)\<rparr>"
  have live: "slot s (a, N - 1) \<noteq> None" using ia pos by simp
  have "PopBack this s = Ok () s'"
    using pos a ia live
    by (auto simp: PopBack_def N_def[symmetric] set_vector_def GetAddress_def destroy_at_def s'_def Let_def)
  moreover have "vector_inv s' this"
    using inv a ia pos
    by (auto simp: vector_inv_def s'_def set_vector_def list_all_iff)
  ultimately show ?thesis
    by (intro exI[of _ s']) (simp add: s'_def set_vector_def Size_def N_def)
qed

lemma vector_inv_live_cong:
  assumes "vectors s' = vectors s" "region_size s' = region_size s"
    and "elem_size s' = elem_size s"
    and "\<forall>q. (slot s' q = None) = (slot s q = None)"
  shows "vector_inv s' this = vector_inv s this"
  by (simp add: vector_inv_def fits_size_t_def assms split: option.splits)

lemma Erase_result:
  assumes inv: "vector_inv s this" and pos: "pos_num < Size s this"
  shows "case Erase ops this (ptr_add (Vector_begin s this) pos_num) s of
           Ok p s' \<Rightarrow>
             m_data (vectors s' this) = m_data (vectors s this) \<and>
             region_size s' = region_size s \<and> next_addr s' = next_addr s \<and>
             Size s' this = Size s this - 1 \<and> p = ptr_add (Vector_begin s' this) pos_num \<and>
             vector_inv s' this
         | Throw e s' \<Rightarrow>
             m_data (vectors s' this) = m_data (vectors s this) \<and>
             region_size s' = region_size s \<and> next_addr s' = next_addr s \<and>
             Size s' this = Size s this \<and> vector_inv s' this
         | Fault \<Rightarrow> False"
proof -
  define N where "N = m_size (vectors s this)"
  have pN: "pos_num < N" using pos by (simp add: N_def Size_def)
  obtain a where a: "m_buffer (m_data (vectors s this)) = Some a"
    using inv pN by (cases "m_buffer (m_data (vectors s this))") (auto simp: vector_inv_None N_def)
  have ia: "region_size s a = Some (m_capacity (m_data (vectors s this)))"
      "N \<le> m_capacity (m_data (vectors s this))" "\<forall>i<N. slot s (a, i) \<noteq> None"
    using inv a by (simp_all add: vector_inv_Some[of s this a] N_def)
  have "\<exists>s1. (move_n_assign ops (Some a, Suc pos_num) (N - Suc pos_num) (Some a, pos_num) s = Ok () s1 \<or>
               move_n_assign ops (Some a, Suc pos_num) (N - Suc pos_num) (Some a, pos_num) s = Throw ElemError s1) \<and>
              only_slots s s1 \<and> (\<forall>q. (slot s1 q = None) = (slot s q = None))"
    using ia pN by (intro move_n_assign_frame[where m=N]) auto
  then obtain s1 where
    r: "move_n_assign ops (Some a, Suc pos_num) (N - Suc pos_num) (Some a, pos_num) s = Ok () s1 \<or>
        move_n_assign ops (Some a, Suc pos_num) (N - Suc pos_num) (Some a, pos_num) s = Throw ElemError s1"
    and os: "only_slots s s1" and lv: "\<forall>q. (slot s1 q = None) = (slot s q = None)"
    by blast
  note f1 = only_slots_fields[OF os]
  have inv1: "vector_inv s1 this"
    using inv f1 lv by (simp add: vector_inv_live_cong[of s1 s])
  have E: "Erase ops this (ptr_add (Vector_begin s this) pos_num) s =
        obind (move_n_assign ops (Some a, Suc pos_num) (N - Suc pos_num) (Some a, pos_num) s)
          (\<lambda>_ s1. obind (PopBack this s1)
                     (\<lambda>_ s2. Ok (ptr_add (Vector_begin s2 this) pos_num) s2))"
    using a pN
    by (simp add: Erase_def Vector_begin_def Vector_end_def GetAddress_def ptr_le_def ptr_less_def
        ptr_diff_def std_move_def N_def[symmetric] Let_def)
  from r show ?thesis
  proof
    assume ok: "move_n_assign ops (Some a, Suc pos_num) (N - Suc pos_num) (Some a, pos_num) s = Ok () s1"
    from PopBack_result[OF inv1] obtain s2 where
      p: "PopBack this s1 = Ok () s2" "m_data (vectors s2 this) = m_data (vectors s1 this)"
        "region_size s2 = region_size s1" "next_addr s2 = next_addr s1"
        "Size s2 this = Size s1 this - 1" "vector_inv s2 this"
      by blast
    have "Erase ops this (ptr_add (Vector_begin s this) pos_num) s =
            Ok (ptr_add (Vector_begin s2 this) pos_num) s2"
      by (simp add: E ok p(1))
    then show ?thesis
      using p f1 by (simp add: Size_def)
  next
    assume th: "move_n_assign ops (Some a, Suc pos_num) (N - Suc pos_num) (Some a, pos_num) s = Throw ElemError s1"
    have "Erase ops this (ptr_add (Vector_begin s this) pos_num) s = Throw ElemError s1"
      by (simp add: E th)
    then show ?thesis
      using f1 inv1 by (simp add: Size_def)
  qed
qed

lemma example_state_buffers:
  "m_buffer (m_data (vectors example_state 0)) = Some 0"
  "m_buffer (m_data (vectors example_state (Suc 0))) = Some 1"
  by (simp_all add: example_state_def)

text \<open>
  Claim C10. \<^verbatim>\<open>Erase(pos)\<close>, for a position \<open>0 \<le> pos < size\<close>, and \<^verbatim>\<open>PopBack\<close> never
  change the capacity and never reallocate: whether \<^verbatim>\<open>Erase\<close> returns or a move
  assignment throws, the vector has the same buffer and the same capacity as before, no
  region has been handed out or released, and the call does not run into undefined
  behaviour; when it returns the size is one less. \<^verbatim>\<open>PopBack\<close> always returns, with the
  same buffer and capacity, and the size one less (or still 0). The hypothesis: the vector
  satisfies the invariant.
\<close>

theorem Erase_PopBack_keep_capacity:
  assumes "vector_inv s this"
  shows "(pos_num < Size s this \<longrightarrow>
           (case Erase ops this (ptr_add (Vector_begin s this) pos_num) s of
              Ok p s' \<Rightarrow>
                Capacity s' this = Capacity s this \<and>
                m_buffer (m_data (vectors s' this)) = m_buffer (m_data (vectors s this)) \<and>
                region_size s' = region_size s \<and> next_addr s' = next_addr s \<and>
                Size s' this = Size s this - 1
            | Throw e s' \<Rightarrow>
                Capacity s' this = Capacity s this \<and>
                m_buffer (m_data (vectors s' this)) = m_buffer (m_data (vectors s this)) \<and>
                region_size s' = region_size s \<and> next_addr s' = next_addr s \<and>
                Size s' this = Size s this
            | Fault \<Rightarrow> False)) \<and>
         (\<exists>s'. PopBack this s = Ok () s' \<and>
               Capacity s' this = Capacity s this \<and>
               m_buffer (m_data (vectors s' this)) = m_buffer (m_data (vectors s this)) \<and>
               region_size s' = region_size s \<and> next_addr s' = next_addr s \<and>
               Size s' this = Size s this - 1)"
proof (intro conjI impI)
  assume "pos_num < Size s this"
  from Erase_result[OF assms this, of ops]
  show "case Erase ops this (ptr_add (Vector_begin s this) pos_num) s of
              Ok p s' \<Rightarrow>
                Capacity s' this = Capacity s this \<and>
                m_buffer (m_data (vectors s' this)) = m_buffer (m_data (vectors s this)) \<and>
                region_size s' = region_size s \<and> next_addr s' = next_addr s \<and>
                Size s' this = Size s this - 1
            | Throw e s' \<Rightarrow>
                Capacity s' this = Capacity s this \<and>
                m_buffer (m_data (vectors s' this)) = m_buffer (m_data (vectors s this)) \<and>
                region_size s' = region_size s \<and> next_addr s' = next_addr s \<and>
                Size s' this = Size s this
            | Fault \<Rightarrow> False"
    by (auto simp: Capacity_def split: outcome.splits)
next
  from PopBack_result[OF assms]
  show "\<exists>s'. PopBack this s = Ok () s' \<and>
               Capacity s' this = Capacity s this \<and>
               m_buffer (m_data (vectors s' this)) = m_buffer (m_data (vectors s this)) \<and>
               region_size s' = region_size s \<and> next_addr s' = next_addr s \<and>
               Size s' this = Size s this - 1"
    by (auto simp: Capacity_def)
qed

theorem Erase_PopBack_keep_capacity_witness:
  "vector_inv example_state 0 \<and> (1::nat) < Size example_state 0 \<and>
   (case Erase int_ops 0 (ptr_add (Vector_begin example_state 0) 1) example_state of
      Ok p s' \<Rightarrow>
        Capacity s' 0 = 2 \<and> m_buffer (m_data (vectors s' 0)) = Some 0 \<and>
        region_size s' = region_size example_state \<and> next_addr s' = next_addr example_state \<and>
        Size s' 0 = 1
    | Throw e s' \<Rightarrow>
        Capacity s' 0 = 2 \<and> m_buffer (m_data (vectors s' 0)) = Some 0 \<and>
        region_size s' = region_size example_state \<and> next_addr s' = next_addr example_state \<and>
        Size s' 0 = 2
    | Fault \<Rightarrow> False) \<and>
   (\<exists>s'. PopBack 0 example_state = Ok () s' \<and> Capacity s' 0 = 2 \<and>
         m_buffer (m_data (vectors s' 0)) = Some 0 \<and>
         region_size s' = region_size example_state \<and> next_addr s' = next_addr example_state \<and>
         Size s' 0 = 1)"
  using Erase_PopBack_keep_capacity[of example_state 0 1 int_ops]
  by (simp add: example_state_facts example_state_buffers cong: outcome.case_cong)

section \<open>Copy construction and copy assignment\<close>

lemma Vector_copy_ctor_result:
  assumes inv: "vector_inv s other" and fresh: "region_size s (next_addr s) = None"
    and ne: "this \<noteq> other" and M: "0 < Size s other"
    and b: "m_buffer (m_data (vectors s other)) = Some b"
  shows "Vector_copy_ctor ops this other s =
     (if mem_limit s < Size s other then Throw BadAlloc s
      else if \<exists>x\<in>set (elems s other). copy_throws ops x then
        Throw ElemError
          (s\<lparr>vectors := (vectors s)
                 (this := \<lparr>m_data = \<lparr>m_buffer = Some (next_addr s), m_capacity = Size s other\<rparr>,
                           m_size = Size s other\<rparr>),
             slot := (\<lambda>q. if fst q = next_addr s then None else slot s q),
             next_addr := Suc (next_addr s)\<rparr>)
      else
        Ok ()
          (s\<lparr>vectors := (vectors s)
                 (this := \<lparr>m_data = \<lparr>m_buffer = Some (next_addr s), m_capacity = Size s other\<rparr>,
                           m_size = Size s other\<rparr>),
             region_size := (region_size s)(next_addr s := Some (Size s other)),
             slot := (\<lambda>q. if fst q = next_addr s
                           then (if snd q < Size s other then slot s (b, snd q) else None)
                           else slot s q),
             next_addr := Suc (next_addr s)\<rparr>))"
proof -
  have "fits_size_t s (m_capacity (m_data (vectors s other)))"
    "m_size (vectors s other) \<le> m_capacity (m_data (vectors s other))"
    using inv b by (simp_all add: vector_inv_Some[of s other b])
  then have fitN: "fits_size_t s (m_size (vectors s other))"
    by (rule fits_size_t_mono)
  show ?thesis
proof (cases "mem_limit s < Size s other")
  case True
  then show ?thesis
    using M fitN by (simp add: Vector_copy_ctor_def RawMemory_ctor_def Allocate_no_wrap Size_def)
next
  case False
  define N where "N = m_size (vectors s other)"
  define a' where "a' = next_addr s"
  define nd where "nd = \<lparr>m_buffer = Some a', m_capacity = N\<rparr>"
  define s1 where "s1 = s\<lparr>region_size := (region_size s)(a' := Some N),
                          slot := (\<lambda>q. if fst q = a' then None else slot s q),
                          next_addr := Suc a'\<rparr>"
  define s2 where "s2 = set_vector this \<lparr>m_data = nd, m_size = N\<rparr> s1"
  have N0: "N \<noteq> 0" "N \<le> mem_limit s" using M False by (simp_all add: N_def Size_def)
  have ctor: "RawMemory_ctor N s = Ok nd s1"
    using N0 fitN by (simp add: RawMemory_ctor_def Allocate_no_wrap nd_def s1_def a'_def N_def)
  have ib: "region_size s b = Some (m_capacity (m_data (vectors s other)))"
      "N \<le> m_capacity (m_data (vectors s other))" "\<forall>i<N. slot s (b, i) \<noteq> None"
    using inv b by (simp_all add: vector_inv_Some[of s other b] N_def)
  have ba: "b \<noteq> a'" using ib(1) fresh by (auto simp: a'_def)
  have el: "elems s other = map (\<lambda>i. the (slot s (b, i))) [0..<N]"
    using b ib by (simp add: elems_Some[of s other b] N_def)
  have ex: "(\<exists>x\<in>set (elems s other). copy_throws ops x) =
            (\<exists>i<N. copy_throws ops (the (slot s2 (b, 0 + i))))"
    using ba by (auto simp: el s2_def set_vector_def s1_def)
  define s3 where "s3 = s2\<lparr>slot := (\<lambda>q. if fst q = a' \<and> 0 \<le> snd q \<and> snd q < 0 + N
                                   then slot s2 (b, snd q - 0 + 0) else slot s2 q)\<rparr>"
  have cp: "uninitialized_copy_n ops (Some b, 0) N (Some a', 0) s2 =
     (if \<exists>i<N. copy_throws ops (the (slot s2 (b, 0 + i))) then Throw ElemError s2
      else Ok () s3)"
    unfolding s3_def using ib ba
    by (intro uninitialized_copy_n_result[where cb="m_capacity (m_data (vectors s other))" and ca=N])
       (auto simp: s2_def set_vector_def s1_def)
  have run: "Vector_copy_ctor ops this other s =
      try_catch (uninitialized_copy_n ops (Some b, 0) N (Some a', 0) s2)
        (\<lambda>e s3. obind (RawMemory_dtor (m_data (vectors s3 this)) s3) (\<lambda>_ s4. Throw e s4))"
    using ne b
    by (simp add: Vector_copy_ctor_def N_def[symmetric] ctor Let_def s2_def[symmetric])
       (simp add: s2_def set_vector_def s1_def GetAddress_def nd_def N_def)
  show ?thesis
  proof (cases "\<exists>x\<in>set (elems s other). copy_throws ops x")
    case True
    define sT where "sT = s2\<lparr>region_size := (region_size s2)(a' := None)\<rparr>"
    have "filter (\<lambda>i. slot s2 (a', i) \<noteq> None) [0..<N] = []"
      by (auto simp: filter_empty_conv s2_def set_vector_def s1_def)
    then have "RawMemory_dtor (m_data (vectors s2 this)) s2 = Ok () sT"
      by (simp add: RawMemory_dtor_def Deallocate_def s2_def set_vector_def nd_def s1_def sT_def)
    moreover have "uninitialized_copy_n ops (Some b, 0) N (Some a', 0) s2 = Throw ElemError s2"
      using cp ex True by simp
    ultimately have "Vector_copy_ctor ops this other s = Throw ElemError sT"
      by (simp add: run)
    moreover have "sT = s\<lparr>vectors := (vectors s)
                 (this := \<lparr>m_data = \<lparr>m_buffer = Some (next_addr s), m_capacity = Size s other\<rparr>,
                           m_size = Size s other\<rparr>),
             slot := (\<lambda>q. if fst q = next_addr s then None else slot s q),
             next_addr := Suc (next_addr s)\<rparr>"
      using fresh
      by (auto simp: sT_def s2_def set_vector_def s1_def nd_def a'_def N_def Size_def fun_eq_iff
          intro!: state.equality)
    ultimately show ?thesis using True False by simp
  next
    case False
    have "uninitialized_copy_n ops (Some b, 0) N (Some a', 0) s2 = Ok () s3"
      using cp ex False by simp
    then have "Vector_copy_ctor ops this other s = Ok () s3"
      by (simp add: run)
    moreover have "s3 = s\<lparr>vectors := (vectors s)
                 (this := \<lparr>m_data = \<lparr>m_buffer = Some (next_addr s), m_capacity = Size s other\<rparr>,
                           m_size = Size s other\<rparr>),
             region_size := (region_size s)(next_addr s := Some (Size s other)),
             slot := (\<lambda>q. if fst q = next_addr s
                           then (if snd q < Size s other then slot s (b, snd q) else None)
                           else slot s q),
             next_addr := Suc (next_addr s)\<rparr>"
      using ba
      by (auto simp: s3_def s2_def set_vector_def s1_def nd_def a'_def N_def Size_def fun_eq_iff
          intro!: state.equality)
    ultimately show ?thesis using False \<open>\<not> mem_limit s < Size s other\<close> by simp
  qed
qed
qed

lemma Size_positive_buffer:
  assumes "vector_inv s this" and "0 < m_capacity (m_data (vectors s this))"
  shows "\<exists>a. m_buffer (m_data (vectors s this)) = Some a"
  using assms by (cases "m_buffer (m_data (vectors s this))") (auto simp: vector_inv_None)

lemma Vector_copy_assign_strong:
  assumes invt: "vector_inv s this" and invr: "vector_inv s rhs"
    and ne: "this \<noteq> rhs" "tmp \<noteq> this" "tmp \<noteq> rhs"
    and fresh: "region_size s (next_addr s) = None"
    and lt: "Capacity s this < Size s rhs"
    and fail: "mem_limit s < Size s rhs \<or> (\<exists>x\<in>set (elems s rhs). copy_throws ops x)"
  shows "\<exists>e s'. Vector_copy_assign ops tmp this rhs s = Throw e s' \<and>
               vectors s' this = vectors s this \<and> region_size s' = region_size s \<and>
               (\<forall>a i. region_size s a \<noteq> None \<longrightarrow> slot s' (a, i) = slot s (a, i)) \<and>
               elems s' this = elems s this \<and> vector_inv s' this \<and> leaked s' = leaked s"
proof -
  have M: "0 < Size s rhs" using lt by simp
  then have "0 < m_capacity (m_data (vectors s rhs))"
    using invr by (auto simp: vector_inv_def Size_def split: option.splits)
  from Size_positive_buffer[OF invr this] obtain b where
    b: "m_buffer (m_data (vectors s rhs)) = Some b" by blast
  note cc = Vector_copy_ctor_result[OF invr fresh ne(3) M b, of ops]
  define sT where "sT = s\<lparr>vectors := (vectors s)
                 (tmp := \<lparr>m_data = \<lparr>m_buffer = Some (next_addr s), m_capacity = Size s rhs\<rparr>,
                           m_size = Size s rhs\<rparr>),
             slot := (\<lambda>q. if fst q = next_addr s then None else slot s q),
             next_addr := Suc (next_addr s)\<rparr>"
  have run: "Vector_copy_assign ops tmp this rhs s =
        obind (Vector_copy_ctor ops tmp rhs s) (\<lambda>_ s1. Vector_dtor tmp (Vector_Swap this tmp s1))"
    using ne lt by (simp add: Vector_copy_assign_def Size_def)
  have same: "\<forall>a i. region_size s a \<noteq> None \<longrightarrow> slot sT (a, i) = slot s (a, i)"
    using fresh by (auto simp: sT_def)
  have el: "elems sT this = elems s this"
    using ne fresh
    by (auto simp: elems_def sT_def Vector_begin_def GetAddress_def load_def in_storage_def
        split: option.splits)
  have inv': "vector_inv sT this"
    using invt ne fresh
    by (auto simp: vector_inv_def sT_def list_all_iff split: option.splits)
  show ?thesis
  proof (cases "mem_limit s < Size s rhs")
    case True
    then have "Vector_copy_assign ops tmp this rhs s = Throw BadAlloc s"
      by (simp add: run cc)
    then show ?thesis using invt by blast
  next
    case False
    with fail have "\<exists>x\<in>set (elems s rhs). copy_throws ops x" by simp
    with False have "Vector_copy_assign ops tmp this rhs s = Throw ElemError sT"
      by (simp add: run cc sT_def)
    moreover have "vectors sT this = vectors s this" "region_size sT = region_size s"
      "leaked sT = leaked s"
      using ne by (simp_all add: sT_def)
    ultimately show ?thesis using same el inv' by blast
  qed
qed

lemma Vector_copy_assign_swap_ok:
  assumes invt: "vector_inv s this" and invr: "vector_inv s rhs"
    and ne: "this \<noteq> rhs" "tmp \<noteq> this" "tmp \<noteq> rhs"
    and fresh: "region_size s (next_addr s) = None"
    and disj: "m_buffer (m_data (vectors s this)) = None \<or>
               m_buffer (m_data (vectors s this)) \<noteq> m_buffer (m_data (vectors s rhs))"
    and lt: "Capacity s this < Size s rhs"
    and lim: "Size s rhs \<le> mem_limit s"
    and nothrow: "\<forall>x\<in>set (elems s rhs). \<not> copy_throws ops x"
  shows "\<exists>s'. Vector_copy_assign ops tmp this rhs s = Ok () s' \<and>
              elems s' this = elems s rhs \<and> Size s' this = Size s rhs \<and>
              Capacity s' this = Size s rhs \<and>
              m_buffer (m_data (vectors s' this)) = Some (next_addr s) \<and> vector_inv s' this \<and>
              elems s' rhs = elems s rhs \<and> vector_inv s' rhs \<and> leaked s' = leaked s"
proof -
  define M where "M = m_size (vectors s rhs)"
  define a' where "a' = next_addr s"
  define vt where "vt = vectors s this"
  define vn where "vn = \<lparr>m_data = \<lparr>m_buffer = Some a', m_capacity = M\<rparr>, m_size = M\<rparr>"
  have M: "0 < Size s rhs" using lt by simp
  then have "0 < m_capacity (m_data (vectors s rhs))"
    using invr by (auto simp: vector_inv_def Size_def split: option.splits)
  from Size_positive_buffer[OF invr this] obtain b where
    b: "m_buffer (m_data (vectors s rhs)) = Some b" by blast
  have ib: "region_size s b = Some (m_capacity (m_data (vectors s rhs)))"
      "M \<le> m_capacity (m_data (vectors s rhs))" "\<forall>i<M. slot s (b, i) \<noteq> None"
      "\<forall>i. M \<le> i \<and> i < m_capacity (m_data (vectors s rhs)) \<longrightarrow> slot s (b, i) = None"
    using invr b by (simp_all add: vector_inv_Some[of s rhs b] M_def)
  have ba: "b \<noteq> a'" using ib(1) fresh by (auto simp: a'_def)
  have elr: "elems s rhs = map (\<lambda>i. the (slot s (b, i))) [0..<M]"
    using b ib by (simp add: elems_Some[of s rhs b] M_def)
  define s1 where "s1 = s\<lparr>vectors := (vectors s)(tmp := vn),
             region_size := (region_size s)(a' := Some M),
             slot := (\<lambda>q. if fst q = a'
                           then (if snd q < M then slot s (b, snd q) else None)
                           else slot s q),
             next_addr := Suc a'\<rparr>"
  have cc: "Vector_copy_ctor ops tmp rhs s = Ok () s1"
    using Vector_copy_ctor_result[OF invr fresh ne(3) M b, of ops] lim nothrow
    by (simp add: s1_def vn_def a'_def M_def Size_def cong: if_cong)
  define sw where "sw = s1\<lparr>vectors := (vectors s1)(this := vn, tmp := vt)\<rparr>"
  have sw: "Vector_Swap this tmp s1 = sw"
    using ne by (simp add: Vector_Swap_result set_vector_def sw_def s1_def vt_def)
  have run: "Vector_copy_assign ops tmp this rhs s =
        obind (destroy_n (GetAddress (m_data vt)) (m_size vt) sw)
          (\<lambda>_ s4. RawMemory_dtor (m_data (vectors s4 tmp)) s4)"
    using ne lt by (simp add: Vector_copy_assign_def Size_def cc sw Vector_dtor_def)
                   (simp add: sw_def)
  have goal: "\<exists>s'. Vector_copy_assign ops tmp this rhs s = Ok () s' \<and>
              only_slots sw (s'\<lparr>region_size := region_size sw\<rparr>) \<and> leaked s' = leaked s \<and>
              region_size s' a' = Some M \<and> region_size s' b = region_size s b \<and>
              (\<forall>i. slot s' (a', i) = slot sw (a', i)) \<and> (\<forall>i. slot s' (b, i) = slot sw (b, i))"
  proof (cases "m_buffer (m_data vt)")
    case None
    then have z: "m_size vt = 0"
      using invt by (simp add: vector_inv_None vt_def)
    have "Vector_copy_assign ops tmp this rhs s = Ok () sw"
      using None z
      by (simp add: run GetAddress_def RawMemory_dtor_def Deallocate_def) (simp add: sw_def)
    moreover have "leaked sw = leaked s" "region_size sw a' = Some M"
      "region_size sw b = region_size s b"
      using ba by (simp_all add: sw_def s1_def)
    ultimately show ?thesis by (intro exI[of _ sw]) simp
  next
    case (Some a)
    define N where "N = m_size vt"
    define C where "C = m_capacity (m_data vt)"
    have ia: "region_size s a = Some C" "N \<le> C" "\<forall>i<N. slot s (a, i) \<noteq> None"
      "\<forall>i. N \<le> i \<and> i < C \<longrightarrow> slot s (a, i) = None"
      using invt Some by (simp_all add: vector_inv_Some[of s this a] vt_def N_def C_def)
    have aa: "a \<noteq> a'" using ia(1) fresh by (auto simp: a'_def)
    have ab: "a \<noteq> b" using disj Some b by (simp add: vt_def)
    define s4 where "s4 = sw\<lparr>slot := (\<lambda>q. if fst q = a \<and> 0 \<le> snd q \<and> snd q < 0 + N then None
                                         else slot sw q)\<rparr>"
    have des: "destroy_n (Some a, 0) N sw = Ok () s4"
      unfolding s4_def using ia aa
      by (intro destroy_n_ok[where c=C]) (auto simp: sw_def s1_def)
    define s5 where "s5 = s4\<lparr>region_size := (region_size s4)(a := None)\<rparr>"
    have "filter (\<lambda>i. slot s4 (a, i) \<noteq> None) [0..<C] = []"
      using ia aa by (auto simp: filter_empty_conv s4_def sw_def s1_def)
    moreover have "region_size s4 a = Some C"
      using ia aa by (simp add: s4_def sw_def s1_def)
    ultimately have dea: "Deallocate (Some a) s4 = Ok () s5"
      by (simp add: Deallocate_def s5_def)
    have v4: "m_data (vectors s4 tmp) = m_data vt"
      by (simp add: s4_def sw_def)
    have "Vector_copy_assign ops tmp this rhs s = Ok () s5"
      using Some
      by (simp add: run GetAddress_def N_def[symmetric] des RawMemory_dtor_def v4 dea)
    moreover have "only_slots sw (s5\<lparr>region_size := region_size sw\<rparr>)"
      by (simp add: only_slots_def s5_def s4_def)
    moreover have "leaked s5 = leaked s" "region_size s5 a' = Some M"
      "region_size s5 b = region_size s b"
      using aa ab ba by (simp_all add: s5_def s4_def sw_def s1_def)
    moreover have "\<forall>i. slot s5 (a', i) = slot sw (a', i)" "\<forall>i. slot s5 (b, i) = slot sw (b, i)"
      using aa ab by (simp_all add: s5_def s4_def)
    ultimately show ?thesis by (intro exI[of _ s5]) simp
  qed
  then obtain s' where
    r: "Vector_copy_assign ops tmp this rhs s = Ok () s'"
    and os: "only_slots sw (s'\<lparr>region_size := region_size sw\<rparr>)"
    and lk: "leaked s' = leaked s"
    and rg: "region_size s' a' = Some M" "region_size s' b = region_size s b"
    and sl: "\<forall>i. slot s' (a', i) = slot sw (a', i)" "\<forall>i. slot s' (b, i) = slot sw (b, i)"
    by blast
  have vs: "vectors s' = vectors sw"
    using only_slots_fields[OF os] by simp
  have vthis: "vectors s' this = vn" and vrhs: "vectors s' rhs = vectors s rhs"
    using ne by (simp_all add: vs sw_def s1_def)
  have "elems s' this = map (\<lambda>i. the (slot s' (a', i))) [0..<M]"
    using elems_Some[of s' this a' M] rg by (simp add: vthis vn_def)
  also have "\<dots> = elems s rhs"
    using sl by (simp add: elr sw_def s1_def)
  finally have e1: "elems s' this = elems s rhs" .
  have "elems s' rhs = map (\<lambda>i. the (slot s' (b, i))) [0..<M]"
    using elems_Some[of s' rhs b "m_capacity (m_data (vectors s rhs))"] rg ib b
    by (simp add: vrhs M_def)
  also have "\<dots> = elems s rhs"
    using sl ba by (simp add: elr sw_def s1_def)
  finally have e2: "elems s' rhs = elems s rhs" .
  have es: "elem_size s' = elem_size s"
    using only_slots_fields[OF os] by (simp add: sw_def s1_def)
  have fC: "fits_size_t s' (m_capacity (m_data (vectors s rhs)))"
    using invr b by (simp add: fits_size_t_cong[OF es] vector_inv_Some[of s rhs b])
  note fM = fC fits_size_t_mono[OF fC ib(2)]
  have i1: "vector_inv s' this"
    using rg sl ib fM by (auto simp: vector_inv_def vthis vn_def list_all_iff sw_def s1_def)
  have i2: "vector_inv s' rhs"
    using rg sl ib b ba fM
    by (auto simp: vector_inv_def vrhs list_all_iff sw_def s1_def M_def)
  show ?thesis
    using r e1 e2 i1 i2 lk
    by (intro exI[of _ s']) (simp add: Size_def Capacity_def vthis vn_def M_def a'_def)
qed

lemma copy_assign_body:
  assumes invt: "vector_inv s this" and invr: "vector_inv s rhs"
    and a: "m_buffer (m_data (vectors s this)) = Some a"
    and nb: "m_buffer (m_data (vectors s rhs)) \<noteq> Some a"
    and le: "m_size (vectors s rhs) \<le> m_capacity (m_data (vectors s this))"
    and nothrow: "\<forall>x\<in>set (elems s rhs). \<not> copy_throws ops x"
  shows "\<exists>s2.
     (if m_size (vectors s rhs) < m_size (vectors s this) then
        obind (std_copy ops (Vector_begin s rhs)
                 (ptr_add (Vector_begin s rhs) (m_size (vectors s rhs)))
                 (Vector_begin s this) s)
          (\<lambda>_ s1. destroy_n (ptr_add (Vector_begin s1 this) (m_size (vectors s1 rhs)))
                     (m_size (vectors s1 this) - m_size (vectors s1 rhs)) s1)
      else
        obind (std_copy ops (Vector_begin s rhs)
                 (ptr_add (Vector_begin s rhs) (m_size (vectors s this)))
                 (Vector_begin s this) s)
          (\<lambda>_ s1. uninitialized_copy_n ops
                     (ptr_add (Vector_begin s1 rhs) (m_size (vectors s1 this)))
                     (m_size (vectors s1 rhs) - m_size (vectors s1 this))
                     (ptr_add (Vector_begin s1 this) (m_size (vectors s1 this))) s1)) = Ok () s2 \<and>
     only_slots s s2 \<and>
     (\<forall>i<m_size (vectors s rhs).
        slot s2 (a, i) = slot s (the (m_buffer (m_data (vectors s rhs))), i)) \<and>
     (\<forall>i. m_size (vectors s rhs) \<le> i \<and> i < m_capacity (m_data (vectors s this)) \<longrightarrow>
          slot s2 (a, i) = None) \<and>
     (\<forall>c i. c \<noteq> a \<longrightarrow> slot s2 (c, i) = slot s (c, i))"
proof -
  define N where "N = m_size (vectors s this)"
  define M where "M = m_size (vectors s rhs)"
  define C where "C = m_capacity (m_data (vectors s this))"
  define B where "B = m_buffer (m_data (vectors s rhs))"
  have ia: "region_size s a = Some C" "N \<le> C" "\<forall>i<N. slot s (a, i) \<noteq> None"
      "\<forall>i. N \<le> i \<and> i < C \<longrightarrow> slot s (a, i) = None"
    using invt a by (simp_all add: vector_inv_Some[of s this a] N_def C_def)
  have MC: "M \<le> C" using le by (simp add: M_def C_def)
  have bg: "Vector_begin s this = (Some a, 0)" "Vector_begin s rhs = (B, 0)"
    using a by (simp_all add: Vector_begin_def GetAddress_def B_def)
  show ?thesis
  proof (cases "M = 0")
    case True
    define s2 where "s2 = s\<lparr>slot := (\<lambda>q. if fst q = a \<and> 0 \<le> snd q \<and> snd q < 0 + N then None
                                        else slot s q)\<rparr>"
    have des: "destroy_n (Some a, 0) N s = Ok () s2"
      unfolding s2_def using ia by (intro destroy_n_ok[where c=C]) auto
    have "(if M < N then
        obind (std_copy ops (B, 0) (ptr_add (B, 0) M) (Some a, 0) s)
          (\<lambda>_ s1. destroy_n (ptr_add (Vector_begin s1 this) (m_size (vectors s1 rhs)))
                     (m_size (vectors s1 this) - m_size (vectors s1 rhs)) s1)
      else
        obind (std_copy ops (B, 0) (ptr_add (B, 0) N) (Some a, 0) s)
          (\<lambda>_ s1. uninitialized_copy_n ops
                     (ptr_add (Vector_begin s1 rhs) (m_size (vectors s1 this)))
                     (m_size (vectors s1 rhs) - m_size (vectors s1 this))
                     (ptr_add (Vector_begin s1 this) (m_size (vectors s1 this))) s1)) = Ok () s2"
    proof (cases "N = 0")
      case True
      have "s2 = s" by (auto simp: s2_def True fun_eq_iff intro!: slot_update_id)
      then show ?thesis
        using True \<open>M = 0\<close>
        by (simp add: std_copy_def M_def[symmetric] N_def[symmetric])
    next
      case False
      then show ?thesis
        using \<open>M = 0\<close> des
        by (simp add: std_copy_def M_def[symmetric] N_def[symmetric] bg)
    qed
    moreover have "only_slots s s2" by (simp add: s2_def)
    moreover have "\<forall>i. M \<le> i \<and> i < C \<longrightarrow> slot s2 (a, i) = None"
      using ia by (auto simp: s2_def)
    moreover have "\<forall>c i. c \<noteq> a \<longrightarrow> slot s2 (c, i) = slot s (c, i)"
      by (simp add: s2_def)
    ultimately show ?thesis
      using True unfolding M_def[symmetric] N_def[symmetric] C_def[symmetric] bg
      by (intro exI[of _ s2]) simp
  next
    case False
    then have "0 < m_capacity (m_data (vectors s rhs))"
      using invr by (auto simp: vector_inv_def M_def split: option.splits)
    from Size_positive_buffer[OF invr this] obtain b where
      b: "B = Some b" by (auto simp: B_def)
    have ab: "a \<noteq> b" using nb b by (auto simp: B_def)
    have ib: "region_size s b = Some (m_capacity (m_data (vectors s rhs)))"
      "M \<le> m_capacity (m_data (vectors s rhs))" "\<forall>i<M. slot s (b, i) \<noteq> None"
      using invr b by (simp_all add: vector_inv_Some[of s rhs b] M_def B_def)
    have elr: "elems s rhs = map (\<lambda>i. the (slot s (b, i))) [0..<M]"
      using b ib by (simp add: elems_Some[of s rhs b] M_def B_def)
    have nt: "\<forall>i<M. \<not> copy_throws ops (the (slot s (b, i)))"
      using nothrow by (simp add: elr)
    show ?thesis
    proof (cases "M < N")
      case True
      define s1 where "s1 = s\<lparr>slot := (\<lambda>q. if fst q = a \<and> 0 \<le> snd q \<and> snd q < 0 + M
                             then slot s (b, snd q - 0 + 0) else slot s q)\<rparr>"
      have cp: "copy_n_assign ops (Some b, 0) M (Some a, 0) s = Ok () s1"
        unfolding s1_def using ia ib ab nt True MC
        by (intro copy_n_assign_ok[where cb="m_capacity (m_data (vectors s rhs))" and ca=C]) auto
      have v1: "vectors s1 = vectors s" by (simp add: s1_def)
      define s2 where "s2 = s1\<lparr>slot := (\<lambda>q. if fst q = a \<and> M \<le> snd q \<and> snd q < M + (N - M)
                                          then None else slot s1 q)\<rparr>"
      have des: "destroy_n (Some a, M) (N - M) s1 = Ok () s2"
        unfolding s2_def using ia True
        by (intro destroy_n_ok[where c=C]) (auto simp: s1_def)
      have "obind (std_copy ops (B, 0) (ptr_add (B, 0) M) (Some a, 0) s)
          (\<lambda>_ s1. destroy_n (ptr_add (Vector_begin s1 this) (m_size (vectors s1 rhs)))
                     (m_size (vectors s1 this) - m_size (vectors s1 rhs)) s1) = Ok () s2"
        using a v1 by (simp add: std_copy_def b cp Vector_begin_def GetAddress_def
            M_def[symmetric] N_def[symmetric] des)
      moreover have "only_slots s s2" by (simp add: s2_def s1_def)
      moreover have "\<forall>i<M. slot s2 (a, i) = slot s (b, i)"
        by (simp add: s2_def s1_def)
      moreover have "\<forall>i. M \<le> i \<and> i < C \<longrightarrow> slot s2 (a, i) = None"
        using ia True by (auto simp: s2_def s1_def)
      moreover have "\<forall>c i. c \<noteq> a \<longrightarrow> slot s2 (c, i) = slot s (c, i)"
        by (simp add: s2_def s1_def)
      ultimately show ?thesis
        using True b unfolding M_def[symmetric] N_def[symmetric] C_def[symmetric] bg B_def[symmetric]
        by (intro exI[of _ s2]) simp
    next
      case False
      then have NM: "N \<le> M" by simp
      define s1 where "s1 = s\<lparr>slot := (\<lambda>q. if fst q = a \<and> 0 \<le> snd q \<and> snd q < 0 + N
                             then slot s (b, snd q - 0 + 0) else slot s q)\<rparr>"
      have cp: "copy_n_assign ops (Some b, 0) N (Some a, 0) s = Ok () s1"
        unfolding s1_def using ia ib ab nt NM
        by (intro copy_n_assign_ok[where cb="m_capacity (m_data (vectors s rhs))" and ca=C]) auto
      have v1: "vectors s1 = vectors s" by (simp add: s1_def)
      define s2 where "s2 = s1\<lparr>slot := (\<lambda>q. if fst q = a \<and> N \<le> snd q \<and> snd q < N + (M - N)
                                   then slot s1 (b, snd q - N + N) else slot s1 q)\<rparr>"
      have "uninitialized_copy_n ops (Some b, N) (M - N) (Some a, N) s1 =
         (if \<exists>i<M - N. copy_throws ops (the (slot s1 (b, N + i))) then Throw ElemError s1
          else Ok () s2)"
        unfolding s2_def using ia ib ab NM MC
        by (intro uninitialized_copy_n_result[where cb="m_capacity (m_data (vectors s rhs))" and ca=C])
           (auto simp: s1_def)
      moreover have "\<not> (\<exists>i<M - N. copy_throws ops (the (slot s1 (b, N + i))))"
        using nt ab by (auto simp: s1_def)
      ultimately have uc: "uninitialized_copy_n ops (Some b, N) (M - N) (Some a, N) s1 = Ok () s2"
        by (simp only: if_False)
      have "obind (std_copy ops (B, 0) (ptr_add (B, 0) N) (Some a, 0) s)
          (\<lambda>_ s1. uninitialized_copy_n ops
                     (ptr_add (Vector_begin s1 rhs) (m_size (vectors s1 this)))
                     (m_size (vectors s1 rhs) - m_size (vectors s1 this))
                     (ptr_add (Vector_begin s1 this) (m_size (vectors s1 this))) s1) = Ok () s2"
        using a b v1 by (simp add: std_copy_def cp Vector_begin_def GetAddress_def
            M_def[symmetric] N_def[symmetric] B_def[symmetric] uc)
      moreover have "only_slots s s2" by (simp add: s2_def s1_def)
      moreover have "\<forall>i<M. slot s2 (a, i) = slot s (b, i)"
        using ab NM by (auto simp: s2_def s1_def)
      moreover have "\<forall>i. M \<le> i \<and> i < C \<longrightarrow> slot s2 (a, i) = None"
        using ia NM by (auto simp: s2_def s1_def)
      moreover have "\<forall>c i. c \<noteq> a \<longrightarrow> slot s2 (c, i) = slot s (c, i)"
        by (simp add: s2_def s1_def)
      ultimately show ?thesis
        using False b unfolding M_def[symmetric] N_def[symmetric] C_def[symmetric] bg B_def[symmetric]
        by (intro exI[of _ s2]) simp
    qed
  qed
qed

lemma vector_inv_cong:
  assumes "vectors s' this = vectors s other" "region_size s' = region_size s"
    and "elem_size s' = elem_size s"
    and "\<forall>a i. m_buffer (m_data (vectors s other)) = Some a \<longrightarrow> slot s' (a, i) = slot s (a, i)"
  shows "vector_inv s' this = vector_inv s other"
proof (cases "m_buffer (m_data (vectors s other))")
  case None
  then show ?thesis by (simp add: vector_inv_None assms fits_size_t_cong[of s' s])
next
  case (Some a)
  then show ?thesis
    using assms
    by (simp add: vector_inv_Some[of s' this a] vector_inv_Some[of s other a]
        fits_size_t_cong[of s' s])
qed

lemma Vector_copy_assign_in_place:
  assumes invt: "vector_inv s this" and invr: "vector_inv s rhs" and ne: "this \<noteq> rhs"
    and disj: "m_buffer (m_data (vectors s this)) = None \<or>
               m_buffer (m_data (vectors s this)) \<noteq> m_buffer (m_data (vectors s rhs))"
    and le: "Size s rhs \<le> Capacity s this"
    and nothrow: "\<forall>x\<in>set (elems s rhs). \<not> copy_throws ops x"
  shows "\<exists>s'. Vector_copy_assign ops tmp this rhs s = Ok () s' \<and>
              elems s' this = elems s rhs \<and> Size s' this = Size s rhs \<and>
              m_data (vectors s' this) = m_data (vectors s this) \<and>
              region_size s' = region_size s \<and> next_addr s' = next_addr s \<and>
              vector_inv s' this \<and> elems s' rhs = elems s rhs \<and> vector_inv s' rhs \<and>
              leaked s' = leaked s"
proof (cases "m_buffer (m_data (vectors s this))")
  case None
  then have z: "m_capacity (m_data (vectors s this)) = 0" "m_size (vectors s this) = 0"
    using invt by (simp_all add: vector_inv_None)
  then have M0: "m_size (vectors s rhs) = 0"
    using le by (simp add: Size_def Capacity_def)
  define s' where "s' = set_vector this ((vectors s this)\<lparr>m_size := 0\<rparr>) s"
  have "Vector_copy_assign ops tmp this rhs s = Ok () s'"
    using ne z M0
    by (simp add: Vector_copy_assign_def Capacity_def std_copy_def Vector_begin_def GetAddress_def
        s'_def)
  moreover have "elems s' this = elems s rhs"
    using M0 by (simp add: elems_empty s'_def set_vector_def)
  moreover have "elems s' rhs = elems s rhs"
    using ne by (intro elems_cong) (simp_all add: s'_def set_vector_def)
  moreover have "vector_inv s' this"
    using None z invt by (simp add: vector_inv_def s'_def set_vector_def)
  moreover have "vector_inv s' rhs"
    using invr ne vector_inv_cong[of s' rhs s rhs] by (simp add: s'_def set_vector_def)
  ultimately show ?thesis
    using M0 by (intro exI[of _ s']) (simp add: s'_def set_vector_def Size_def)
next
  case (Some a)
  define M where "M = m_size (vectors s rhs)"
  define C where "C = m_capacity (m_data (vectors s this))"
  define B where "B = m_buffer (m_data (vectors s rhs))"
  have nb: "m_buffer (m_data (vectors s rhs)) \<noteq> Some a"
    using disj Some by auto
  have le': "m_size (vectors s rhs) \<le> m_capacity (m_data (vectors s this))"
    using le by (simp add: Size_def Capacity_def)
  have ia: "region_size s a = Some C"
    using invt Some by (simp add: vector_inv_Some[of s this a] C_def)
  from copy_assign_body[OF invt invr Some nb le' nothrow] obtain s2 where
    body: "(if m_size (vectors s rhs) < m_size (vectors s this) then
        obind (std_copy ops (Vector_begin s rhs)
                 (ptr_add (Vector_begin s rhs) (m_size (vectors s rhs)))
                 (Vector_begin s this) s)
          (\<lambda>_ s1. destroy_n (ptr_add (Vector_begin s1 this) (m_size (vectors s1 rhs)))
                     (m_size (vectors s1 this) - m_size (vectors s1 rhs)) s1)
      else
        obind (std_copy ops (Vector_begin s rhs)
                 (ptr_add (Vector_begin s rhs) (m_size (vectors s this)))
                 (Vector_begin s this) s)
          (\<lambda>_ s1. uninitialized_copy_n ops
                     (ptr_add (Vector_begin s1 rhs) (m_size (vectors s1 this)))
                     (m_size (vectors s1 rhs) - m_size (vectors s1 this))
                     (ptr_add (Vector_begin s1 this) (m_size (vectors s1 this))) s1)) = Ok () s2"
    and os: "only_slots s s2"
    and new: "\<forall>i<M. slot s2 (a, i) = slot s (the B, i)"
    and raw: "\<forall>i. M \<le> i \<and> i < C \<longrightarrow> slot s2 (a, i) = None"
    and oth: "\<forall>c i. c \<noteq> a \<longrightarrow> slot s2 (c, i) = slot s (c, i)"
    unfolding M_def C_def B_def by blast
  note f2 = only_slots_fields[OF os]
  define s' where "s' = set_vector this ((vectors s2 this)\<lparr>m_size := m_size (vectors s2 rhs)\<rparr>) s2"
  have run: "Vector_copy_assign ops tmp this rhs s = Ok () s'"
    using ne le' unfolding Vector_copy_assign_def
    by (simp add: Capacity_def body s'_def)
  have vthis: "vectors s' this = (vectors s this)\<lparr>m_size := M\<rparr>"
    and vrhs: "vectors s' rhs = vectors s rhs"
    using ne f2 by (simp_all add: s'_def set_vector_def M_def)
  have rs: "region_size s' = region_size s" "next_addr s' = next_addr s" "leaked s' = leaked s"
    using f2 by (simp_all add: s'_def set_vector_def)
  have es: "elem_size s' = elem_size s"
    using f2 by (simp add: s'_def set_vector_def)
  have fC: "fits_size_t s' (m_capacity (m_data (vectors s this)))"
    using invt Some by (simp add: fits_size_t_cong[OF es] vector_inv_Some[of s this a])
  have elr: "M = 0 \<or> (\<exists>b. B = Some b \<and> b \<noteq> a \<and>
                 region_size s b = Some (m_capacity (m_data (vectors s rhs))) \<and>
                 M \<le> m_capacity (m_data (vectors s rhs)) \<and> (\<forall>i<M. slot s (b, i) \<noteq> None))"
  proof (cases "M = 0")
    case False
    then have "0 < m_capacity (m_data (vectors s rhs))"
      using invr by (auto simp: vector_inv_def M_def split: option.splits)
    from Size_positive_buffer[OF invr this] obtain b where b: "B = Some b"
      by (auto simp: B_def)
    then show ?thesis
      using invr nb by (auto simp: vector_inv_Some[of s rhs b] M_def B_def)
  qed simp
  have e1: "elems s' this = elems s rhs"
  proof (cases "M = 0")
    case True
    then show ?thesis by (simp add: elems_empty vthis M_def)
  next
    case False
    with elr obtain b where b: "B = Some b" "b \<noteq> a"
      "region_size s b = Some (m_capacity (m_data (vectors s rhs)))"
      "M \<le> m_capacity (m_data (vectors s rhs))" by blast
    have "elems s' this = map (\<lambda>i. the (slot s' (a, i))) [0..<M]"
      using elems_Some[of s' this a C] Some ia le' by (simp add: vthis rs M_def C_def)
    also have "\<dots> = map (\<lambda>i. the (slot s (b, i))) [0..<M]"
      using new b by (simp add: s'_def set_vector_def)
    also have "\<dots> = elems s rhs"
      using elems_Some[of s rhs b] b by (simp add: M_def B_def)
    finally show ?thesis .
  qed
  have srhs: "\<forall>i. slot s' (the B, i) = slot s (the B, i) \<or> M = 0 \<and> B = None"
    using oth elr nb by (cases B) (auto simp: s'_def set_vector_def B_def)
  have e2: "elems s' rhs = elems s rhs"
  proof (cases "M = 0")
    case True
    then show ?thesis by (simp add: elems_empty vrhs M_def)
  next
    case False
    with elr obtain b where b: "B = Some b" "b \<noteq> a"
      "region_size s b = Some (m_capacity (m_data (vectors s rhs)))"
      "M \<le> m_capacity (m_data (vectors s rhs))" by blast
    have "elems s' rhs = map (\<lambda>i. the (slot s' (b, i))) [0..<M]"
      using elems_Some[of s' rhs b] b by (simp add: vrhs rs M_def B_def)
    also have "\<dots> = map (\<lambda>i. the (slot s (b, i))) [0..<M]"
      using oth b by (simp add: s'_def set_vector_def)
    also have "\<dots> = elems s rhs"
      using elems_Some[of s rhs b] b by (simp add: M_def B_def)
    finally show ?thesis .
  qed
  have i1: "vector_inv s' this"
  proof -
    have "\<forall>i<M. slot s' (a, i) \<noteq> None"
      using new elr by (auto simp: s'_def set_vector_def)
    moreover have bthis: "m_buffer (m_data (vectors s' this)) = Some a"
      using Some by (simp add: vthis)
    moreover have "\<forall>i. slot s' (a, i) = slot s2 (a, i)"
      by (simp add: s'_def set_vector_def)
    ultimately show ?thesis
      using ia le' raw fC
      by (simp add: vector_inv_Some[OF bthis] vthis rs M_def C_def)
  qed
  have i2: "vector_inv s' rhs"
  proof -
    have "\<forall>b i. m_buffer (m_data (vectors s rhs)) = Some b \<longrightarrow> slot s' (b, i) = slot s (b, i)"
      using oth nb by (auto simp: s'_def set_vector_def)
    then show ?thesis
      using invr vector_inv_cong[of s' rhs s rhs] by (simp add: vrhs rs es)
  qed
  show ?thesis
    using run e1 e2 i1 i2 rs
    by (intro exI[of _ s']) (simp add: Size_def vthis vrhs M_def)
qed

lemma Vector_copy_assign_self: "Vector_copy_assign ops tmp this this s = Ok () s"
  by (simp add: Vector_copy_assign_def)

lemma example_state_empty:
  "vector_inv example_state 2" "elems example_state 2 = []" "Capacity example_state 2 = 0"
  "Size example_state 2 = 0" "m_buffer (m_data (vectors example_state 2)) = None"
  "vectors example_state 2 = \<lparr>m_data = RawMemory_default, m_size = 0\<rparr>"
  "m_data (vectors example_state (Suc 0)) = \<lparr>m_buffer = Some 1, m_capacity = 3\<rparr>"
  by (simp_all add: example_state_def vector_inv_def elems_def Capacity_def Size_def
      RawMemory_default_def fits_size_t_def)

text \<open>
  Claim C6. Copy assignment from \<open>rhs\<close> to a different vector \<open>this\<close> whose buffer is
  not the one of \<open>rhs\<close>. When the size of \<open>rhs\<close> exceeds the capacity of \<open>this\<close>, a
  temporary copy of \<open>rhs\<close> is built and swapped in: if building it fails (the allocation
  is refused, or a copy of an element throws), the exception leaves \<open>this\<close> as it was:
  same object, same regions, same slot contents in every live region, same elements,
  nothing leaked; if it does not fail, \<open>this\<close> ends with the elements of \<open>rhs\<close> in a new
  buffer whose capacity is the size of \<open>rhs\<close>. Otherwise the elements are assigned and
  constructed or destroyed in the buffer \<open>this\<close> already has: provided no copy throws,
  \<open>this\<close> keeps its buffer and capacity, no region is handed out or released, its size
  becomes the size of \<open>rhs\<close>, its elements are the elements of \<open>rhs\<close>, and the invariant
  holds, so exactly the slots below the new size hold elements (the trailing elements
  were destroyed when shrinking, the additional ones constructed when growing). In both
  cases \<open>rhs\<close> is unchanged.
\<close>

theorem Vector_copy_assign_spec:
  assumes "vector_inv s this" and "vector_inv s rhs"
    and "this \<noteq> rhs" and "tmp \<noteq> this" and "tmp \<noteq> rhs"
    and "region_size s (next_addr s) = None"
    and "m_buffer (m_data (vectors s this)) = None \<or>
         m_buffer (m_data (vectors s this)) \<noteq> m_buffer (m_data (vectors s rhs))"
  shows "(Capacity s this < Size s rhs \<and>
          (mem_limit s < Size s rhs \<or> (\<exists>x\<in>set (elems s rhs). copy_throws ops x)) \<longrightarrow>
            (\<exists>e s'. Vector_copy_assign ops tmp this rhs s = Throw e s' \<and>
                    vectors s' this = vectors s this \<and> region_size s' = region_size s \<and>
                    (\<forall>a i. region_size s a \<noteq> None \<longrightarrow> slot s' (a, i) = slot s (a, i)) \<and>
                    elems s' this = elems s this \<and> vector_inv s' this \<and>
                    leaked s' = leaked s)) \<and>
         (Capacity s this < Size s rhs \<and> Size s rhs \<le> mem_limit s \<and>
          (\<forall>x\<in>set (elems s rhs). \<not> copy_throws ops x) \<longrightarrow>
            (\<exists>s'. Vector_copy_assign ops tmp this rhs s = Ok () s' \<and>
                  elems s' this = elems s rhs \<and> Size s' this = Size s rhs \<and>
                  Capacity s' this = Size s rhs \<and>
                  m_buffer (m_data (vectors s' this)) = Some (next_addr s) \<and>
                  vector_inv s' this \<and> elems s' rhs = elems s rhs \<and> vector_inv s' rhs \<and>
                  leaked s' = leaked s)) \<and>
         (Size s rhs \<le> Capacity s this \<and> (\<forall>x\<in>set (elems s rhs). \<not> copy_throws ops x) \<longrightarrow>
            (\<exists>s'. Vector_copy_assign ops tmp this rhs s = Ok () s' \<and>
                  elems s' this = elems s rhs \<and> Size s' this = Size s rhs \<and>
                  m_data (vectors s' this) = m_data (vectors s this) \<and>
                  region_size s' = region_size s \<and> next_addr s' = next_addr s \<and>
                  vector_inv s' this \<and> elems s' rhs = elems s rhs \<and> vector_inv s' rhs \<and>
                  leaked s' = leaked s))"
proof (intro conjI impI)
  assume "Capacity s this < Size s rhs \<and>
          (mem_limit s < Size s rhs \<or> (\<exists>x\<in>set (elems s rhs). copy_throws ops x))"
  then show "\<exists>e s'. Vector_copy_assign ops tmp this rhs s = Throw e s' \<and>
                    vectors s' this = vectors s this \<and> region_size s' = region_size s \<and>
                    (\<forall>a i. region_size s a \<noteq> None \<longrightarrow> slot s' (a, i) = slot s (a, i)) \<and>
                    elems s' this = elems s this \<and> vector_inv s' this \<and>
                    leaked s' = leaked s"
    using Vector_copy_assign_strong[OF assms(1-6), of ops] by blast
next
  assume "Capacity s this < Size s rhs \<and> Size s rhs \<le> mem_limit s \<and>
          (\<forall>x\<in>set (elems s rhs). \<not> copy_throws ops x)"
  then show "\<exists>s'. Vector_copy_assign ops tmp this rhs s = Ok () s' \<and>
                  elems s' this = elems s rhs \<and> Size s' this = Size s rhs \<and>
                  Capacity s' this = Size s rhs \<and>
                  m_buffer (m_data (vectors s' this)) = Some (next_addr s) \<and>
                  vector_inv s' this \<and> elems s' rhs = elems s rhs \<and> vector_inv s' rhs \<and>
                  leaked s' = leaked s"
    using Vector_copy_assign_swap_ok[OF assms, of ops] by blast
next
  assume "Size s rhs \<le> Capacity s this \<and> (\<forall>x\<in>set (elems s rhs). \<not> copy_throws ops x)"
  then show "\<exists>s'. Vector_copy_assign ops tmp this rhs s = Ok () s' \<and>
                  elems s' this = elems s rhs \<and> Size s' this = Size s rhs \<and>
                  m_data (vectors s' this) = m_data (vectors s this) \<and>
                  region_size s' = region_size s \<and> next_addr s' = next_addr s \<and>
                  vector_inv s' this \<and> elems s' rhs = elems s rhs \<and> vector_inv s' rhs \<and>
                  leaked s' = leaked s"
    using Vector_copy_assign_in_place[OF assms(1-3) assms(7), of ops tmp] by blast
qed

theorem Vector_copy_assign_spec_witness:
  "vector_inv example_state 2 \<and> vector_inv example_state 1 \<and> vector_inv example_state 0 \<and>
   (\<exists>e s'. Vector_copy_assign (int_ops\<lparr>copy_throws := (\<lambda>x. x = 9)\<rparr>) 3 2 0 example_state =
             Throw e s' \<and>
           vectors s' 2 = vectors example_state 2 \<and> elems s' 2 = [] \<and> vector_inv s' 2 \<and>
           leaked s' = leaked example_state) \<and>
   (\<exists>s'. Vector_copy_assign int_ops 3 2 0 example_state = Ok () s' \<and>
         elems s' 2 = [8, 9] \<and> Size s' 2 = 2 \<and> Capacity s' 2 = 2 \<and>
         m_buffer (m_data (vectors s' 2)) = Some 2 \<and> vector_inv s' 2 \<and> elems s' 0 = [8, 9]) \<and>
   (\<exists>s'. Vector_copy_assign int_ops 3 1 0 example_state = Ok () s' \<and>
         elems s' 1 = [8, 9] \<and> Size s' 1 = 2 \<and>
         m_data (vectors s' 1) = \<lparr>m_buffer = Some 1, m_capacity = 3\<rparr> \<and>
         vector_inv s' 1 \<and> elems s' 0 = [8, 9])"
proof -
  have n: "next_addr example_state = 2" "region_size example_state 2 = None"
    "m_buffer RawMemory_default = None"
    by (simp_all add: example_state_def RawMemory_default_def)
  have "\<exists>e s'. Vector_copy_assign (int_ops\<lparr>copy_throws := (\<lambda>x. x = 9)\<rparr>) 3 2 0 example_state =
             Throw e s' \<and>
           vectors s' 2 = vectors example_state 2 \<and> elems s' 2 = [] \<and> vector_inv s' 2 \<and>
           leaked s' = leaked example_state"
    using Vector_copy_assign_spec[of example_state 2 0 3 "int_ops\<lparr>copy_throws := (\<lambda>x. x = 9)\<rparr>"]
    by (simp add: example_state_facts example_state_buffers example_state_empty int_ops_def n)
       blast
  moreover have "\<exists>s'. Vector_copy_assign int_ops 3 2 0 example_state = Ok () s' \<and>
         elems s' 2 = [8, 9] \<and> Size s' 2 = 2 \<and> Capacity s' 2 = 2 \<and>
         m_buffer (m_data (vectors s' 2)) = Some 2 \<and> vector_inv s' 2 \<and> elems s' 0 = [8, 9]"
    using Vector_copy_assign_spec[of example_state 2 0 3 int_ops]
    by (simp add: example_state_facts example_state_buffers example_state_empty int_ops_def n)
       blast
  moreover have "\<exists>s'. Vector_copy_assign int_ops 3 1 0 example_state = Ok () s' \<and>
         elems s' 1 = [8, 9] \<and> Size s' 1 = 2 \<and>
         m_data (vectors s' 1) = \<lparr>m_buffer = Some 1, m_capacity = 3\<rparr> \<and>
         vector_inv s' 1 \<and> elems s' 0 = [8, 9]"
    using Vector_copy_assign_spec[of example_state 1 0 3 int_ops]
    by (simp add: example_state_facts example_state_buffers example_state_empty int_ops_def n)
       blast
  ultimately show ?thesis
    by (simp add: example_state_facts example_state_empty)
qed

section \<open>\<open>Emplace\<close> on a full vector\<close>

lemma ReAllocate_ok:
  assumes b: "m_buffer (m_data (vectors s this)) = Some b"
    and rb: "region_size s b = Some cb" and nb: "m_size (vectors s this) \<le> cb"
    and ra: "region_size s a = Some ca" and na: "Suc (m_size (vectors s this)) \<le> ca"
    and ab: "a \<noteq> b" and pos: "pos \<le> m_size (vectors s this)"
    and live: "\<forall>i<m_size (vectors s this). slot s (b, i) \<noteq> None"
    and nothrow: "\<forall>i<m_size (vectors s this).
                    \<not> (if nothrow_move_constructible ops \<or> \<not> copy_constructible ops
                       then move_throws ops (the (slot s (b, i)))
                       else copy_throws ops (the (slot s (b, i))))"
    and raw: "\<forall>i. i \<noteq> pos \<longrightarrow> slot s (a, i) = None"
  shows "\<exists>s2. ReAllocate ops this pos \<lparr>m_buffer = Some a, m_capacity = ca\<rparr> s = Ok () s2 \<and>
              only_slots s s2 \<and>
              (\<forall>i<pos. slot s2 (a, i) = slot s (b, i)) \<and>
              slot s2 (a, pos) = slot s (a, pos) \<and>
              (\<forall>i. pos \<le> i \<and> i < m_size (vectors s this) \<longrightarrow> slot s2 (a, Suc i) = slot s (b, i)) \<and>
              (\<forall>i. m_size (vectors s this) < i \<longrightarrow> slot s2 (a, i) = None) \<and>
              (\<forall>i<m_size (vectors s this). slot s2 (b, i) \<noteq> None) \<and>
              (\<forall>i. m_size (vectors s this) \<le> i \<longrightarrow> slot s2 (b, i) = slot s (b, i)) \<and>
              (\<forall>c i. c \<noteq> a \<and> c \<noteq> b \<longrightarrow> slot s2 (c, i) = slot s (c, i))"
proof -
  define N where "N = m_size (vectors s this)"
  note assms' = assms[folded N_def]
  have bg: "Vector_begin s this = (Some b, 0)"
    using b by (simp add: Vector_begin_def GetAddress_def)
  show ?thesis
  proof (cases "nothrow_move_constructible ops \<or> \<not> copy_constructible ops")
    case True
    define s1 where "s1 = s\<lparr>slot := (\<lambda>q. if fst q = a \<and> 0 \<le> snd q \<and> snd q < 0 + pos
                             then slot s (b, snd q - 0 + 0)
                           else if fst q = b \<and> 0 \<le> snd q \<and> snd q < 0 + pos
                             then map_option (moved_from ops) (slot s q)
                           else slot s q)\<rparr>"
    have m1: "uninitialized_move_n ops (Some b, 0) pos (Some a, 0) s = Ok () s1"
      unfolding s1_def using assms' True
      by (intro uninitialized_move_n_ok[where cb=cb and ca=ca]) auto
    have v1: "vectors s1 = vectors s" by (simp add: s1_def)
    define s2 where "s2 = s1\<lparr>slot := (\<lambda>q. if fst q = a \<and> Suc pos \<le> snd q \<and> snd q < Suc pos + (N - pos)
                             then slot s1 (b, snd q - Suc pos + pos)
                           else if fst q = b \<and> pos \<le> snd q \<and> snd q < pos + (N - pos)
                             then map_option (moved_from ops) (slot s1 q)
                           else slot s1 q)\<rparr>"
    have m2: "uninitialized_move_n ops (Some b, pos) (N - pos) (Some a, Suc pos) s1 = Ok () s2"
      unfolding s2_def using assms' True
      by (intro uninitialized_move_n_ok[where cb=cb and ca=ca]) (auto simp: s1_def)
    have "ReAllocate ops this pos \<lparr>m_buffer = Some a, m_capacity = ca\<rparr> s = Ok () s2"
      using True by (simp add: ReAllocate_def bg GetAddress_def m1 v1 N_def[symmetric]
          Vector_begin_def b m2)
    moreover have "only_slots s s2" by (simp add: s2_def s1_def)
    moreover have "\<forall>i<pos. slot s2 (a, i) = slot s (b, i)"
      by (simp add: s2_def s1_def)
    moreover have "slot s2 (a, pos) = slot s (a, pos)"
      using ab by (simp add: s2_def s1_def)
    moreover have "\<forall>i. pos \<le> i \<and> i < N \<longrightarrow> slot s2 (a, Suc i) = slot s (b, i)"
      using ab by (auto simp: s2_def s1_def)
    moreover have "\<forall>i. N < i \<longrightarrow> slot s2 (a, i) = None"
      using assms' by (auto simp: s2_def s1_def)
    moreover have "\<forall>i<N. slot s2 (b, i) \<noteq> None"
      using assms' by (auto simp: s2_def s1_def)
    moreover have "\<forall>i. N \<le> i \<longrightarrow> slot s2 (b, i) = slot s (b, i)"
      using assms' by (auto simp: s2_def s1_def)
    moreover have "\<forall>c i. c \<noteq> a \<and> c \<noteq> b \<longrightarrow> slot s2 (c, i) = slot s (c, i)"
      by (simp add: s2_def s1_def)
    ultimately show ?thesis
      unfolding N_def[symmetric] by (intro exI[of _ s2]) simp
  next
    case False
    define s1 where "s1 = s\<lparr>slot := (\<lambda>q. if fst q = a \<and> 0 \<le> snd q \<and> snd q < 0 + pos
                                   then slot s (b, snd q - 0 + 0) else slot s q)\<rparr>"
    have "uninitialized_copy_n ops (Some b, 0) pos (Some a, 0) s =
       (if \<exists>i<pos. copy_throws ops (the (slot s (b, 0 + i))) then Throw ElemError s
        else Ok () s1)"
      unfolding s1_def using assms'
      by (intro uninitialized_copy_n_result[where cb=cb and ca=ca]) auto
    moreover have "\<not> (\<exists>i<pos. copy_throws ops (the (slot s (b, 0 + i))))"
      using assms' False by auto
    ultimately have m1: "uninitialized_copy_n ops (Some b, 0) pos (Some a, 0) s = Ok () s1"
      by (simp only: if_False)
    have v1: "vectors s1 = vectors s" by (simp add: s1_def)
    define s2 where "s2 = s1\<lparr>slot := (\<lambda>q. if fst q = a \<and> Suc pos \<le> snd q \<and> snd q < Suc pos + (N - pos)
                             then slot s1 (b, snd q - Suc pos + pos) else slot s1 q)\<rparr>"
    have "uninitialized_copy_n ops (Some b, pos) (N - pos) (Some a, Suc pos) s1 =
       (if \<exists>i<N - pos. copy_throws ops (the (slot s1 (b, pos + i))) then Throw ElemError s1
        else Ok () s2)"
      unfolding s2_def using assms'
      by (intro uninitialized_copy_n_result[where cb=cb and ca=ca]) (auto simp: s1_def)
    moreover have "\<not> (\<exists>i<N - pos. copy_throws ops (the (slot s1 (b, pos + i))))"
      using assms' False by (auto simp: s1_def)
    ultimately have m2: "uninitialized_copy_n ops (Some b, pos) (N - pos) (Some a, Suc pos) s1 = Ok () s2"
      by (simp only: if_False)
    have "ReAllocate ops this pos \<lparr>m_buffer = Some a, m_capacity = ca\<rparr> s = Ok () s2"
      using False by (simp add: ReAllocate_def bg GetAddress_def m1 v1 N_def[symmetric]
          Vector_begin_def b m2)
    moreover have "only_slots s s2" by (simp add: s2_def s1_def)
    moreover have "\<forall>i<pos. slot s2 (a, i) = slot s (b, i)"
      by (simp add: s2_def s1_def)
    moreover have "slot s2 (a, pos) = slot s (a, pos)"
      by (simp add: s2_def s1_def)
    moreover have "\<forall>i. pos \<le> i \<and> i < N \<longrightarrow> slot s2 (a, Suc i) = slot s (b, i)"
      using ab by (auto simp: s2_def s1_def)
    moreover have "\<forall>i. N < i \<longrightarrow> slot s2 (a, i) = None"
      using assms' by (auto simp: s2_def s1_def)
    moreover have "\<forall>i<N. slot s2 (b, i) \<noteq> None"
      using assms' by (auto simp: s2_def s1_def)
    moreover have "\<forall>i. N \<le> i \<longrightarrow> slot s2 (b, i) = slot s (b, i)"
      using assms' by (auto simp: s2_def s1_def)
    moreover have "\<forall>c i. c \<noteq> a \<and> c \<noteq> b \<longrightarrow> slot s2 (c, i) = slot s (c, i)"
      by (simp add: s2_def s1_def)
    ultimately show ?thesis
      unfolding N_def[symmetric] by (intro exI[of _ s2]) simp
  qed
qed

lemma insert_nth_map:
  assumes "pos \<le> N" and "\<forall>i<pos. g i = f i" and "g pos = x" and "\<forall>i. pos \<le> i \<and> i < N \<longrightarrow> g (Suc i) = f i"
  shows "map g [0..<Suc N] = take pos (map f [0..<N]) @ [x] @ drop pos (map f [0..<N])"
proof (rule nth_equalityI)
  show "length (map g [0..<Suc N]) = length (take pos (map f [0..<N]) @ [x] @ drop pos (map f [0..<N]))"
    using assms(1) by simp
next
  fix i assume "i < length (map g [0..<Suc N])"
  then have i: "i < Suc N" by simp
  consider "i < pos" | "i = pos" | "pos < i" by linarith
  then show "map g [0..<Suc N] ! i = (take pos (map f [0..<N]) @ [x] @ drop pos (map f [0..<N])) ! i"
  proof cases
    case 1
    then show ?thesis using assms i by (simp add: nth_append del: upt_Suc)
  next
    case 2
    then show ?thesis using assms i by (simp add: nth_append del: upt_Suc)
  next
    case 3
    then obtain j where j: "i = Suc j" "pos \<le> j" "j < N"
      using i by (cases i) auto
    then show ?thesis
      using assms i by (simp add: nth_append min_def del: upt_Suc)
  qed
qed

lemma Emplace_full_ok:
  assumes inv: "vector_inv s this" and fresh: "region_size s (next_addr s) = None"
    and full: "Size s this = Capacity s this" and pos: "pos_num \<le> Size s this"
    and fit: "fits_size_t s (max 1 (2 * Size s this))"
    and lim: "max 1 (2 * Size s this) \<le> mem_limit s"
    and nothrow: "\<forall>x\<in>set (elems s this).
                    \<not> (if nothrow_move_constructible ops \<or> \<not> copy_constructible ops
                       then move_throws ops x else copy_throws ops x)"
  shows "\<exists>s'. Emplace ops this (ptr_add (Vector_begin s this) pos_num) (Some x) s =
                Ok (ptr_add (Vector_begin s' this) pos_num) s' \<and>
              Capacity s' this = max 1 (2 * Size s this) \<and> Size s' this = Size s this + 1 \<and>
              elems s' this = take pos_num (elems s this) @ [x] @ drop pos_num (elems s this) \<and>
              vector_inv s' this \<and> leaked s' = leaked s \<and>
              m_buffer (m_data (vectors s' this)) = Some (next_addr s) \<and>
              next_addr s' = Suc (next_addr s)"
proof -
  define v where "v = vectors s this"
  define N where "N = m_size v"
  define NC where "NC = (if N = 0 then 1 else N * 2)"
  define a' where "a' = next_addr s"
  define nd where "nd = \<lparr>m_buffer = Some a', m_capacity = NC\<rparr>"
  define s1 where "s1 = s\<lparr>region_size := (region_size s)(a' := Some NC),
                          slot := (\<lambda>q. if fst q = a' then None else slot s q),
                          next_addr := Suc a'\<rparr>"
  define s2 where "s2 = s1\<lparr>slot := (slot s1)((a', pos_num) := Some x)\<rparr>"
  have NCmax: "NC = max 1 (2 * N)" by (auto simp: NC_def)
  have cap: "m_capacity (m_data v) = N"
    using full by (simp add: Size_def Capacity_def v_def N_def)
  have pN: "pos_num \<le> N" "pos_num < NC" "N < NC"
    using pos by (auto simp: Size_def v_def N_def NC_def)
  have fNC: "fits_size_t s NC"
    using fit by (simp add: NCmax Size_def v_def N_def)
  have "N * 2 \<le> NC"
    by (simp add: NC_def)
  then have wrap2: "size_t_mul N 2 = N * 2"
    by (intro size_t_mul_small fits_size_t_less[OF fNC])
  have "NC \<le> mem_limit s" "NC \<noteq> 0"
    using lim by (auto simp: NC_def Size_def v_def N_def)
  then have ctor: "RawMemory_ctor NC s = Ok nd s1"
    using fNC by (simp add: RawMemory_ctor_def Allocate_no_wrap nd_def s1_def a'_def)
  have v1: "vectors s1 = vectors s" "vectors s2 = vectors s" by (simp_all add: s1_def s2_def)
  have pn: "placement_new (Some a', pos_num) (Some x) s1 = Ok (Some a', pos_num) s2"
    using pN by (simp add: placement_new_def construct_at_def s1_def s2_def)
  have asrt: "ptr_le (Vector_begin s this) (ptr_add (Vector_begin s this) pos_num)"
    "ptr_le (ptr_add (Vector_begin s this) pos_num) (Vector_end s this)"
    "ptr_diff (ptr_add (Vector_begin s this) pos_num) (Vector_begin s this) = pos_num"
    using pN by (simp_all add: ptr_le_def ptr_diff_def Vector_begin_def Vector_end_def GetAddress_def
        N_def v_def)
  have E: "Emplace ops this (ptr_add (Vector_begin s this) pos_num) (Some x) s =
      obind
        (obind
           (try_catch
              (obind (ReAllocate ops this pos_num nd s2)
                 (\<lambda>_ s3. obind (destroy_n (Vector_begin s3 this) (m_size (vectors s3 this)) s3)
                            (\<lambda>_ s4. Ok (Some a', pos_num) s4)))
              (\<lambda>e s5. obind (RawMemory_dtor nd s5) (\<lambda>_ s6. Throw e s6)))
           (\<lambda>val s4.
              let (d, new_data1) = RawMemory_Swap (m_data (vectors s4 this)) nd
              in obind (RawMemory_dtor new_data1
                          (set_vector this ((vectors s4 this)\<lparr>m_data := d\<rparr>) s4))
                   (\<lambda>_ s7. Ok val s7)))
        (\<lambda>val s8. Ok val (set_vector this
                             ((vectors s8 this)\<lparr>m_size := Suc (m_size (vectors s8 this))\<rparr>) s8))"
  proof -
    have ncap: "(if m_size (vectors s this) = 0 then 1
                 else size_t_mul (m_size (vectors s this)) 2) = NC"
      using wrap2 by (simp add: NC_def N_def v_def)
    have le: "pos_num \<le> NC" using pN by simp
    have rp: "RawMemory_plus nd pos_num = Some (Some a', pos_num)"
      using le by (simp add: RawMemory_plus_def nd_def)
    have fl: "m_size (vectors s this) = Capacity s this"
      using full by (simp add: Size_def)
    show ?thesis
      unfolding Emplace_def Emplace_with_def Let_def ncap asrt(3)
      using asrt(1,2) fl by (simp add: ctor rp pn split del: if_split)
  qed
  have mid: "\<exists>s5. try_catch
              (obind (ReAllocate ops this pos_num nd s2)
                 (\<lambda>_ s3. obind (destroy_n (Vector_begin s3 this) (m_size (vectors s3 this)) s3)
                            (\<lambda>_ s4. Ok (Some a', pos_num) s4)))
              (\<lambda>e s5. obind (RawMemory_dtor nd s5) (\<lambda>_ s6. Throw e s6)) = Ok (Some a', pos_num) s5 \<and>
            only_slots s2 s5 \<and>
            map (\<lambda>i. the (slot s5 (a', i))) [0..<Suc N] =
              take pos_num (elems s this) @ [x] @ drop pos_num (elems s this) \<and>
            (\<forall>i\<le>N. slot s5 (a', i) \<noteq> None) \<and>
            (\<forall>i. N < i \<longrightarrow> slot s5 (a', i) = None) \<and>
            (\<forall>b. m_buffer (m_data v) = Some b \<longrightarrow> (\<forall>i<N. slot s5 (b, i) = None) \<and> region_size s b = Some N)"
  proof (cases "m_buffer (m_data v)")
    case None
    then have z: "N = 0" "pos_num = 0"
      using inv pN by (simp_all add: vector_inv_None v_def N_def)
    have bg: "Vector_begin s2 this = (None, 0)" "m_size (vectors s2 this) = 0"
      using None z by (simp_all add: Vector_begin_def GetAddress_def v1 v_def N_def)
    have "ReAllocate ops this pos_num nd s2 = Ok () s2"
      by (simp add: ReAllocate_def bg z)
    then have "try_catch
              (obind (ReAllocate ops this pos_num nd s2)
                 (\<lambda>_ s3. obind (destroy_n (Vector_begin s3 this) (m_size (vectors s3 this)) s3)
                            (\<lambda>_ s4. Ok (Some a', pos_num) s4)))
              (\<lambda>e s5. obind (RawMemory_dtor nd s5) (\<lambda>_ s6. Throw e s6)) = Ok (Some a', pos_num) s2"
      by (simp add: bg)
    moreover have "map (\<lambda>i. the (slot s2 (a', i))) [0..<Suc N] =
              take pos_num (elems s this) @ [x] @ drop pos_num (elems s this)"
      using z by (simp add: elems_empty v_def N_def s2_def)
    moreover have "\<forall>i\<le>N. slot s2 (a', i) \<noteq> None" "\<forall>i. N < i \<longrightarrow> slot s2 (a', i) = None"
      using z by (simp_all add: s2_def s1_def)
    ultimately show ?thesis using None by (intro exI[of _ s2]) simp
  next
    case (Some b)
    have ib: "region_size s b = Some N" "\<forall>i<N. slot s (b, i) \<noteq> None"
      using inv Some cap by (simp_all add: vector_inv_Some[of s this b] v_def N_def)
    have ba: "a' \<noteq> b" using ib(1) fresh by (auto simp: a'_def)
    have el: "elems s this = map (\<lambda>i. the (slot s (b, i))) [0..<N]"
      using Some ib by (simp add: elems_Some[of s this b N] v_def N_def)
    have b2: "m_buffer (m_data (vectors s2 this)) = Some b" "m_size (vectors s2 this) = N"
      using Some by (simp_all add: v1 v_def N_def)
    have nt: "\<forall>i<N. \<not> (if nothrow_move_constructible ops \<or> \<not> copy_constructible ops
                       then move_throws ops (the (slot s2 (b, i)))
                       else copy_throws ops (the (slot s2 (b, i))))"
      using nothrow ba unfolding el by (auto simp: s2_def s1_def)
    have r2: "region_size s2 b = Some N" "region_size s2 a' = Some NC"
      "\<forall>i<N. slot s2 (b, i) \<noteq> None" "\<forall>i. i \<noteq> pos_num \<longrightarrow> slot s2 (a', i) = None"
      using ib ba by (auto simp: s2_def s1_def)
    have "\<exists>s3. ReAllocate ops this pos_num \<lparr>m_buffer = Some a', m_capacity = NC\<rparr> s2 = Ok () s3 \<and>
              only_slots s2 s3 \<and>
              (\<forall>i<pos_num. slot s3 (a', i) = slot s2 (b, i)) \<and>
              slot s3 (a', pos_num) = slot s2 (a', pos_num) \<and>
              (\<forall>i. pos_num \<le> i \<and> i < N \<longrightarrow> slot s3 (a', Suc i) = slot s2 (b, i)) \<and>
              (\<forall>i. N < i \<longrightarrow> slot s3 (a', i) = None) \<and>
              (\<forall>i<N. slot s3 (b, i) \<noteq> None) \<and>
              (\<forall>i. N \<le> i \<longrightarrow> slot s3 (b, i) = slot s2 (b, i)) \<and>
              (\<forall>c i. c \<noteq> a' \<and> c \<noteq> b \<longrightarrow> slot s3 (c, i) = slot s2 (c, i))"
      using ReAllocate_ok[of s2 this b N a' NC pos_num ops] r2 ba pN nt
      by (simp add: b2)
    then obtain s3 where
      re: "ReAllocate ops this pos_num nd s2 = Ok () s3" and os3: "only_slots s2 s3"
      and n1: "\<forall>i<pos_num. slot s3 (a', i) = slot s2 (b, i)"
      and n2: "slot s3 (a', pos_num) = slot s2 (a', pos_num)"
      and n3: "\<forall>i. pos_num \<le> i \<and> i < N \<longrightarrow> slot s3 (a', Suc i) = slot s2 (b, i)"
      and n4: "\<forall>i. N < i \<longrightarrow> slot s3 (a', i) = None"
      and o1: "\<forall>i<N. slot s3 (b, i) \<noteq> None"
      unfolding nd_def by blast
    note f3 = only_slots_fields[OF os3]
    define s4 where "s4 = s3\<lparr>slot := (\<lambda>q. if fst q = b \<and> 0 \<le> snd q \<and> snd q < 0 + N then None
                                         else slot s3 q)\<rparr>"
    have des: "destroy_n (Some b, 0) N s3 = Ok () s4"
      unfolding s4_def using ib o1 f3 ba
      by (intro destroy_n_ok[where c=N]) (auto simp: s2_def s1_def)
    have bg3: "Vector_begin s3 this = (Some b, 0)" "m_size (vectors s3 this) = N"
      using f3 b2 by (simp_all add: Vector_begin_def GetAddress_def)
    have "try_catch
              (obind (ReAllocate ops this pos_num nd s2)
                 (\<lambda>_ s3. obind (destroy_n (Vector_begin s3 this) (m_size (vectors s3 this)) s3)
                            (\<lambda>_ s4. Ok (Some a', pos_num) s4)))
              (\<lambda>e s5. obind (RawMemory_dtor nd s5) (\<lambda>_ s6. Throw e s6)) = Ok (Some a', pos_num) s4"
      by (simp add: re bg3 des)
    moreover have "only_slots s2 s4"
      using os3 by (intro only_slots_trans[OF os3]) (simp add: s4_def)
    moreover have "map (\<lambda>i. the (slot s4 (a', i))) [0..<Suc N] =
              take pos_num (elems s this) @ [x] @ drop pos_num (elems s this)"
      unfolding el using pN n1 n2 n3 ba
      by (intro insert_nth_map) (auto simp: s4_def s2_def s1_def)
    moreover have "\<forall>i\<le>N. slot s4 (a', i) \<noteq> None"
    proof (intro allI impI)
      fix i assume i: "i \<le> N"
      consider "i < pos_num" | "i = pos_num" | "pos_num < i" by linarith
      then show "slot s4 (a', i) \<noteq> None"
      proof cases
        case 1
        then show ?thesis using n1 ib pN ba by (auto simp: s4_def s2_def s1_def)
      next
        case 2
        then show ?thesis using n2 ba by (auto simp: s4_def s2_def s1_def)
      next
        case 3
        then obtain j where j: "i = Suc j" "pos_num \<le> j" "j < N"
          using i by (cases i) auto
        then show ?thesis using n3 ib ba by (auto simp: s4_def s2_def s1_def)
      qed
    qed
    moreover have "\<forall>i. N < i \<longrightarrow> slot s4 (a', i) = None"
      using n4 ba by (simp add: s4_def)
    moreover have "\<forall>i<N. slot s4 (b, i) = None"
      by (simp add: s4_def)
    ultimately show ?thesis using Some ib by (intro exI[of _ s4]) simp
  qed
  then obtain s5 where
    t: "try_catch
              (obind (ReAllocate ops this pos_num nd s2)
                 (\<lambda>_ s3. obind (destroy_n (Vector_begin s3 this) (m_size (vectors s3 this)) s3)
                            (\<lambda>_ s4. Ok (Some a', pos_num) s4)))
              (\<lambda>e s5. obind (RawMemory_dtor nd s5) (\<lambda>_ s6. Throw e s6)) = Ok (Some a', pos_num) s5"
    and os5: "only_slots s2 s5"
    and vals: "map (\<lambda>i. the (slot s5 (a', i))) [0..<Suc N] =
              take pos_num (elems s this) @ [x] @ drop pos_num (elems s this)"
    and lv: "\<forall>i\<le>N. slot s5 (a', i) \<noteq> None" and rw: "\<forall>i. N < i \<longrightarrow> slot s5 (a', i) = None"
    and old: "\<forall>b. m_buffer (m_data v) = Some b \<longrightarrow> (\<forall>i<N. slot s5 (b, i) = None) \<and> region_size s b = Some N"
    by blast
  note f5 = only_slots_fields[OF os5]
  define s6 where "s6 = set_vector this (v\<lparr>m_data := nd\<rparr>) s5"
  have v5: "vectors s5 this = v" using f5 by (simp add: v1 v_def)
  have "\<exists>s7. RawMemory_dtor (m_data v) s6 = Ok () s7 \<and> vectors s7 = vectors s6 \<and>
          slot s7 = slot s6 \<and> leaked s7 = leaked s \<and> region_size s7 a' = Some NC \<and>
          next_addr s7 = Suc a' \<and> elem_size s7 = elem_size s"
  proof (cases "m_buffer (m_data v)")
    case None
    then show ?thesis
      using f5 by (intro exI[of _ s6])
        (simp add: RawMemory_dtor_def Deallocate_def s6_def set_vector_def s2_def s1_def)
  next
    case (Some b)
    with old have ob: "\<forall>i<N. slot s5 (b, i) = None" "region_size s b = Some N" by auto
    have ba: "a' \<noteq> b" using ob(2) fresh by (auto simp: a'_def)
    have "filter (\<lambda>i. slot s6 (b, i) \<noteq> None) [0..<N] = []"
      using ob by (auto simp: filter_empty_conv s6_def set_vector_def)
    moreover have "region_size s6 b = Some N"
      using ob f5 ba by (simp add: s6_def set_vector_def s2_def s1_def)
    ultimately have "RawMemory_dtor (m_data v) s6 =
        Ok () (s6\<lparr>region_size := (region_size s6)(b := None)\<rparr>)"
      using Some by (simp add: RawMemory_dtor_def Deallocate_def)
    then show ?thesis
      using f5 ba
      by (intro exI[of _ "s6\<lparr>region_size := (region_size s6)(b := None)\<rparr>"])
         (simp add: s6_def set_vector_def s2_def s1_def)
  qed
  then obtain s7 where
    d: "RawMemory_dtor (m_data v) s6 = Ok () s7" and v7: "vectors s7 = vectors s6"
    and sl7: "slot s7 = slot s6" and lk7: "leaked s7 = leaked s"
    and r7: "region_size s7 a' = Some NC" and na7: "next_addr s7 = Suc a'"
    and es7: "elem_size s7 = elem_size s"
    by blast
  define s' where "s' = set_vector this ((vectors s7 this)\<lparr>m_size := Suc (m_size (vectors s7 this))\<rparr>) s7"
  have sw: "RawMemory_Swap (m_data v) nd = (nd, m_data v)"
    by (cases "m_data v") (simp add: RawMemory_Swap_def nd_def)
  have run: "Emplace ops this (ptr_add (Vector_begin s this) pos_num) (Some x) s =
               Ok (Some a', pos_num) s'"
    by (simp add: E t v5 sw s6_def[symmetric] d s'_def)
  have vthis: "vectors s' this = \<lparr>m_data = nd, m_size = Suc N\<rparr>"
    by (cases v) (simp add: s'_def set_vector_def v7 s6_def N_def)
  have sl': "slot s' = slot s5" "region_size s' a' = Some NC" "leaked s' = leaked s"
    "next_addr s' = Suc a'"
    using sl7 r7 lk7 na7 by (simp_all add: s'_def set_vector_def s6_def)
  have "elems s' this = map (\<lambda>i. the (slot s' (a', i))) [0..<Suc N]"
    using elems_Some[of s' this a' NC] pN sl' by (simp add: vthis nd_def)
  then have e: "elems s' this = take pos_num (elems s this) @ [x] @ drop pos_num (elems s this)"
    using vals by (simp only: sl')
  have bthis: "m_buffer (m_data (vectors s' this)) = Some a'"
    by (simp add: vthis nd_def)
  have es': "elem_size s' = elem_size s"
    using es7 by (simp add: s'_def set_vector_def)
  have fs': "fits_size_t s' NC"
    using fNC by (simp add: fits_size_t_cong[OF es'])
  have i: "vector_inv s' this"
    using lv rw pN sl' fs'
    by (simp add: vector_inv_Some[OF bthis] vthis nd_def less_Suc_eq_le)
  show ?thesis
    using run e i sl' pN
    by (intro exI[of _ s'])
       (simp add: Vector_begin_def GetAddress_def vthis nd_def Capacity_def Size_def NCmax
          v_def[symmetric] N_def[symmetric] a'_def)
qed

section \<open>\<open>Emplace\<close> with a free slot, in general\<close>

lemma move_backward_n_ok:
  "region_size s a = Some c \<Longrightarrow> f + n < c \<Longrightarrow>
   (\<forall>i. f \<le> i \<and> i \<le> f + n \<longrightarrow> slot s (a, i) \<noteq> None) \<Longrightarrow>
   (\<forall>i. f \<le> i \<and> i < f + n \<longrightarrow> \<not> move_throws ops (the (slot s (a, i)))) \<Longrightarrow>
   move_backward_n ops (Some a, f) n (Some a, Suc (f + n)) s =
     Ok () (s\<lparr>slot := (\<lambda>q. if fst q = a \<and> f < snd q \<and> snd q \<le> f + n then slot s (a, snd q - 1)
                           else if fst q = a \<and> snd q = f \<and> 0 < n
                             then map_option (moved_from ops) (slot s q)
                           else slot s q)\<rparr>)"
proof (induction n arbitrary: s)
  case 0
  then show ?case by (auto simp: fun_eq_iff intro!: slot_update_id')
next
  case (Suc n)
  have "slot s (a, f + n) \<noteq> None" "slot s (a, Suc (f + n)) \<noteq> None"
    using Suc.prems by auto
  then obtain x y where x: "slot s (a, f + n) = Some x" and y: "slot s (a, Suc (f + n)) = Some y"
    by auto
  have "\<not> move_throws ops (the (slot s (a, f + n)))"
    using Suc.prems(4) by simp
  then have nt: "\<not> move_throws ops x" by (simp add: x)
  define s1 where "s1 = s\<lparr>slot := (slot s)((a, Suc (f + n)) := Some x,
                                          (a, f + n) := Some (moved_from ops x))\<rparr>"
  define r1 where "r1 = s1\<lparr>slot := (\<lambda>q. if fst q = a \<and> f < snd q \<and> snd q \<le> f + n
                             then slot s1 (a, snd q - 1)
                           else if fst q = a \<and> snd q = f \<and> 0 < n
                             then map_option (moved_from ops) (slot s1 q)
                           else slot s1 q)\<rparr>"
  have st: "move_assign ops (Some a, Suc (f + n)) (Some a, f + n) s = Ok () s1"
    using Suc.prems x y nt by (simp add: move_assign_def s1_def)
  have ih: "move_backward_n ops (Some a, f) n (Some a, Suc (f + n)) s1 = Ok () r1"
    unfolding r1_def using Suc.prems by (intro Suc.IH) (auto simp: s1_def)
  have r1: "r1 = s\<lparr>slot := (\<lambda>q. if fst q = a \<and> f < snd q \<and> snd q \<le> f + Suc n
                             then slot s (a, snd q - 1)
                           else if fst q = a \<and> snd q = f \<and> 0 < Suc n
                             then map_option (moved_from ops) (slot s q)
                           else slot s q)\<rparr>"
    unfolding r1_def s1_def using x
    by (auto simp: fun_eq_iff le_Suc_eq intro!: slot_update_eq)
  have "move_backward_n ops (Some a, f) (Suc n) (Some a, Suc (f + Suc n)) s = Ok () r1"
    by (simp add: st ih)
  then show ?case
    by (simp only: r1)
qed

lemma Emplace_free_slot_general:
  assumes inv: "vector_inv s this" and free: "Size s this < Capacity s this"
    and pos: "pos_num \<le> Size s this"
    and nothrow: "elems s this \<noteq> [] \<longrightarrow>
                    \<not> move_throws ops (moved_from ops (last (elems s this))) \<and>
                    (\<forall>x\<in>set (elems s this). \<not> move_throws ops x)"
  shows "\<exists>s'. Emplace ops this (ptr_add (Vector_begin s this) pos_num) (Some x) s =
                Ok (ptr_add (Vector_begin s' this) pos_num) s' \<and>
              Size s' this = Size s this + 1 \<and>
              m_data (vectors s' this) = m_data (vectors s this) \<and>
              region_size s' = region_size s \<and> next_addr s' = next_addr s \<and>
              leaked s' = leaked s \<and> vector_inv s' this \<and>
              elems s' this =
                take pos_num ((elems s this)[Size s this - 1 := moved_from ops (last (elems s this))]) @
                [x] @
                drop pos_num ((elems s this)[Size s this - 1 := moved_from ops (last (elems s this))])"
proof -
  define v where "v = vectors s this"
  define N where "N = m_size v"
  define C where "C = m_capacity (m_data v)"
  have NC: "N < C" using free by (simp add: Size_def Capacity_def N_def C_def v_def)
  have pN: "pos_num \<le> N" using pos by (simp add: Size_def N_def v_def)
  obtain a where a: "m_buffer (m_data v) = Some a"
    using Size_positive_buffer[OF inv] NC by (auto simp: C_def v_def)
  have ia: "region_size s a = Some C" "\<forall>i<N. slot s (a, i) \<noteq> None"
      "\<forall>i. N \<le> i \<and> i < C \<longrightarrow> slot s (a, i) = None"
    using inv a by (simp_all add: vector_inv_Some[of s this a] v_def N_def C_def)
  have el: "elems s this = map (\<lambda>i. the (slot s (a, i))) [0..<N]"
    using a ia NC by (simp add: elems_Some[of s this a C] v_def N_def)
  have bg: "Vector_begin s this = (Some a, 0)" "Vector_end s this = (Some a, N)"
    using a by (simp_all add: Vector_begin_def Vector_end_def GetAddress_def v_def N_def)
  have asrt: "ptr_le (Vector_begin s this) (ptr_add (Vector_begin s this) pos_num)"
    "ptr_le (ptr_add (Vector_begin s this) pos_num) (Vector_end s this)"
    "ptr_diff (ptr_add (Vector_begin s this) pos_num) (Vector_begin s this) = pos_num"
    using pN by (simp_all add: ptr_le_def ptr_diff_def bg)
  have nf: "m_size (vectors s this) \<noteq> Capacity s this"
    using NC by (simp add: Capacity_def N_def C_def v_def)
  define body where "body = (if m_size (vectors s this) \<noteq> 0 then
               (case RawMemory_plus (m_data (vectors s this)) (m_size (vectors s this)) of
                  None \<Rightarrow> Fault
                | Some p \<Rightarrow>
                    obind (move_construct ops p (ptr_sub (Vector_end s this) 1) s)
                      (\<lambda>_ s1.
                         obind
                           (try_catch
                              (std_move_backward ops (ptr_add (Vector_begin s1 this) pos_num)
                                 (Vector_end s1 this) (ptr_add (Vector_end s1 this) 1) s1)
                              (\<lambda>e s2. obind (destroy_at (Vector_end s2 this) s2)
                                         (\<lambda>_ s3. Throw e s3)))
                           (\<lambda>_ s4. destroy_at (ptr_add (Vector_begin s4 this) pos_num) s4)))
             else Ok () s)"
  have E: "Emplace ops this (ptr_add (Vector_begin s this) pos_num) (Some x) s =
       obind
         (obind
            body
            (\<lambda>_ s5.
               (case RawMemory_plus (m_data (vectors s5 this)) pos_num of None \<Rightarrow> Fault
                | Some p \<Rightarrow> placement_new p (Some x) s5)))
         (\<lambda>val s8.
            Ok val (set_vector this
                      ((vectors s8 this)\<lparr>m_size := Suc (m_size (vectors s8 this))\<rparr>) s8))"
    unfolding Emplace_def Emplace_with_def Let_def asrt(3) body_def
    using asrt(1,2) nf by (simp split del: if_split)
  define f where "f = (\<lambda>i. if i = N - 1 then moved_from ops (the (slot s (a, i)))
                            else the (slot s (a, i)))"
  have mid: "\<exists>s5. body = Ok () s5 \<and> only_slots s s5 \<and>
            slot s5 (a, pos_num) = None \<and>
            (\<forall>i<pos_num. slot s5 (a, i) = Some (f i)) \<and>
            (\<forall>i. pos_num \<le> i \<and> i < N \<longrightarrow> slot s5 (a, Suc i) = Some (f i)) \<and>
            (\<forall>i. N < i \<and> i < C \<longrightarrow> slot s5 (a, i) = None)"
  proof (cases "N = 0")
    case True
    then show ?thesis
      using ia pN NC by (intro exI[of _ s]) (simp add: N_def v_def body_def)
  next
    case False
    then have N1: "N - 1 < N" "Suc (N - 1) = N" by simp_all
    obtain xl where xl: "slot s (a, N - 1) = Some xl"
      using ia(2) N1 by blast
    have lastx: "last (elems s this) = xl" "elems s this \<noteq> []"
      using False xl by (simp_all add: el last_map last_upt)
    have nt: "\<not> move_throws ops xl" "\<not> move_throws ops (moved_from ops xl)"
      "\<forall>i<N. \<not> move_throws ops (the (slot s (a, i)))"
      using nothrow lastx unfolding el by (auto simp: last_map)
    define s1 where "s1 = s\<lparr>slot := (slot s)((a, N) := Some xl,
                                            (a, N - 1) := Some (moved_from ops xl))\<rparr>"
    have rp: "RawMemory_plus (m_data v) N = Some (Some a, N)"
      using NC a by (simp add: RawMemory_plus_def C_def[symmetric])
    have mc: "move_construct ops (Some a, N) (Some a, N - Suc 0) s = Ok () s1"
      using xl nt ia NC N1 by (simp add: move_construct_def construct_at_def s1_def)
    have v1: "vectors s1 = vectors s" by (simp add: s1_def)
    define s2 where "s2 = s1\<lparr>slot := (\<lambda>q. if fst q = a \<and> pos_num < snd q \<and> snd q \<le> pos_num + (N - pos_num)
                             then slot s1 (a, snd q - 1)
                           else if fst q = a \<and> snd q = pos_num \<and> 0 < N - pos_num
                             then map_option (moved_from ops) (slot s1 q)
                           else slot s1 q)\<rparr>"
    have live1: "\<forall>i\<le>N. slot s1 (a, i) \<noteq> None"
      using ia by (auto simp: s1_def le_less)
    have val1: "\<forall>i<N. slot s1 (a, i) = Some (f i)"
      using ia xl by (auto simp: s1_def f_def)
    have nt1: "\<forall>i<N. \<not> move_throws ops (f i)"
      using nt xl by (auto simp: f_def)
    have mb: "move_backward_n ops (Some a, pos_num) (N - pos_num) (Some a, Suc (pos_num + (N - pos_num))) s1 = Ok () s2"
      unfolding s2_def using ia(1) NC pN live1 val1 nt1
      by (intro move_backward_n_ok[where c=C]) (auto simp: s1_def)
    have v2: "vectors s2 = vectors s" by (simp add: s2_def s1_def)
    define s3 where "s3 = s2\<lparr>slot := (slot s2)((a, pos_num) := None)\<rparr>"
    have live2: "slot s2 (a, pos_num) \<noteq> None"
      using live1 pN val1 by (auto simp: s2_def)
    have da: "destroy_at (Some a, pos_num) s2 = Ok () s3"
      using live2 ia(1) pN NC by (simp add: destroy_at_def s3_def s2_def s1_def)
    have "(case RawMemory_plus (m_data (vectors s this)) (m_size (vectors s this)) of
                  None \<Rightarrow> Fault
                | Some p \<Rightarrow>
                    obind (move_construct ops p (ptr_sub (Vector_end s this) 1) s)
                      (\<lambda>_ s1.
                         obind
                           (try_catch
                              (std_move_backward ops (ptr_add (Vector_begin s1 this) pos_num)
                                 (Vector_end s1 this) (ptr_add (Vector_end s1 this) 1) s1)
                              (\<lambda>e s2. obind (destroy_at (Vector_end s2 this) s2)
                                         (\<lambda>_ s3. Throw e s3)))
                           (\<lambda>_ s4. destroy_at (ptr_add (Vector_begin s4 this) pos_num) s4))) = Ok () s3"
      using pN mb
      by (simp add: rp bg ptr_sub_def mc Vector_begin_def Vector_end_def GetAddress_def v1 v2
          v_def[symmetric] a N_def[symmetric] std_move_backward_def da)
    moreover have "only_slots s s3" by (simp add: s3_def s2_def s1_def)
    moreover have "slot s3 (a, pos_num) = None" by (simp add: s3_def)
    moreover have "\<forall>i<pos_num. slot s3 (a, i) = Some (f i)"
      using val1 pN by (auto simp: s3_def s2_def)
    moreover have "\<forall>i. pos_num \<le> i \<and> i < N \<longrightarrow> slot s3 (a, Suc i) = Some (f i)"
      using val1 pN by (auto simp: s3_def s2_def)
    moreover have "\<forall>i. N < i \<and> i < C \<longrightarrow> slot s3 (a, i) = None"
      using ia pN by (auto simp: s3_def s2_def s1_def)
    ultimately show ?thesis
      using False by (intro exI[of _ s3]) (simp add: N_def v_def body_def)
  qed
  then obtain s5 where
    m: "body = Ok () s5"
    and os: "only_slots s s5" and raw: "slot s5 (a, pos_num) = None"
    and lo: "\<forall>i<pos_num. slot s5 (a, i) = Some (f i)"
    and hi: "\<forall>i. pos_num \<le> i \<and> i < N \<longrightarrow> slot s5 (a, Suc i) = Some (f i)"
    and rest: "\<forall>i. N < i \<and> i < C \<longrightarrow> slot s5 (a, i) = None"
    by blast
  note f5 = only_slots_fields[OF os]
  define s6 where "s6 = s5\<lparr>slot := (slot s5)((a, pos_num) := Some x)\<rparr>"
  define s' where "s' = set_vector this (v\<lparr>m_size := Suc N\<rparr>) s6"
  have pn: "placement_new (Some a, pos_num) (Some x) s5 = Ok (Some a, pos_num) s6"
    using raw ia(1) f5 pN NC by (simp add: placement_new_def construct_at_def s6_def)
  have rp5: "RawMemory_plus (m_data (vectors s5 this)) pos_num = Some (Some a, pos_num)"
    using f5 a pN NC by (simp add: RawMemory_plus_def v_def[symmetric] C_def[symmetric])
  have v6: "vectors s6 this = v" "m_size v = N"
    using f5 by (simp_all add: s6_def v_def N_def)
  have run: "Emplace ops this (ptr_add (Vector_begin s this) pos_num) (Some x) s =
               Ok (Some a, pos_num) s'"
    by (simp add: E m rp5 pn s'_def v6)
  have vthis: "vectors s' this = v\<lparr>m_size := Suc N\<rparr>"
    by (simp add: s'_def set_vector_def)
  have fr: "region_size s' = region_size s" "next_addr s' = next_addr s" "leaked s' = leaked s"
    using f5 by (simp_all add: s'_def set_vector_def s6_def)
  have es: "elem_size s' = elem_size s"
    using f5 by (simp add: s'_def set_vector_def s6_def)
  have fC: "fits_size_t s' C"
    using inv a
    by (simp add: fits_size_t_cong[OF es] vector_inv_Some[of s this a] C_def v_def)
  have bthis: "m_buffer (m_data (vectors s' this)) = Some a"
    using a by (simp add: vthis)
  have sl: "\<forall>i. slot s' (a, i) = (if i = pos_num then Some x else slot s5 (a, i))"
    by (simp add: s'_def set_vector_def s6_def)
  have g: "\<forall>i<pos_num. the (slot s' (a, i)) = f i" "the (slot s' (a, pos_num)) = x"
    "\<forall>i. pos_num \<le> i \<and> i < N \<longrightarrow> the (slot s' (a, Suc i)) = f i"
    using lo hi by (simp_all add: sl)
  have "elems s' this = map (\<lambda>i. the (slot s' (a, i))) [0..<Suc N]"
    using elems_Some[OF bthis, of C] ia(1) NC by (simp add: fr vthis)
  also have "\<dots> = take pos_num (map f [0..<N]) @ [x] @ drop pos_num (map f [0..<N])"
    using pN g by (intro insert_nth_map) auto
  also have "map f [0..<N] = (elems s this)[N - 1 := moved_from ops (last (elems s this))]"
  proof (cases "N = 0")
    case True
    then show ?thesis by (simp add: el)
  next
    case False
    then have "last (elems s this) = the (slot s (a, N - 1))"
      by (simp add: el last_map last_upt)
    then show ?thesis
      unfolding el by (intro nth_equalityI) (auto simp: f_def nth_list_update)
  qed
  finally have e: "elems s' this =
      take pos_num ((elems s this)[N - 1 := moved_from ops (last (elems s this))]) @ [x] @
      drop pos_num ((elems s this)[N - 1 := moved_from ops (last (elems s this))])" .
  have live: "\<forall>i<Suc N. slot s' (a, i) \<noteq> None"
  proof (intro allI impI)
    fix i assume i: "i < Suc N"
    consider "i < pos_num" | "i = pos_num" | "pos_num < i" by linarith
    then show "slot s' (a, i) \<noteq> None"
    proof cases
      case 1 then show ?thesis using lo by (simp add: sl)
    next
      case 2 then show ?thesis by (simp add: sl)
    next
      case 3
      then obtain j where j: "i = Suc j" "pos_num \<le> j" "j < N"
        using i by (cases i) auto
      then show ?thesis using hi by (simp add: sl)
    qed
  qed
  have i: "vector_inv s' this"
    using live rest ia(1) NC pN fC
    by (simp add: vector_inv_Some[OF bthis] vthis fr C_def[symmetric] sl)
  show ?thesis
    using run e i fr a
    by (intro exI[of _ s'])
       (simp add: Vector_begin_def GetAddress_def vthis Size_def v_def[symmetric] N_def[symmetric])
qed

section \<open>\<open>Erase\<close>: the values that remain\<close>

lemma move_n_assign_shift_ok:
  "region_size s a = Some c \<Longrightarrow> f + n < c \<Longrightarrow>
   (\<forall>i. f \<le> i \<and> i \<le> f + n \<longrightarrow> slot s (a, i) \<noteq> None) \<Longrightarrow>
   (\<forall>i. f < i \<and> i \<le> f + n \<longrightarrow> \<not> move_throws ops (the (slot s (a, i)))) \<Longrightarrow>
   move_n_assign ops (Some a, Suc f) n (Some a, f) s =
     Ok () (s\<lparr>slot := (\<lambda>q. if fst q = a \<and> f \<le> snd q \<and> snd q < f + n then slot s (a, Suc (snd q))
                           else if fst q = a \<and> snd q = f + n \<and> 0 < n
                             then map_option (moved_from ops) (slot s q)
                           else slot s q)\<rparr>)"
proof (induction n arbitrary: f s)
  case 0
  then show ?case by (auto simp: fun_eq_iff intro!: slot_update_id')
next
  case (Suc n)
  have "slot s (a, f) \<noteq> None" "slot s (a, Suc f) \<noteq> None"
    using Suc.prems by auto
  then obtain y x where y: "slot s (a, f) = Some y" and x: "slot s (a, Suc f) = Some x"
    by auto
  have "\<not> move_throws ops (the (slot s (a, Suc f)))"
    using Suc.prems(4) by simp
  then have nt: "\<not> move_throws ops x" by (simp add: x)
  define s1 where "s1 = s\<lparr>slot := (slot s)((a, f) := Some x,
                                          (a, Suc f) := Some (moved_from ops x))\<rparr>"
  define r1 where "r1 = s1\<lparr>slot := (\<lambda>q. if fst q = a \<and> Suc f \<le> snd q \<and> snd q < Suc f + n
                             then slot s1 (a, Suc (snd q))
                           else if fst q = a \<and> snd q = Suc f + n \<and> 0 < n
                             then map_option (moved_from ops) (slot s1 q)
                           else slot s1 q)\<rparr>"
  have st: "move_assign ops (Some a, f) (Some a, Suc f) s = Ok () s1"
    using Suc.prems x y nt by (simp add: move_assign_def s1_def)
  have ih: "move_n_assign ops (Some a, Suc (Suc f)) n (Some a, Suc f) s1 = Ok () r1"
    unfolding r1_def using Suc.prems by (intro Suc.IH) (auto simp: s1_def)
  have r1: "r1 = s\<lparr>slot := (\<lambda>q. if fst q = a \<and> f \<le> snd q \<and> snd q < f + Suc n
                             then slot s (a, Suc (snd q))
                           else if fst q = a \<and> snd q = f + Suc n \<and> 0 < Suc n
                             then map_option (moved_from ops) (slot s q)
                           else slot s q)\<rparr>"
    unfolding r1_def s1_def using x
    by (auto simp: fun_eq_iff le_Suc_eq intro!: slot_update_eq)
  have "move_n_assign ops (Some a, Suc f) (Suc n) (Some a, f) s = Ok () r1"
    by (simp add: st ih)
  then show ?case
    by (simp only: r1)
qed

lemma remove_nth_map:
  assumes "pos < N" and "\<forall>i<pos. g i = f i" and "\<forall>i. pos \<le> i \<and> i < N - 1 \<longrightarrow> g i = f (Suc i)"
  shows "map g [0..<N - 1] = take pos (map f [0..<N]) @ drop (Suc pos) (map f [0..<N])"
proof (rule nth_equalityI)
  show "length (map g [0..<N - 1]) = length (take pos (map f [0..<N]) @ drop (Suc pos) (map f [0..<N]))"
    using assms(1) by simp
next
  fix i assume "i < length (map g [0..<N - 1])"
  then have i: "i < N - 1" by simp
  show "map g [0..<N - 1] ! i = (take pos (map f [0..<N]) @ drop (Suc pos) (map f [0..<N])) ! i"
  proof (cases "i < pos")
    case True
    then show ?thesis using assms i by (simp add: nth_append)
  next
    case False
    then show ?thesis using assms i by (simp add: nth_append min_def)
  qed
qed

lemma Erase_ok:
  assumes inv: "vector_inv s this" and pos: "pos_num < Size s this"
    and nothrow: "\<forall>x\<in>set (drop (Suc pos_num) (elems s this)). \<not> move_throws ops x"
  shows "\<exists>s'. Erase ops this (ptr_add (Vector_begin s this) pos_num) s =
                Ok (ptr_add (Vector_begin s' this) pos_num) s' \<and>
              elems s' this = take pos_num (elems s this) @ drop (Suc pos_num) (elems s this) \<and>
              Size s' this = Size s this - 1 \<and>
              m_data (vectors s' this) = m_data (vectors s this) \<and>
              region_size s' = region_size s \<and> next_addr s' = next_addr s \<and>
              leaked s' = leaked s \<and> vector_inv s' this"
proof -
  define v where "v = vectors s this"
  define N where "N = m_size v"
  define C where "C = m_capacity (m_data v)"
  have pN: "pos_num < N" using pos by (simp add: N_def v_def Size_def)
  obtain a where a: "m_buffer (m_data v) = Some a"
    using inv pN by (cases "m_buffer (m_data v)") (auto simp: vector_inv_None N_def v_def)
  have ia: "region_size s a = Some C" "N \<le> C" "\<forall>i<N. slot s (a, i) \<noteq> None"
      "\<forall>i. N \<le> i \<and> i < C \<longrightarrow> slot s (a, i) = None"
    using inv a by (simp_all add: vector_inv_Some[of s this a] N_def v_def C_def)
  have el: "elems s this = map (\<lambda>i. the (slot s (a, i))) [0..<N]"
    using a ia by (simp add: elems_Some[of s this a C] v_def N_def)
  have nt: "\<forall>i. pos_num < i \<and> i < N \<longrightarrow> \<not> move_throws ops (the (slot s (a, i)))"
  proof (intro allI impI)
    fix i assume i: "pos_num < i \<and> i < N"
    then have "the (slot s (a, i)) = drop (Suc pos_num) (elems s this) ! (i - Suc pos_num)"
      by (simp add: el)
    moreover have "i - Suc pos_num < length (drop (Suc pos_num) (elems s this))"
      using i by (auto simp: el)
    ultimately show "\<not> move_throws ops (the (slot s (a, i)))"
      using nothrow by (metis nth_mem)
  qed
  define n where "n = N - Suc pos_num"
  have pn: "pos_num + n = N - 1" "pos_num + n < C" using pN ia by (simp_all add: n_def)
  define s1 where "s1 = s\<lparr>slot := (\<lambda>q. if fst q = a \<and> pos_num \<le> snd q \<and> snd q < pos_num + n
                             then slot s (a, Suc (snd q))
                           else if fst q = a \<and> snd q = pos_num + n \<and> 0 < n
                             then map_option (moved_from ops) (slot s q)
                           else slot s q)\<rparr>"
  have mv: "move_n_assign ops (Some a, Suc pos_num) n (Some a, pos_num) s = Ok () s1"
    unfolding s1_def using ia pN nt pn
    by (intro move_n_assign_shift_ok[where c=C]) auto
  have E: "Erase ops this (ptr_add (Vector_begin s this) pos_num) s =
        obind (move_n_assign ops (Some a, Suc pos_num) n (Some a, pos_num) s)
          (\<lambda>_ s1. obind (PopBack this s1)
                     (\<lambda>_ s2. Ok (ptr_add (Vector_begin s2 this) pos_num) s2))"
    using a pN
    by (simp add: Erase_def Vector_begin_def Vector_end_def GetAddress_def ptr_le_def ptr_less_def
        ptr_diff_def std_move_def v_def[symmetric] N_def[symmetric] n_def Let_def)
  have live1: "\<forall>i<N. slot s1 (a, i) \<noteq> None"
    using ia pN by (auto simp: s1_def n_def)
  define s' where "s' = (set_vector this (v\<lparr>m_size := N - 1\<rparr>) s1)
                          \<lparr>slot := (slot s1)((a, N - 1) := None)\<rparr>"
  have pb: "PopBack this s1 = Ok () s'"
    using pN a ia live1
    by (simp add: PopBack_def s1_def v_def[symmetric] N_def[symmetric] set_vector_def
        GetAddress_def destroy_at_def s'_def Let_def)
  have vthis: "vectors s' this = v\<lparr>m_size := N - 1\<rparr>"
    by (simp add: s'_def set_vector_def)
  have rhs: "obind (move_n_assign ops (Some a, Suc pos_num) n (Some a, pos_num) s)
          (\<lambda>_ s1. obind (PopBack this s1)
                     (\<lambda>_ s2. Ok (ptr_add (Vector_begin s2 this) pos_num) s2)) =
        Ok (Some a, pos_num) s'"
    using a by (simp add: mv pb Vector_begin_def GetAddress_def vthis)
  have run: "Erase ops this (ptr_add (Vector_begin s this) pos_num) s = Ok (Some a, pos_num) s'"
    using E rhs by (simp only:)
  have bthis: "m_buffer (m_data (vectors s' this)) = Some a"
    using a by (simp add: vthis)
  have fr: "region_size s' = region_size s" "next_addr s' = next_addr s" "leaked s' = leaked s"
    by (simp_all add: s'_def set_vector_def s1_def)
  have es: "elem_size s' = elem_size s"
    by (simp add: s'_def set_vector_def s1_def)
  have fC: "fits_size_t s' C"
    using inv a
    by (simp add: fits_size_t_cong[OF es] vector_inv_Some[of s this a] C_def v_def)
  have "elems s' this = map (\<lambda>i. the (slot s' (a, i))) [0..<N - 1]"
    using elems_Some[OF bthis, of C] ia by (simp add: fr vthis)
  also have "\<dots> = take pos_num (map (\<lambda>i. the (slot s (a, i))) [0..<N]) @
                  drop (Suc pos_num) (map (\<lambda>i. the (slot s (a, i))) [0..<N])"
    using pN pn by (intro remove_nth_map) (auto simp: s'_def set_vector_def s1_def)
  finally have e: "elems s' this = take pos_num (elems s this) @ drop (Suc pos_num) (elems s this)"
    by (simp add: el)
  have sl1: "\<forall>i<N - 1. slot s' (a, i) \<noteq> None"
    using live1 by (simp add: s'_def set_vector_def)
  have sl2: "\<forall>i. N - 1 \<le> i \<and> i < C \<longrightarrow> slot s' (a, i) = None"
    using ia pN pn by (auto simp: s'_def set_vector_def s1_def)
  have sz: "m_size (vectors s' this) = N - 1" "m_capacity (m_data (vectors s' this)) = C"
    by (simp_all add: vthis C_def)
  have i: "vector_inv s' this"
    unfolding vector_inv_Some[OF bthis] sz fr
    using sl1 sl2 ia fC by simp
  show ?thesis
    using run e i fr a
    by (intro exI[of _ s'])
       (simp add: Vector_begin_def GetAddress_def vthis Size_def v_def[symmetric] N_def[symmetric])
qed

section \<open>What \<open>Emplace\<close> and \<open>Erase\<close> do to the values\<close>

text \<open>
  \<^verbatim>\<open>Emplace\<close> on a full vector (size equal to capacity), at any position from \<open>begin()\<close> to
  \<open>end()\<close>, with an argument that is not an element of the vector: when the byte count of
  the new buffer fits \<^verbatim>\<open>size_t\<close>, the allocation is granted and relocating the elements
  does not throw, the
  call returns an iterator to the new element, the capacity becomes \<open>max 1 (2 * size)\<close>, the
  size grows by one and the values are the old ones with the new value inserted at the
  position; the elements live in a new region and nothing is leaked.
\<close>

theorem Emplace_full_spec:
  assumes "vector_inv s this" and "region_size s (next_addr s) = None"
    and "Size s this = Capacity s this" and "pos_num \<le> Size s this"
    and "max 1 (2 * Size s this) * elem_size s < size_t_range"
    and "max 1 (2 * Size s this) \<le> mem_limit s"
    and "\<forall>x\<in>set (elems s this).
           \<not> (if nothrow_move_constructible ops \<or> \<not> copy_constructible ops
              then move_throws ops x else copy_throws ops x)"
  shows "\<exists>s'. Emplace ops this (ptr_add (Vector_begin s this) pos_num) (Some x) s =
                Ok (ptr_add (Vector_begin s' this) pos_num) s' \<and>
              Capacity s' this = max 1 (2 * Size s this) \<and> Size s' this = Size s this + 1 \<and>
              elems s' this = take pos_num (elems s this) @ [x] @ drop pos_num (elems s this) \<and>
              vector_inv s' this \<and> leaked s' = leaked s \<and>
              m_buffer (m_data (vectors s' this)) = Some (next_addr s)"
proof -
  have "fits_size_t s (max 1 (2 * Size s this))"
    using vector_inv_fits(1)[OF assms(1)] assms(5) by (simp add: fits_size_t_def)
  from Emplace_full_ok[OF assms(1-4) this assms(6,7), of x] show ?thesis
    by blast
qed

theorem Emplace_full_spec_witness:
  "\<exists>s'. Emplace int_ops 0 (ptr_add (Vector_begin example_state 0) 1) (Some 7) example_state =
          Ok (ptr_add (Vector_begin s' 0) 1) s' \<and>
        Capacity s' 0 = 4 \<and> Size s' 0 = 3 \<and> elems s' 0 = [8, 7, 9] \<and> vector_inv s' 0 \<and>
        leaked s' = leaked example_state \<and> m_buffer (m_data (vectors s' 0)) = Some 2"
  using Emplace_full_spec[of example_state 0 1 int_ops 7]
  by (simp add: example_state_facts int_ops_def size_t_range_def) (simp add: example_state_def)

text \<open>
  \<^verbatim>\<open>Emplace\<close> on a vector with a free slot (size below capacity), with an argument that
  is not an element of the vector, in general: when no move throws, the call returns an iterator to the new element, the size grows by one and the
  buffer and the capacity stay; the values are the new value inserted at the position into
  the old values \<^emph>\<open>with the last one replaced by what a move leaves behind\<close>.
\<close>

theorem Emplace_free_slot_spec:
  assumes "vector_inv s this" and "Size s this < Capacity s this" and "pos_num \<le> Size s this"
    and "elems s this \<noteq> [] \<longrightarrow>
           \<not> move_throws ops (moved_from ops (last (elems s this))) \<and>
           (\<forall>x\<in>set (elems s this). \<not> move_throws ops x)"
  shows "\<exists>s'. Emplace ops this (ptr_add (Vector_begin s this) pos_num) (Some x) s =
                Ok (ptr_add (Vector_begin s' this) pos_num) s' \<and>
              Size s' this = Size s this + 1 \<and>
              m_data (vectors s' this) = m_data (vectors s this) \<and>
              leaked s' = leaked s \<and> vector_inv s' this \<and>
              elems s' this =
                take pos_num ((elems s this)[Size s this - 1 := moved_from ops (last (elems s this))]) @
                [x] @
                drop pos_num ((elems s this)[Size s this - 1 := moved_from ops (last (elems s this))])"
  using Emplace_free_slot_general[OF assms, of x] by blast

theorem Emplace_free_slot_spec_witness:
  "\<exists>s'. Emplace (int_ops\<lparr>moved_from := (\<lambda>_. 0)\<rparr>) 1 (ptr_add (Vector_begin example_state 1) 0)
          (Some 7) example_state = Ok (ptr_add (Vector_begin s' 1) 0) s' \<and>
        Size s' 1 = 2 \<and> m_data (vectors s' 1) = m_data (vectors example_state 1) \<and>
        leaked s' = leaked example_state \<and> vector_inv s' 1 \<and> elems s' 1 = [7, 0]"
  using Emplace_free_slot_spec[of example_state 1 0 "int_ops\<lparr>moved_from := (\<lambda>_. 0)\<rparr>" 7]
  by (simp add: example_state_facts int_ops_def numeral_eq_Suc)

text \<open>
  For an element type whose move leaves its source unchanged (a trivially copyable type such
  as \<^verbatim>\<open>int\<close>), \<^verbatim>\<open>Emplace\<close> with a free slot and an argument that is not an element of
  the vector does insert: the values are the old ones with the new value at the position,
  the capacity and the buffer are unchanged.
\<close>

theorem Emplace_free_slot_trivial_move:
  assumes "vector_inv s this" and "Size s this < Capacity s this" and "pos_num \<le> Size s this"
    and "\<forall>y. moved_from ops y = y" and "\<forall>y\<in>set (elems s this). \<not> move_throws ops y"
  shows "\<exists>s'. Emplace ops this (ptr_add (Vector_begin s this) pos_num) (Some x) s =
                Ok (ptr_add (Vector_begin s' this) pos_num) s' \<and>
              Size s' this = Size s this + 1 \<and> Capacity s' this = Capacity s this \<and>
              m_data (vectors s' this) = m_data (vectors s this) \<and>
              leaked s' = leaked s \<and> vector_inv s' this \<and>
              elems s' this = take pos_num (elems s this) @ [x] @ drop pos_num (elems s this)"
proof -
  have len: "length (elems s this) = Size s this"
    by (simp add: elems_def Size_def)
  have h: "elems s this \<noteq> [] \<longrightarrow>
           \<not> move_throws ops (moved_from ops (last (elems s this))) \<and>
           (\<forall>x\<in>set (elems s this). \<not> move_throws ops x)"
    using assms(4,5) by simp
  have upd: "(elems s this)[Size s this - Suc 0 := moved_from ops (last (elems s this))] = elems s this"
  proof (cases "elems s this = []")
    case True
    then show ?thesis by simp
  next
    case False
    then have "last (elems s this) = elems s this ! (Size s this - 1)"
      by (simp add: last_conv_nth len)
    then show ?thesis using assms(4) by simp
  qed
  from Emplace_free_slot_general[OF assms(1-3) h, of x]
  obtain s' where s': "Emplace ops this (ptr_add (Vector_begin s this) pos_num) (Some x) s =
                Ok (ptr_add (Vector_begin s' this) pos_num) s'"
      "Size s' this = Size s this + 1" "m_data (vectors s' this) = m_data (vectors s this)"
      "leaked s' = leaked s" "vector_inv s' this"
      "elems s' this =
        take pos_num ((elems s this)[Size s this - 1 := moved_from ops (last (elems s this))]) @
        [x] @
        drop pos_num ((elems s this)[Size s this - 1 := moved_from ops (last (elems s this))])"
    by blast
  show ?thesis
    using s' by (intro exI[of _ s']) (simp add: upd Capacity_def)
qed

theorem Emplace_free_slot_trivial_move_witness:
  "\<exists>s'. Emplace int_ops 1 (ptr_add (Vector_begin example_state 1) 1) (Some 7) example_state =
          Ok (ptr_add (Vector_begin s' 1) 1) s' \<and>
        Size s' 1 = 2 \<and> Capacity s' 1 = 3 \<and>
        m_data (vectors s' 1) = m_data (vectors example_state 1) \<and>
        leaked s' = leaked example_state \<and> vector_inv s' 1 \<and> elems s' 1 = [5, 7]"
  using Emplace_free_slot_trivial_move[of example_state 1 1 int_ops 7]
  by (simp add: example_state_facts int_ops_def numeral_eq_Suc)

text \<open>
  \<^verbatim>\<open>Erase\<close> at a valid position: when no move assignment throws, the call returns an
  iterator to the same position, the values are the old ones without the one at the
  position, in order, the size drops by one, and the buffer and the capacity stay.
\<close>

theorem Erase_spec:
  assumes "vector_inv s this" and "pos_num < Size s this"
    and "\<forall>x\<in>set (drop (Suc pos_num) (elems s this)). \<not> move_throws ops x"
  shows "\<exists>s'. Erase ops this (ptr_add (Vector_begin s this) pos_num) s =
                Ok (ptr_add (Vector_begin s' this) pos_num) s' \<and>
              elems s' this = take pos_num (elems s this) @ drop (Suc pos_num) (elems s this) \<and>
              Size s' this = Size s this - 1 \<and> Capacity s' this = Capacity s this \<and>
              m_data (vectors s' this) = m_data (vectors s this) \<and>
              leaked s' = leaked s \<and> vector_inv s' this"
proof -
  from Erase_ok[OF assms]
  obtain s' where s': "Erase ops this (ptr_add (Vector_begin s this) pos_num) s =
                Ok (ptr_add (Vector_begin s' this) pos_num) s'"
      "elems s' this = take pos_num (elems s this) @ drop (Suc pos_num) (elems s this)"
      "Size s' this = Size s this - 1" "m_data (vectors s' this) = m_data (vectors s this)"
      "leaked s' = leaked s" "vector_inv s' this"
    by blast
  show ?thesis
    using s' by (intro exI[of _ s']) (simp add: Capacity_def)
qed

theorem Erase_spec_witness:
  "\<exists>s'. Erase int_ops 0 (ptr_add (Vector_begin example_state 0) 0) example_state =
          Ok (ptr_add (Vector_begin s' 0) 0) s' \<and>
        elems s' 0 = [9] \<and> Size s' 0 = 1 \<and> Capacity s' 0 = 2 \<and>
        m_data (vectors s' 0) = m_data (vectors example_state 0) \<and>
        leaked s' = leaked example_state \<and> vector_inv s' 0"
  using Erase_spec[of example_state 0 0 int_ops]
  by (simp add: example_state_facts int_ops_def)

section \<open>Inserting an element of the vector itself\<close>

text \<open>
  When the argument of \<^verbatim>\<open>Insert\<close> refers to an element of the vector and there is a free
  slot, the new element is copied from that slot after the shift. Vector 1 of the example
  state, after \<^verbatim>\<open>PushBack(6)\<close>, holds 5, 6 in a buffer of capacity 3:
  \<^verbatim>\<open>v.Insert(v.begin(), v[1])\<close> gives 5, 5, 6, because slot 1 holds 5 when the copy is
  made, where inserting a separate object of value 6 gives 6, 5, 6.
\<close>

theorem Insert_own_element:
  "(case PushBack int_ops 1 6 example_state of
      Ok _ s1 \<Rightarrow>
        elems s1 1 = [5, 6] \<and> Size s1 1 = 2 \<and> Capacity s1 1 = 3 \<and>
        (case Insert_element int_ops 1 (Vector_begin s1 1) (ptr_add (Vector_begin s1 1) 1) s1 of
           Ok _ s2 \<Rightarrow> elems s2 1 = [5, 5, 6]
         | _ \<Rightarrow> False) \<and>
        (case Insert int_ops 1 (Vector_begin s1 1) 6 s1 of
           Ok _ s2 \<Rightarrow> elems s2 1 = [6, 5, 6]
         | _ \<Rightarrow> False)
    | _ \<Rightarrow> False)"
  by (simp add: run_defs int_ops_def example_state_def)

end
